(* ===== verification/Prelude.thy ===== *)
theory Prelude
  imports Complex_Main "HOL-Library.Word"
begin

text \<open>
  Shared vocabulary of the development: the outcome type of Go code that may panic or exit,
  checked slice access, Go strings as byte lists with the functions of package strings that the
  source calls, and the list and word lemmas the components share.

  A Go function that can panic (index out of range, nil dereference, a NaN result of package
  math/big, a negative wait group) or end the process (log.Fatalf) returns
  \<open>fault + 'a\<close>: \<open>Inl\<close> is the way the goroutine or the process ends, \<open>Inr\<close> a normal return.
  Go's \<open>error\<close> results are ordinary values and are modelled as such by each component.
\<close>

named_theorems go_simps "evaluation of the outcome monad"
named_theorems ok_iff "when a computation returns normally"

section \<open>Outcomes\<close>

datatype fault =
    PanicIndex
  | PanicSlice
  | PanicNil
  | PanicNaN
  | PanicWaitGroup
  | PanicDivZero
  | Fatal

type_synonym 'a go = "fault + 'a"

definition go_bind :: "'a go \<Rightarrow> ('a \<Rightarrow> 'b go) \<Rightarrow> 'b go" where
  "go_bind m f = (case m of Inl e \<Rightarrow> Inl e | Inr x \<Rightarrow> f x)"

lemma go_bind_Inr [simp, go_simps]: "go_bind (Inr x) f = f x"
  by (simp add: go_bind_def)

lemma go_bind_Inl [simp, go_simps]: "go_bind (Inl e) f = Inl e"
  by (simp add: go_bind_def)

lemma go_bind_ok [ok_iff]: "go_bind m f = Inr y \<longleftrightarrow> (\<exists>x. m = Inr x \<and> f x = Inr y)"
  by (cases m) auto

lemma go_bind_fault: "go_bind m f = Inl e \<longleftrightarrow> m = Inl e \<or> (\<exists>x. m = Inr x \<and> f x = Inl e)"
  by (cases m) auto

lemma go_bind_assoc: "go_bind (go_bind m f) g = go_bind m (\<lambda>x. go_bind (f x) g)"
  by (cases m) auto

lemma go_bind_split: "P (go_bind m f) \<longleftrightarrow> (\<forall>e. m = Inl e \<longrightarrow> P (Inl e)) \<and> (\<forall>x. m = Inr x \<longrightarrow> P (f x))"
  by (cases m) auto

lemma go_bind_cong [fundef_cong]:
  "m = m' \<Longrightarrow> (\<And>x. m' = Inr x \<Longrightarrow> f x = f' x) \<Longrightarrow> go_bind m f = go_bind m' f'"
  by (cases m') auto

text \<open>\<open>ok m\<close>: the computation returns normally.\<close>

definition ok :: "'a go \<Rightarrow> bool" where
  "ok m = (case m of Inl _ \<Rightarrow> False | Inr _ \<Rightarrow> True)"

lemma ok_simps [simp]: "ok (Inr x)" "\<not> ok (Inl e)"
  by (simp_all add: ok_def)

lemma ok_conv: "ok m \<longleftrightarrow> (\<exists>x. m = Inr x)"
  by (cases m) auto

lemma ok_bindI [intro]: "ok m \<Longrightarrow> (\<And>x. m = Inr x \<Longrightarrow> ok (f x)) \<Longrightarrow> ok (go_bind m f)"
  by (cases m) auto

lemma ok_bind_iff: "ok (go_bind m f) \<longleftrightarrow> (\<exists>x. m = Inr x \<and> ok (f x))"
  by (cases m) auto

text \<open>A for loop over a slice whose body may fault, threading a state.\<close>

fun go_fold :: "('s \<Rightarrow> 'a \<Rightarrow> 's go) \<Rightarrow> 's \<Rightarrow> 'a list \<Rightarrow> 's go" where
  "go_fold f s [] = Inr s"
| "go_fold f s (x # xs) = go_bind (f s x) (\<lambda>s'. go_fold f s' xs)"

lemma go_fold_append: "go_fold f s (xs @ ys) = go_bind (go_fold f s xs) (\<lambda>s'. go_fold f s' ys)"
  by (induction xs arbitrary: s) (auto simp: go_bind_assoc)

lemma go_fold_cong [fundef_cong]:
  "s = s' \<Longrightarrow> xs = xs' \<Longrightarrow> (\<And>t x. x \<in> set xs' \<Longrightarrow> f t x = f' t x) \<Longrightarrow> go_fold f s xs = go_fold f' s' xs'"
proof (induction xs' arbitrary: s s' xs)
  case (Cons y ys)
  have hd: "f s' y = f' s' y" by (rule Cons.prems(3)) simp
  have tl: "go_fold f t ys = go_fold f' t ys" for t
    by (rule Cons.IH [OF refl refl]) (rule Cons.prems(3), simp)
  show ?case unfolding Cons.prems(1,2) go_fold.simps hd tl ..
qed simp

lemma go_fold_ok:
  "P s \<Longrightarrow> (\<And>t x. P t \<Longrightarrow> x \<in> set xs \<Longrightarrow> \<exists>t'. f t x = Inr t' \<and> P t') \<Longrightarrow>
   \<exists>s'. go_fold f s xs = Inr s' \<and> P s'"
proof (induction xs arbitrary: s)
  case (Cons x xs)
  have "\<exists>t'. f s x = Inr t' \<and> P t'" by (rule Cons.prems(2) [OF Cons.prems(1)]) simp
  then obtain t' where t': "f s x = Inr t'" "P t'" by blast
  have "\<exists>s'. go_fold f t' xs = Inr s' \<and> P s'"
    by (rule Cons.IH [OF t'(2)]) (rule Cons.prems(2), auto)
  with t'(1) show ?case by simp
qed simp

lemma go_fold_invariant:
  "go_fold f s xs = Inr s' \<Longrightarrow> P s \<Longrightarrow> (\<And>t x t'. P t \<Longrightarrow> x \<in> set xs \<Longrightarrow> f t x = Inr t' \<Longrightarrow> P t') \<Longrightarrow> P s'"
proof (induction xs arbitrary: s)
  case (Cons x xs)
  from Cons.prems(1) obtain t where t: "f s x = Inr t" "go_fold f t xs = Inr s'"
    by (auto simp: go_bind_ok)
  have "P t" by (rule Cons.prems(3) [OF Cons.prems(2) _ t(1)]) simp
  then show ?case by (rule Cons.IH [OF t(2)]) (auto intro: Cons.prems(3))
qed simp

section \<open>Slices\<close>

text \<open>\<open>xs[i]\<close> of Go: a run-time panic when \<open>i\<close> is negative or not below \<open>len(xs)\<close>.\<close>

definition idx :: "'a list \<Rightarrow> int \<Rightarrow> 'a go" where
  "idx xs i = (if 0 \<le> i \<and> i < int (length xs) then Inr (xs ! nat i) else Inl PanicIndex)"

lemma idx_ok [ok_iff]: "idx xs i = Inr x \<longleftrightarrow> 0 \<le> i \<and> i < int (length xs) \<and> x = xs ! nat i"
  by (auto simp: idx_def)

lemma ok_idx [simp]: "ok (idx xs i) \<longleftrightarrow> 0 \<le> i \<and> i < int (length xs)"
  by (simp add: idx_def)

lemma idx_of_nat [simp]: "i < length xs \<Longrightarrow> idx xs (int i) = Inr (xs ! i)"
  by (simp add: idx_def)

lemma idx_fault: "idx xs i = Inl e \<longleftrightarrow> e = PanicIndex \<and> (i < 0 \<or> int (length xs) \<le> i)"
  by (auto simp: idx_def)

lemma idx_in_set: "idx xs i = Inr x \<Longrightarrow> x \<in> set xs"
  by (auto simp: idx_def split: if_splits)

text \<open>\<open>valid_ix xs i\<close>: index \<open>i\<close> may be read from \<open>xs\<close>.\<close>

definition valid_ix :: "'a list \<Rightarrow> int \<Rightarrow> bool" where
  "valid_ix xs i \<longleftrightarrow> 0 \<le> i \<and> i < int (length xs)"

lemma idx_valid: "valid_ix xs i \<Longrightarrow> idx xs i = Inr (xs ! nat i)"
  by (simp add: valid_ix_def idx_def)

text \<open>\<open>xs[i:]\<close> and \<open>xs[i:j]\<close> of Go.\<close>

definition slice_from :: "'a list \<Rightarrow> int \<Rightarrow> 'a list go" where
  "slice_from xs i = (if 0 \<le> i \<and> i \<le> int (length xs) then Inr (drop (nat i) xs) else Inl PanicSlice)"

definition slice :: "'a list \<Rightarrow> int \<Rightarrow> int \<Rightarrow> 'a list go" where
  "slice xs i j = (if 0 \<le> i \<and> i \<le> j \<and> j \<le> int (length xs)
     then Inr (take (nat j - nat i) (drop (nat i) xs)) else Inl PanicSlice)"

lemma slice_from_ok [ok_iff]:
  "slice_from xs i = Inr ys \<longleftrightarrow> 0 \<le> i \<and> i \<le> int (length xs) \<and> ys = drop (nat i) xs"
  by (auto simp: slice_from_def)

lemma slice_ok [ok_iff]:
  "slice xs i j = Inr ys \<longleftrightarrow>
     0 \<le> i \<and> i \<le> j \<and> j \<le> int (length xs) \<and> ys = take (nat j - nat i) (drop (nat i) xs)"
  by (auto simp: slice_def)

section \<open>Strings\<close>

text \<open>
  A Go string is its bytes; source literals are ASCII. \<open>str_contains\<close>, \<open>str_index\<close>, \<open>str_fields\<close>
  and \<open>str_after\<close> are strings.Contains, strings.Index, strings.Fields (ASCII white space) and
  the second component of strings.Split, which the code takes by index 1.
\<close>

fun str_prefix :: "string \<Rightarrow> string \<Rightarrow> bool" where
  "str_prefix [] s = True"
| "str_prefix (c # cs) [] = False"
| "str_prefix (c # cs) (d # ds) = (c = d \<and> str_prefix cs ds)"

lemma str_prefix_iff: "str_prefix p s \<longleftrightarrow> (\<exists>t. s = p @ t)"
  by (induction p s rule: str_prefix.induct) auto

lemma str_prefix_append [simp]: "str_prefix p (p @ t)"
  by (auto simp: str_prefix_iff)

fun str_index :: "string \<Rightarrow> string \<Rightarrow> nat option" where
  "str_index [] p = (if p = [] then Some 0 else None)"
| "str_index (c # s) p = (if str_prefix p (c # s) then Some 0 else map_option Suc (str_index s p))"

definition str_contains :: "string \<Rightarrow> string \<Rightarrow> bool" where
  "str_contains s p \<longleftrightarrow> str_index s p \<noteq> None"

lemma str_index_Some: "str_index s p = Some n \<Longrightarrow> \<exists>a b. s = a @ p @ b \<and> length a = n"
proof (induction s arbitrary: n)
  case (Cons c s)
  show ?case
  proof (cases "str_prefix p (c # s)")
    case True
    then show ?thesis using Cons.prems by (auto simp: str_prefix_iff)
  next
    case False
    then obtain m where m: "str_index s p = Some m" "n = Suc m" using Cons.prems by auto
    then obtain a b where "s = a @ p @ b" "length a = m" using Cons.IH by blast
    then have "c # s = (c # a) @ p @ b \<and> length (c # a) = n" using m by simp
    then show ?thesis by blast
  qed
qed (auto split: if_splits)

lemma str_index_infix: "str_index (a @ p @ b) p \<noteq> None"
proof (induction a)
  case Nil
  show ?case by (cases "p @ b") (auto simp: str_prefix_iff, metis append_self_conv2 str_index.simps(2) option.distinct(1) str_prefix_append)
qed auto

lemma str_contains_iff: "str_contains s p \<longleftrightarrow> (\<exists>a b. s = a @ p @ b)"
proof
  assume "str_contains s p"
  then obtain n where "str_index s p = Some n" by (auto simp: str_contains_def)
  then show "\<exists>a b. s = a @ p @ b" using str_index_Some by blast
next
  assume "\<exists>a b. s = a @ p @ b"
  then show "str_contains s p" using str_index_infix by (auto simp only: str_contains_def)
qed

definition is_space :: "char \<Rightarrow> bool" where
  "is_space c \<longleftrightarrow> c = CHR '' '' \<or> c = CHR 0x09 \<or> c = CHR 0x0A \<or> c = CHR 0x0B \<or> c = CHR 0x0C \<or> c = CHR 0x0D"

fun fields_acc :: "string \<Rightarrow> string \<Rightarrow> string list" where
  "fields_acc w [] = (if w = [] then [] else [rev w])"
| "fields_acc w (c # s) =
     (if is_space c then (if w = [] then fields_acc [] s else rev w # fields_acc [] s)
      else fields_acc (c # w) s)"

definition str_fields :: "string \<Rightarrow> string list" where
  "str_fields s = fields_acc [] s"

lemma fields_acc_word:
  "(\<forall>c \<in> set v. \<not> is_space c) \<Longrightarrow> fields_acc w (v @ s) = fields_acc (rev v @ w) s"
  by (induction v arbitrary: w) auto

text \<open>The parts of \<open>s\<close> between the (non-overlapping) occurrences of \<open>sep\<close>: strings.Split.\<close>

function str_split :: "string \<Rightarrow> string \<Rightarrow> string list" where
  "str_split s sep = (case str_index s sep of
      None \<Rightarrow> [s]
    | Some n \<Rightarrow> if sep = [] then [s] else take n s # str_split (drop (n + length sep) s) sep)"
  by pat_completeness auto
termination
proof (relation "measure (\<lambda>(s, sep). length s)", goal_cases)
  case (2 s sep n)
  then obtain a b where "s = a @ sep @ b" "length a = n" using str_index_Some by blast
  then show ?case using 2 by (cases sep) auto
qed simp

declare str_split.simps [simp del]

lemma str_split_at_least: "str_split s sep \<noteq> []"
  by (subst str_split.simps) (auto split: option.splits)

lemma str_split_single: "str_index s sep = None \<Longrightarrow> str_split s sep = [s]"
  by (subst str_split.simps) simp

lemma str_split_many: "str_index s sep = Some n \<Longrightarrow> sep \<noteq> [] \<Longrightarrow> length (str_split s sep) > 1"
  by (subst str_split.simps) (simp add: str_split_at_least)

section \<open>Bytes\<close>

type_synonym byte = "8 word"

text \<open>binary.LittleEndian.Uint64 and Uint16, on the bytes they read.\<close>

fun le_nat :: "byte list \<Rightarrow> nat" where
  "le_nat [] = 0"
| "le_nat (b # bs) = unat b + 256 * le_nat bs"

fun nat_le :: "nat \<Rightarrow> nat \<Rightarrow> byte list" where
  "nat_le 0 n = []"
| "nat_le (Suc k) n = of_nat (n mod 256) # nat_le k (n div 256)"

lemma length_nat_le [simp]: "length (nat_le k n) = k"
  by (induction k arbitrary: n) auto

lemma unat_byte_of_nat [simp]: "unat (of_nat (n mod 256) :: byte) = n mod 256"
  by (simp add: unat_of_nat)

lemma le_nat_nat_le: "n < 256 ^ k \<Longrightarrow> le_nat (nat_le k n) = n"
proof (induction k arbitrary: n)
  case (Suc k)
  then have "n div 256 < 256 ^ k" by (simp add: less_mult_imp_div_less mult.commute)
  with Suc.IH have "le_nat (nat_le k (n div 256)) = n div 256" by blast
  then show ?case by simp
qed simp

lemma unat_lt2p_byte: "unat (b :: byte) < 256"
  using unsigned_less [of b] by simp

lemma le_nat_bound: "le_nat bs < 256 ^ length bs"
proof (induction bs)
  case (Cons b bs)
  have "unat b < 256" using unat_lt2p_byte [of b] by simp
  then show ?case using Cons by simp
qed simp

section \<open>Lists and maps\<close>

text \<open>A Go map read with a missing key gives the zero value of its element type.\<close>

definition map_get :: "'v \<Rightarrow> ('k \<rightharpoonup> 'v) \<Rightarrow> 'k \<Rightarrow> 'v" where
  "map_get z m k = (case m k of None \<Rightarrow> z | Some v \<Rightarrow> v)"

lemma map_get_simps [simp]:
  "map_get z Map.empty k = z"
  "map_get z (m(k \<mapsto> v)) k' = (if k' = k then v else map_get z m k')"
  by (simp_all add: map_get_def)

lemma filter_subseq_length: "length (filter P xs) \<le> length xs"
  by simp

lemma sum_list_filter_split:
  "(\<Sum>x\<leftarrow>xs. f x) = (\<Sum>x\<leftarrow>filter P xs. f x) + (\<Sum>x\<leftarrow>filter (\<lambda>x. \<not> P x) xs. f (x :: 'a)) "
  for f :: "'a \<Rightarrow> 'b :: comm_monoid_add"
  by (induction xs) (auto simp: algebra_simps)

end
