(* ===== verification/GoNumber.thy ===== *)
theory GoNumber
  imports Prelude
begin

text \<open>
  The numbers of the program. Token amounts are computed with big.Float, travel as decimal
  strings and end as float64, so the rounding of each step is part of the behaviour. A finite
  value is an exact rational; every operation computes the exact result and rounds it once, to
  nearest even, as package math/big and IEEE 754 prescribe.

  \<^item> \<open>rnd p\<close> rounds to a mantissa of \<open>p\<close> bits with unbounded exponent: big.Float of precision \<open>p\<close>.
    The precision is static in every use of the source: 64 for SetUint64, SetInt64 and SetString,
    53 for SetFloat64 and NewFloat, the larger of the operands' for a result of a fresh Float.
  \<^item> \<open>f64\<close> rounds to float64, with subnormal numbers and overflow to infinity.
  \<^item> \<open>bf_text_f\<close> is Text('f', -1), the shortest decimal that identifies the value,
    \<open>bf_text_g10\<close> is String, that is Text('g', 10), and \<open>bf_set_string\<close> is SetString on decimal
    input. The sign of a zero is not kept (no amount of the program is a negative zero), and the
    base prefixes and digit separators SetString also accepts are not part of the model.
\<close>

section \<open>Digits and logarithms in a base\<close>

function nlen :: "int \<Rightarrow> int \<Rightarrow> int" where
  "nlen b n = (if n \<le> 0 \<or> b \<le> 1 then 0 else 1 + nlen b (n div b))"
  by pat_completeness auto
termination
  by (relation "measure (\<lambda>(b, n). nat n)") (auto simp: int_div_less_self)

declare nlen.simps [simp del]

lemma nlen_nonneg: "0 \<le> nlen b n"
proof (induction b n rule: nlen.induct)
  case (1 b n)
  then show ?case by (subst nlen.simps) auto
qed

lemma nlen_bounds:
  "0 < n \<Longrightarrow> 1 < b \<Longrightarrow> b ^ nat (nlen b n - 1) \<le> n \<and> n < b ^ nat (nlen b n) \<and> 1 \<le> nlen b n"
proof (induction b n rule: nlen.induct)
  case (1 b n)
  show ?case
  proof (cases "n < b")
    case True
    then have "nlen b n = 1" using "1.prems" by (simp add: nlen.simps [of b n] nlen.simps [of b 0])
    then show ?thesis using True "1.prems" by simp
  next
    case False
    let ?k = "nlen b (n div b)"
    have pos: "0 < n div b" using False "1.prems" by (simp add: pos_imp_zdiv_pos_iff)
    have ih: "b ^ nat (?k - 1) \<le> n div b" "n div b < b ^ nat ?k" "1 \<le> ?k"
      using "1.IH" "1.prems" pos by auto
    have k: "nlen b n = 1 + ?k" using "1.prems" by (simp add: nlen.simps [of b n])
    have s: "nat (nlen b n - 1) = nat ?k" "nat (nlen b n) = Suc (nat ?k)" "nat ?k = Suc (nat (?k - 1))"
      using k ih(3) by auto
    have "b ^ nat ?k = b * b ^ nat (?k - 1)" using s(3) by simp
    also have "\<dots> \<le> b * (n div b)" using ih(1) "1.prems" by simp
    also have "\<dots> \<le> n" using "1.prems" by (metis mult.commute div_mult_mod_eq pos_mod_sign le_add_same_cancel1 less_trans zero_less_one)
    finally have lo: "b ^ nat (nlen b n - 1) \<le> n" using s by simp
    have "n < b * (n div b + 1)" using "1.prems"
      by (metis mult.commute distrib_left mult.right_neutral mult_div_mod_eq add_strict_left_mono pos_mod_bound less_trans zero_less_one)
    also have "\<dots> \<le> b * b ^ nat ?k" using ih(2) "1.prems" by simp
    finally have "n < b ^ nat (nlen b n)" using s by simp
    with lo ih(3) k show ?thesis by simp
  qed
qed

text \<open>\<open>ilog b x\<close>: the exponent of the leading digit of \<open>x > 0\<close> in base \<open>b\<close>.\<close>

definition ilog :: "int \<Rightarrow> rat \<Rightarrow> int" where
  "ilog b x = (let (n, d) = quotient_of x; k = nlen b n - nlen b d in
     if of_int b powi k \<le> x then k else k - 1)"

lemma powi_split: "(b :: rat) > 0 \<Longrightarrow> b powi (i - j) = b powi i / b powi j"
  by (simp add: power_int_diff)

lemma ilog_bounds:
  assumes "0 < x" "1 < b"
  shows "of_int b powi ilog b x \<le> x \<and> x < of_int b powi (ilog b x + 1)"
proof -
  obtain n d where q: "quotient_of x = (n, d)" by fastforce
  have d: "0 < d" using q by (rule quotient_of_denom_pos)
  have x: "x = of_int n / of_int d" using q by (rule quotient_of_div)
  have n: "0 < n" using assms(1) d by (simp add: x zero_less_divide_iff)
  let ?B = "of_int b :: rat"
  have B: "1 < ?B" using assms(2) by simp
  let ?i = "nlen b n" and ?j = "nlen b d"
  have nb: "b ^ nat (?i - 1) \<le> n" "n < b ^ nat ?i" "1 \<le> ?i"
    and db: "b ^ nat (?j - 1) \<le> d" "d < b ^ nat ?j" "1 \<le> ?j"
    using nlen_bounds [OF n assms(2)] nlen_bounds [OF d assms(2)] by auto
  have pw: "0 \<le> k \<Longrightarrow> ?B powi k = of_int (b ^ nat k)" for k by (simp add: power_int_def)
  have N: "?B powi (?i - 1) \<le> of_int n" "of_int n < ?B powi ?i"
    using nb pw [of "?i - 1"] pw [of ?i] by (simp_all only: of_int_le_iff of_int_less_iff)
  have D: "?B powi (?j - 1) \<le> of_int d" "of_int d < ?B powi ?j"
    using db pw [of "?j - 1"] pw [of ?j] by (simp_all only: of_int_le_iff of_int_less_iff)
  have P: "0 < ?B powi k" for k using B by simp
  let ?k = "?i - ?j"
  have "x < ?B powi ?i / ?B powi (?j - 1)"
    unfolding x using N D P n d by (intro frac_less) (auto simp: less_imp_le)
  also have "\<dots> = ?B powi (?k + 1)" using B by (simp flip: powi_split) (simp add: algebra_simps)
  finally have hi: "x < ?B powi (?k + 1)" .
  have "?B powi (?k - 1) = ?B powi (?i - 1) / ?B powi ?j"
    using B by (simp flip: powi_split) (simp add: algebra_simps)
  also have "\<dots> \<le> x" unfolding x using N D P n d by (intro frac_le) (auto simp: less_imp_le)
  finally have lo: "?B powi (?k - 1) \<le> x" .
  show ?thesis using hi lo by (auto simp: ilog_def q Let_def)
qed

lemma ilog_unique:
  assumes "1 < b" "of_int b powi k \<le> x" "x < of_int b powi (k + 1)"
  shows "ilog b x = k"
proof -
  let ?B = "of_int b :: rat"
  have B: "1 < ?B" using assms(1) by simp
  have "0 < ?B powi k" using B by simp
  then have x: "0 < x" using assms(2) by linarith
  note l = ilog_bounds [OF x assms(1)]
  have "ilog b x < k + 1"
  proof (rule ccontr)
    assume "\<not> ilog b x < k + 1"
    then have "?B powi (k + 1) \<le> ?B powi ilog b x" using B by (intro power_int_increasing) auto
    with l assms(3) show False by linarith
  qed
  moreover have "k < ilog b x + 1"
  proof (rule ccontr)
    assume "\<not> k < ilog b x + 1"
    then have "?B powi (ilog b x + 1) \<le> ?B powi k" using B by (intro power_int_increasing) auto
    with l assms(2) show False by linarith
  qed
  ultimately show ?thesis by simp
qed

lemma ilog_mono:
  assumes "0 < x" "x \<le> y" "1 < b"
  shows "ilog b x \<le> ilog b y"
proof (rule ccontr)
  assume "\<not> ?thesis"
  then have "of_int b powi (ilog b y + 1) \<le> (of_int b powi ilog b x :: rat)"
    using assms(3) by (intro power_int_increasing) auto
  with ilog_bounds [of x b] ilog_bounds [of y b] assms show False by linarith
qed

section \<open>Rounding\<close>

text \<open>Round half to even, to an integer.\<close>

definition rhe :: "rat \<Rightarrow> int" where
  "rhe y = (let f = \<lfloor>y\<rfloor>; r = y - of_int f in
     if r < 1 / 2 then f else if 1 / 2 < r then f + 1 else if even f then f else f + 1)"

lemma rhe_of_int [simp]: "rhe (of_int m) = m"
  by (simp add: rhe_def)

lemma rhe_bounds: "\<lfloor>y\<rfloor> \<le> rhe y \<and> rhe y \<le> \<lfloor>y\<rfloor> + 1"
  by (auto simp: rhe_def Let_def)

lemma rhe_error: "\<bar>of_int (rhe y) - y\<bar> \<le> 1 / 2"
proof -
  have "of_int \<lfloor>y\<rfloor> \<le> y" "y < of_int \<lfloor>y\<rfloor> + 1" by linarith+
  then show ?thesis by (auto simp: rhe_def Let_def abs_le_iff)
qed

lemma rhe_ge: "of_int n \<le> y \<Longrightarrow> n \<le> rhe y"
  using rhe_bounds [of y] le_floor_iff [of n y] by linarith

lemma rhe_le: "y \<le> of_int n \<Longrightarrow> rhe y \<le> n"
proof -
  assume y: "y \<le> of_int n"
  have "\<lfloor>y\<rfloor> \<le> n" using floor_mono [OF y] by simp
  show ?thesis
  proof (cases "\<lfloor>y\<rfloor> = n")
    case True
    then have "y = of_int n" using y of_int_floor_le [of y] by simp
    then show ?thesis by simp
  next
    case False
    then show ?thesis using \<open>\<lfloor>y\<rfloor> \<le> n\<close> rhe_bounds [of y] by linarith
  qed
qed

lemma rhe_mono: assumes "x \<le> y" shows "rhe x \<le> rhe y"
proof (cases "\<lfloor>x\<rfloor> = \<lfloor>y\<rfloor>")
  case True
  with assms show ?thesis by (auto simp: rhe_def Let_def)
next
  case False
  then have "\<lfloor>x\<rfloor> + 1 \<le> \<lfloor>y\<rfloor>" using floor_mono [OF assms] by simp
  then show ?thesis using rhe_bounds [of x] rhe_bounds [of y] by linarith
qed

lemma rhe_minus: "rhe (- y) = - rhe y"
proof (cases "y \<in> \<int>")
  case True
  then obtain m where "y = of_int m" by (elim Ints_cases)
  then show ?thesis using rhe_of_int [of "- m"] by simp
next
  case False
  have f: "\<lfloor>- y\<rfloor> = - \<lfloor>y\<rfloor> - 1"
  proof -
    have "of_int \<lfloor>y\<rfloor> \<noteq> y" using False Ints_of_int [of "\<lfloor>y\<rfloor>"] by metis
    then have "of_int \<lfloor>y\<rfloor> < y" using of_int_floor_le [of y] by linarith
    moreover have "y < of_int \<lfloor>y\<rfloor> + 1" by linarith
    ultimately show ?thesis by (intro floor_unique) auto
  qed
  show ?thesis by (auto simp: rhe_def Let_def f)
qed

text \<open>Round to \<open>p\<close> significant bits.\<close>

definition ulp_exp :: "nat \<Rightarrow> rat \<Rightarrow> int" where
  "ulp_exp p x = ilog 2 \<bar>x\<bar> - (int p - 1)"

definition rnd :: "nat \<Rightarrow> rat \<Rightarrow> rat" where
  "rnd p x = (if x = 0 then 0 else
     let e = ulp_exp p x in of_int (rhe (x / 2 powi e)) * 2 powi e)"

definition representable :: "nat \<Rightarrow> rat \<Rightarrow> bool" where
  "representable p x \<longleftrightarrow> (\<exists>m e. x = of_int m * 2 powi e \<and> \<bar>m\<bar> \<le> 2 ^ p)"

lemma rnd_0 [simp]: "rnd p 0 = 0"
  by (simp add: rnd_def)

lemma rnd_minus: "rnd p (- x) = - rnd p x"
  by (simp add: rnd_def ulp_exp_def Let_def rhe_minus)

lemma two_powi_pos [simp]: "0 < (2 :: rat) powi e"
  by simp

lemma ulp_scale:
  assumes "x \<noteq> 0" "1 \<le> p"
  shows "2 ^ (p - 1) \<le> \<bar>x\<bar> / 2 powi ulp_exp p x \<and> \<bar>x\<bar> / 2 powi ulp_exp p x < 2 ^ p"
proof -
  let ?l = "ilog 2 \<bar>x\<bar>" and ?e = "ulp_exp p x"
  have l: "2 powi ?l \<le> \<bar>x\<bar>" "\<bar>x\<bar> < 2 powi (?l + 1)"
    using ilog_bounds [of "\<bar>x\<bar>" 2] assms by auto
  have "(2 :: rat) ^ (p - 1) * 2 powi ?e = 2 powi (int (p - 1) + ?e)"
    by (simp add: power_int_add)
  also have "int (p - 1) + ?e = ?l" using assms by (simp add: ulp_exp_def)
  finally have 1: "(2 :: rat) ^ (p - 1) * 2 powi ?e = 2 powi ?l" .
  have "(2 :: rat) ^ p * 2 powi ?e = 2 powi (int p + ?e)" by (simp add: power_int_add)
  also have "int p + ?e = ?l + 1" by (simp add: ulp_exp_def)
  finally have 2: "(2 :: rat) ^ p * 2 powi ?e = 2 powi (?l + 1)" .
  show ?thesis using l 1 2 by (simp add: pos_le_divide_eq pos_divide_less_eq)
qed

lemma rnd_representable: "1 \<le> p \<Longrightarrow> representable p (rnd p x)"
proof (cases "x = 0")
  case True
  then show ?thesis by (auto simp: representable_def intro: exI [of _ 0])
next
  case False
  assume p: "1 \<le> p"
  let ?y = "x / 2 powi ulp_exp p x"
  have "\<bar>?y\<bar> < 2 ^ p" using ulp_scale [OF False p] by (simp add: abs_divide)
  then have "?y \<le> of_int (2 ^ p)" "of_int (- (2 ^ p)) \<le> ?y"
    unfolding abs_less_iff of_int_minus of_int_power of_int_numeral by linarith+
  then have "\<bar>rhe ?y\<bar> \<le> 2 ^ p" using rhe_le [of ?y "2 ^ p"] rhe_ge [of "- (2 ^ p)" ?y] by linarith
  then show ?thesis using False unfolding representable_def rnd_def Let_def by auto
qed

lemma rnd_exact:
  assumes "representable p x" "1 \<le> p"
  shows "rnd p x = x"
proof (cases "x = 0")
  case False
  from assms obtain m e where me: "x = of_int m * 2 powi e" "\<bar>m\<bar> \<le> 2 ^ p"
    by (auto simp: representable_def)
  let ?E = "ulp_exp p x"
  have "\<exists>n. x / 2 powi ?E = of_int n"
  proof (cases "?E \<le> e")
    case True
    then have "(of_int (2 ^ nat (e - ?E)) :: rat) = 2 powi (e - ?E)" by (simp add: power_int_def)
    then have "x / 2 powi ?E = of_int (m * 2 ^ nat (e - ?E))"
      by (simp add: me(1) power_int_diff)
    then show ?thesis by blast
  next
    case E: False
    have m: "\<bar>x\<bar> = of_int \<bar>m\<bar> * 2 powi e" by (simp add: me(1) abs_mult)
    have "2 ^ (p - 1) * 2 powi ?E \<le> \<bar>x\<bar>"
      using ulp_scale [OF False assms(2)] by (simp add: pos_le_divide_eq)
    moreover have "(2 :: rat) powi (e + 1) \<le> 2 powi ?E" using E by (intro power_int_increasing) auto
    ultimately have "2 ^ (p - 1) * (2 powi (e + 1)) \<le> \<bar>x\<bar>"
      by (meson mult_left_mono order_trans zero_le_power zero_le_numeral)
    moreover have "(2 :: rat) ^ (p - 1) * 2 powi (e + 1) = 2 ^ p * 2 powi e"
      using assms(2) by (cases p) (simp_all add: power_int_add)
    ultimately have "2 ^ p \<le> (of_int \<bar>m\<bar> :: rat)" unfolding m by simp
    then have "of_int (2 ^ p) \<le> (of_int \<bar>m\<bar> :: rat)" by simp
    then have "\<bar>m\<bar> = 2 ^ p" using me(2) unfolding of_int_le_iff by linarith
    then have ax: "\<bar>x\<bar> = 2 powi (int p + e)" by (simp add: m power_int_add)
    have "ilog 2 \<bar>x\<bar> = int p + e" unfolding ax by (rule ilog_unique) (simp_all add: power_int_add)
    then have "?E = e + 1" by (simp add: ulp_exp_def)
    moreover have "\<bar>x\<bar> = of_int (2 ^ (p - 1)) * 2 powi (e + 1)"
      using assms(2) by (cases p) (simp_all add: ax power_int_add)
    ultimately have "\<bar>x\<bar> / 2 powi ?E = of_int (2 ^ (p - 1))" by simp
    moreover have "x = \<bar>x\<bar> \<or> x = - \<bar>x\<bar>" by linarith
    ultimately have "x / 2 powi ?E = of_int (2 ^ (p - 1)) \<or> x / 2 powi ?E = of_int (- (2 ^ (p - 1)))"
      by (metis minus_divide_left of_int_minus)
    then show ?thesis by blast
  qed
  then obtain n where n: "x / 2 powi ?E = of_int n" by blast
  then have "rnd p x = of_int n * 2 powi ?E" using False by (simp add: rnd_def Let_def)
  also have "\<dots> = x" by (simp flip: n)
  finally show ?thesis .
qed simp

lemma rnd_idem: "1 \<le> p \<Longrightarrow> rnd p (rnd p x) = rnd p x"
  by (intro rnd_exact rnd_representable)

lemma rnd_bounds:
  assumes "0 < x" "1 \<le> p"
  shows "2 powi ilog 2 x \<le> rnd p x \<and> rnd p x \<le> 2 powi (ilog 2 x + 1)"
proof -
  let ?e = "ulp_exp p x" and ?y = "x / 2 powi ulp_exp p x"
  have y: "2 ^ (p - 1) \<le> ?y" "?y < 2 ^ p" using ulp_scale [of x p] assms by auto
  have r: "2 ^ (p - 1) \<le> rhe ?y" "rhe ?y \<le> 2 ^ p"
    using rhe_ge [of "2 ^ (p - 1)" ?y] rhe_le [of ?y "2 ^ p"] y by auto
  have d: "rnd p x = of_int (rhe ?y) * 2 powi ?e" using assms by (simp add: rnd_def Let_def)
  have "(of_int (2 ^ (p - 1)) :: rat) * 2 powi ?e \<le> rnd p x"
    unfolding d using r by (intro mult_right_mono) (simp_all only: of_int_le_iff, simp)
  moreover have "rnd p x \<le> (of_int (2 ^ p) :: rat) * 2 powi ?e"
    unfolding d using r by (intro mult_right_mono) (simp_all only: of_int_le_iff, simp)
  moreover have "(of_int (2 ^ (p - 1)) :: rat) * 2 powi ?e = 2 powi (int (p - 1) + ?e)"
    and "(of_int (2 ^ p) :: rat) * 2 powi ?e = 2 powi (int p + ?e)"
    by (simp_all add: power_int_add)
  moreover have "int (p - 1) + ?e = ilog 2 x" "int p + ?e = ilog 2 x + 1"
    using assms by (simp_all add: ulp_exp_def)
  ultimately show ?thesis by (simp only:)
qed

lemma rnd_pos: "0 < x \<Longrightarrow> 1 \<le> p \<Longrightarrow> 0 < rnd p x"
  using rnd_bounds [of x p] two_powi_pos [of "ilog 2 x"] by linarith

lemma rnd_mono_pos:
  assumes "0 < x" "x \<le> y" "1 \<le> p"
  shows "rnd p x \<le> rnd p y"
proof (cases "ilog 2 x = ilog 2 y")
  case True
  then have e: "ulp_exp p x = ulp_exp p y" using assms by (simp add: ulp_exp_def)
  have "x / 2 powi ulp_exp p y \<le> y / 2 powi ulp_exp p y" using assms by (intro divide_right_mono) auto
  then have "rhe (x / 2 powi ulp_exp p y) \<le> rhe (y / 2 powi ulp_exp p y)" by (rule rhe_mono)
  then show ?thesis using assms by (auto simp: rnd_def Let_def e)
next
  case False
  then have "ilog 2 x + 1 \<le> ilog 2 y" using ilog_mono [of x y 2] assms by simp
  then have "(2 :: rat) powi (ilog 2 x + 1) \<le> 2 powi ilog 2 y" by (intro power_int_increasing) auto
  then show ?thesis using rnd_bounds [of x p] rnd_bounds [of y p] assms by linarith
qed

lemma rnd_sgn: "1 \<le> p \<Longrightarrow> (0 < rnd p x \<longleftrightarrow> 0 < x) \<and> (rnd p x = 0 \<longleftrightarrow> x = 0) \<and> (rnd p x < 0 \<longleftrightarrow> x < 0)"
  using rnd_pos [of x p] rnd_pos [of "- x" p] rnd_minus [of p x] by (cases x "0 :: rat" rule: linorder_cases) auto

lemma rnd_mono:
  assumes "x \<le> y" "1 \<le> p"
  shows "rnd p x \<le> rnd p y"
proof (cases "0 < x")
  case True
  then show ?thesis using assms rnd_mono_pos by blast
next
  case x: False
  show ?thesis
  proof (cases "y < 0")
    case True
    then have "rnd p (- y) \<le> rnd p (- x)" using assms by (intro rnd_mono_pos) auto
    then show ?thesis by (simp add: rnd_minus)
  next
    case False
    then have "rnd p x \<le> 0" "0 \<le> rnd p y"
      using x rnd_sgn [of p x] rnd_sgn [of p y] assms(2) by linarith+
    then show ?thesis by linarith
  qed
qed

lemma rnd_of_int: "\<bar>m\<bar> \<le> 2 ^ p \<Longrightarrow> 1 \<le> p \<Longrightarrow> rnd p (of_int m) = of_int m"
proof (rule rnd_exact)
  assume "\<bar>m\<bar> \<le> 2 ^ p"
  moreover have "of_int m = of_int m * (2 :: rat) powi 0" by simp
  ultimately show "representable p (of_int m)" unfolding representable_def by blast
qed

text \<open>The relative error of rounding to \<open>p\<close> bits is at most \<open>2 ^ - p\<close>.\<close>

lemma rnd_error:
  assumes "1 \<le> p"
  shows "\<bar>rnd p x - x\<bar> \<le> \<bar>x\<bar> / 2 ^ p"
proof (cases "x = 0")
  case False
  let ?e = "ulp_exp p x"
  have s: "2 ^ (p - 1) \<le> \<bar>x\<bar> / 2 powi ?e" using ulp_scale [OF False assms] by blast
  have "rnd p x - x = (of_int (rhe (x / 2 powi ?e)) - x / 2 powi ?e) * 2 powi ?e"
    using False by (simp add: rnd_def Let_def left_diff_distrib)
  then have "\<bar>rnd p x - x\<bar> = \<bar>of_int (rhe (x / 2 powi ?e)) - x / 2 powi ?e\<bar> * 2 powi ?e"
    by (simp add: abs_mult)
  also have "\<dots> \<le> (1 / 2) * 2 powi ?e" by (intro mult_right_mono rhe_error) simp
  also have "\<dots> \<le> (1 / 2) * (\<bar>x\<bar> / 2 ^ (p - 1))" using s by (simp add: field_simps)
  also have "\<dots> = \<bar>x\<bar> / 2 ^ p" using assms by (cases p) (simp_all add: field_simps)
  finally show ?thesis .
qed simp

section \<open>Values with infinities\<close>

text \<open>
  A float64 is any of the four forms; a big.Float is never NaN: the operations of math/big panic
  with ErrNaN instead.
\<close>

datatype gonum = Fin rat | PosInf | NegInf | NaN

fun gneg :: "gonum \<Rightarrow> gonum" where
  "gneg (Fin x) = Fin (- x)"
| "gneg PosInf = NegInf"
| "gneg NegInf = PosInf"
| "gneg NaN = NaN"

text \<open>The exact (not yet rounded) sum, product and quotient; \<open>None\<close> is NaN.\<close>

fun add_exact :: "gonum \<Rightarrow> gonum \<Rightarrow> gonum" where
  "add_exact (Fin x) (Fin y) = Fin (x + y)"
| "add_exact NaN _ = NaN"
| "add_exact _ NaN = NaN"
| "add_exact PosInf NegInf = NaN"
| "add_exact NegInf PosInf = NaN"
| "add_exact PosInf _ = PosInf"
| "add_exact _ PosInf = PosInf"
| "add_exact NegInf _ = NegInf"
| "add_exact _ NegInf = NegInf"

definition inf_of_sign :: "rat \<Rightarrow> gonum" where
  "inf_of_sign s = (if 0 < s then PosInf else if s < 0 then NegInf else NaN)"

definition gsgn :: "gonum \<Rightarrow> rat" where
  "gsgn a = (case a of Fin x \<Rightarrow> sgn x | PosInf \<Rightarrow> 1 | NegInf \<Rightarrow> - 1 | NaN \<Rightarrow> 0)"

definition mul_exact :: "gonum \<Rightarrow> gonum \<Rightarrow> gonum" where
  "mul_exact a b = (case (a, b) of
     (Fin x, Fin y) \<Rightarrow> Fin (x * y)
   | (NaN, _) \<Rightarrow> NaN
   | (_, NaN) \<Rightarrow> NaN
   | _ \<Rightarrow> inf_of_sign (gsgn a * gsgn b))"

definition quo_exact :: "gonum \<Rightarrow> gonum \<Rightarrow> gonum" where
  "quo_exact a b = (case (a, b) of
     (Fin x, Fin y) \<Rightarrow> (if y = 0 then (if x = 0 then NaN else inf_of_sign x) else Fin (x / y))
   | (Fin x, PosInf) \<Rightarrow> Fin 0
   | (Fin x, NegInf) \<Rightarrow> Fin 0
   | (PosInf, Fin y) \<Rightarrow> (if y < 0 then NegInf else PosInf)
   | (NegInf, Fin y) \<Rightarrow> (if y < 0 then PosInf else NegInf)
   | _ \<Rightarrow> NaN)"

section \<open>float64\<close>

definition f64_round :: "rat \<Rightarrow> gonum" where
  "f64_round x = (if x = 0 then Fin 0 else
     let e = max (ilog 2 \<bar>x\<bar> - 52) (- 1074);
         r = of_int (rhe (x / 2 powi e)) * 2 powi e
     in if \<bar>r\<bar> < 2 ^ 1024 then Fin r else if 0 < x then PosInf else NegInf)"

definition f64 :: "gonum \<Rightarrow> gonum" where
  "f64 a = (case a of Fin x \<Rightarrow> f64_round x | _ \<Rightarrow> a)"

definition f64_add :: "gonum \<Rightarrow> gonum \<Rightarrow> gonum" where
  "f64_add a b = f64 (add_exact a b)"

definition f64_sub :: "gonum \<Rightarrow> gonum \<Rightarrow> gonum" where
  "f64_sub a b = f64 (add_exact a (gneg b))"

definition f64_mul :: "gonum \<Rightarrow> gonum \<Rightarrow> gonum" where
  "f64_mul a b = f64 (mul_exact a b)"

definition f64_div :: "gonum \<Rightarrow> gonum \<Rightarrow> gonum" where
  "f64_div a b = f64 (quo_exact a b)"

text \<open>\<open>==\<close> and \<open><\<close> of float64: false when an operand is NaN.\<close>

definition f64_eq :: "gonum \<Rightarrow> gonum \<Rightarrow> bool" where
  "f64_eq a b \<longleftrightarrow> a \<noteq> NaN \<and> a = b"

fun f64_less :: "gonum \<Rightarrow> gonum \<Rightarrow> bool" where
  "f64_less (Fin x) (Fin y) = (x < y)"
| "f64_less NaN _ = False"
| "f64_less _ NaN = False"
| "f64_less PosInf _ = False"
| "f64_less _ PosInf = True"
| "f64_less _ NegInf = False"
| "f64_less NegInf _ = True"

text \<open>In the normal range float64 rounding is \<open>rnd 53\<close>.\<close>

lemma f64_round_rnd:
  assumes "x = 0 \<or> - 1022 \<le> ilog 2 \<bar>x\<bar>" "\<bar>rnd 53 x\<bar> < 2 ^ 1024"
  shows "f64_round x = Fin (rnd 53 x)"
proof (cases "x = 0")
  case False
  then have "max (ilog 2 \<bar>x\<bar> - 52) (- 1074) = ulp_exp 53 x" using assms(1) by (auto simp: ulp_exp_def)
  then show ?thesis using False assms(2) unfolding f64_round_def rnd_def Let_def by simp
qed (simp add: f64_round_def)

text \<open>math.Pow10.\<close>

definition pow10 :: "int \<Rightarrow> gonum" where
  "pow10 n =
     (if 0 \<le> n \<and> n \<le> 308 then
        f64_mul (f64_round (10 ^ (32 * nat (n div 32)))) (f64_round (10 ^ nat (n mod 32)))
      else if - 323 \<le> n \<and> n \<le> 0 then
        f64_div (f64_round (1 / 10 ^ (32 * nat (- n div 32)))) (f64_round (10 ^ nat (- n mod 32)))
      else if 0 < n then PosInf else Fin 0)"

section \<open>big.Float\<close>

text \<open>A result of an operation at precision \<open>p\<close>; a NaN panics.\<close>

definition bf :: "nat \<Rightarrow> gonum \<Rightarrow> gonum go" where
  "bf p a = (case a of Fin x \<Rightarrow> Inr (Fin (rnd p x)) | NaN \<Rightarrow> Inl PanicNaN | _ \<Rightarrow> Inr a)"

definition bf_add :: "nat \<Rightarrow> gonum \<Rightarrow> gonum \<Rightarrow> gonum go" where
  "bf_add p a b = bf p (add_exact a b)"

definition bf_sub :: "nat \<Rightarrow> gonum \<Rightarrow> gonum \<Rightarrow> gonum go" where
  "bf_sub p a b = bf p (add_exact a (gneg b))"

definition bf_mul :: "nat \<Rightarrow> gonum \<Rightarrow> gonum \<Rightarrow> gonum go" where
  "bf_mul p a b = bf p (mul_exact a b)"

definition bf_quo :: "nat \<Rightarrow> gonum \<Rightarrow> gonum \<Rightarrow> gonum go" where
  "bf_quo p a b = bf p (quo_exact a b)"

text \<open>SetFloat64 and NewFloat panic on NaN; SetUint64 and SetInt64 at precision 64 are exact.\<close>

definition bf_of_f64 :: "gonum \<Rightarrow> gonum go" where
  "bf_of_f64 a = (if a = NaN then Inl PanicNaN else Inr a)"

definition bf_of_int :: "int \<Rightarrow> gonum" where
  "bf_of_int n = Fin (of_int n)"

text \<open>Float64() of a big.Float, and the sign of Cmp on values that are not NaN.\<close>

definition bf_float64 :: "gonum \<Rightarrow> gonum" where
  "bf_float64 a = f64 a"

definition bf_less :: "gonum \<Rightarrow> gonum \<Rightarrow> bool" where
  "bf_less a b = f64_less a b"

lemma bf_Fin [simp]: "bf p (Fin x) = Inr (Fin (rnd p x))"
  by (simp add: bf_def)

lemma bf_ops_Fin [simp]:
  "bf_add p (Fin x) (Fin y) = Inr (Fin (rnd p (x + y)))"
  "bf_sub p (Fin x) (Fin y) = Inr (Fin (rnd p (x - y)))"
  "bf_mul p (Fin x) (Fin y) = Inr (Fin (rnd p (x * y)))"
  "y \<noteq> 0 \<Longrightarrow> bf_quo p (Fin x) (Fin y) = Inr (Fin (rnd p (x / y)))"
  by (simp_all add: bf_add_def bf_sub_def bf_mul_def bf_quo_def mul_exact_def quo_exact_def)

lemma bf_quo_zero:
  "bf_quo p (Fin 0) (Fin 0) = Inl PanicNaN"
  "0 < x \<Longrightarrow> bf_quo p (Fin x) (Fin 0) = Inr PosInf"
  by (simp_all add: bf_quo_def quo_exact_def bf_def inf_of_sign_def)

end
