(* ===== verification/SolTypes.thy ===== *)
theory SolTypes
  imports GoNumber
begin

text \<open>
  The data of the program (internal/types): transactions as the node reports them, the transfers,
  swaps and log entries the parser derives from them, tokens and pairs. A struct is a record whose
  fields carry a prefix of the struct's name, in the source's order; fields that no code under
  src/ reads are left out and named in the text before the record. Go's \<open>int\<close> and \<open>int64\<close> are
  \<open>int\<close>, \<open>uint64\<close> is \<open>64 word\<close>, \<open>uint8\<close> and \<open>byte\<close> are \<open>8 word\<close>, \<open>float64\<close> is \<open>gonum\<close>, and a
  pointer that may be nil is an \<open>option\<close>. A public key is its 32 bytes.
\<close>

type_synonym pubkey = "byte list"

definition zero_key :: pubkey where
  "zero_key = replicate 32 0"

section \<open>Transactions\<close>

text \<open>
  \<open>ta_UiAmountString\<close> and \<open>ta_Decimals\<close> are the fields of UITokenAmount that are read (its Amount
  and UiAmount are only copied from the node).
\<close>

record ui_token_amount =
  ta_Amount :: string
  ta_Decimals :: int
  ta_UiAmount :: gonum
  ta_UiAmountString :: string

record token_balance =
  tb_AccountIndex :: int
  tb_Mint :: string
  tb_Owner :: string
  tb_ProgramId :: string
  tb_UITokenAmount :: ui_token_amount

record instruction =
  ix_Accounts :: "int list"
  ix_Data :: string
  ix_ProgramIdIndex :: int

record inner_instruction =
  ii_Index :: int
  ii_Instructions :: "instruction list"

record loaded_addresses =
  la_Readonly :: "string list"
  la_Writable :: "string list"

text \<open>
  A JSON value: the type of the \<open>interface{}\<close> fields, and of the messages. A number is its text, an
  object the list of its members.
\<close>

datatype json = JNull | JBool bool | JNum string | JStr string | JArr "json list" | JObj "(string \<times> json) list"

text \<open>
  \<open>tm_LogMessages\<close> is \<open>None\<close> for the nil slice, which getAllAccountKeys distinguishes. Err holds the
  two elements of InstructionError, and is only passed on.
\<close>

record transaction_meta =
  tm_Err :: "(json \<times> json) option"
  tm_Fee :: int
  tm_InnerInstructions :: "inner_instruction list"
  tm_LogMessages :: "string list option"
  tm_PostBalances :: "64 word list"
  tm_PostTokenBalances :: "token_balance list"
  tm_PreBalances :: "64 word list"
  tm_PreTokenBalances :: "token_balance list"
  tm_LoadedAddresses :: loaded_addresses

record address_table_lookup =
  al_AccountKey :: string
  al_ReadonlyIndexes :: "int list"
  al_WritableIndexes :: "int list"

record message =
  ms_AccountKeys :: "string list"
  ms_AddressTableLookups :: "address_table_lookup list"
  ms_Instructions :: "instruction list"
  ms_RecentBlockhash :: string

record transaction_data =
  td_Message :: message
  td_Signatures :: "string list"

record solana_tx =
  tx_Meta :: transaction_meta
  tx_Transaction :: transaction_data

record block_data =
  bl_Transactions :: "solana_tx list"
  bl_Timestamp :: int
  bl_Block :: "64 word"
  bl_IgnoreWS :: bool

text \<open>Short names for the paths the parser follows all the time.\<close>

abbreviation tx_instructions :: "solana_tx \<Rightarrow> instruction list" where
  "tx_instructions tx \<equiv> ms_Instructions (td_Message (tx_Transaction tx))"

abbreviation tx_inner :: "solana_tx \<Rightarrow> inner_instruction list" where
  "tx_inner tx \<equiv> tm_InnerInstructions (tx_Meta tx)"

abbreviation tx_static_keys :: "solana_tx \<Rightarrow> string list" where
  "tx_static_keys tx \<equiv> ms_AccountKeys (td_Message (tx_Transaction tx))"

section \<open>Decoded instructions and logs\<close>

record system_program_data =
  sd_RawType :: byte
  sd_Type :: string
  sd_Lamports :: "64 word"
  sd_Space :: "64 word"
  sd_ProgramID :: pubkey

record token_program_data =
  tk_RawType :: byte
  tk_Type :: string
  tk_Decimals :: int
  tk_Amount :: "64 word"
  tk_Owner :: pubkey
  tk_MintAuthority :: pubkey
  tk_FreezeAuthority :: pubkey
  tk_AuthorityType :: byte
  tk_NewAuthority :: pubkey

definition zero_system_data :: system_program_data where
  "zero_system_data = \<lparr>sd_RawType = 0, sd_Type = [], sd_Lamports = 0, sd_Space = 0, sd_ProgramID = zero_key\<rparr>"

definition zero_token_data :: token_program_data where
  "zero_token_data = \<lparr>tk_RawType = 0, tk_Type = [], tk_Decimals = 0, tk_Amount = 0, tk_Owner = zero_key,
     tk_MintAuthority = zero_key, tk_FreezeAuthority = zero_key, tk_AuthorityType = 0, tk_NewAuthority = zero_key\<rparr>"

datatype log_details = LogDetails (ld_Program: string) (ld_Logs: "string list") (ld_SubLogs: "log_details list")

record metadata =
  md_Name :: string
  md_Symbol :: string
  md_URI :: string

record pumpfun_swap =
  pf_Mint :: pubkey
  pf_SolAmount :: "64 word"
  pf_TokenAmount :: "64 word"
  pf_IsBuy :: bool
  pf_User :: pubkey

record pumpfun_creation =
  pc_Name :: string
  pc_Symbol :: string
  pc_Uri :: string
  pc_Mint :: pubkey
  pc_BondingCurve :: pubkey
  pc_User :: pubkey

section \<open>Transfers, swaps, log entries\<close>

record sol_balance_diff =
  bd_Mint :: string
  bd_Decimals :: int
  bd_Amount :: string
  bd_Owner :: string

definition zero_diff :: sol_balance_diff where
  "zero_diff = \<lparr>bd_Mint = [], bd_Decimals = 0, bd_Amount = [], bd_Owner = []\<rparr>"

record token_account_details =
  ad_UserAccount :: string
  ad_MintAddress :: string
  ad_Decimals :: int

record sol_transfer =
  tr_InnerIndex :: int
  tr_IxIndex :: int
  tr_ToUserAccount :: string
  tr_ToTokenAccount :: string
  tr_FromUserAccount :: string
  tr_FromTokenAccount :: string
  tr_Authority :: string
  tr_Mint :: string
  tr_Decimals :: int
  tr_Amount :: string
  tr_Type :: string
  tr_ParentProgramId :: string
  tr_IxAccounts :: "int list"
  tr_EventData :: string

definition zero_transfer :: sol_transfer where
  "zero_transfer = \<lparr>tr_InnerIndex = 0, tr_IxIndex = 0, tr_ToUserAccount = [], tr_ToTokenAccount = [],
     tr_FromUserAccount = [], tr_FromTokenAccount = [], tr_Authority = [], tr_Mint = [], tr_Decimals = 0,
     tr_Amount = [], tr_Type = [], tr_ParentProgramId = [], tr_IxAccounts = [], tr_EventData = []\<rparr>"

record sol_swap =
  sw_Pair :: string
  sw_Exchange :: string
  sw_TokenOut :: string
  sw_TokenIn :: string
  sw_AmountOut :: string
  sw_AmountIn :: string
  sw_Wallet :: string
  sw_Source :: string

definition zero_swap :: sol_swap where
  "zero_swap = \<lparr>sw_Pair = [], sw_Exchange = [], sw_TokenOut = [], sw_TokenIn = [], sw_AmountOut = [],
     sw_AmountIn = [], sw_Wallet = [], sw_Source = []\<rparr>"

text \<open>A time.Time is its Unix time in nanoseconds; time.Unix(s, 0) is \<open>s * 10 ^ 9\<close>.\<close>

type_synonym gotime = int

definition time_unix :: "int \<Rightarrow> gotime" where
  "time_unix s = s * 10 ^ 9"

record swap_log =
  sl_ID :: string
  sl_Wallet :: string
  sl_Source :: string
  sl_BlockNumber :: "64 word"
  sl_Timestamp :: gotime
  sl_AmountOut :: gonum
  sl_AmountIn :: gonum
  sl_Action :: string
  sl_Pair :: string
  sl_Token :: string
  sl_Processed :: bool
  sl_TokenSymbol :: "string option"
  sl_QuoteTokenSymbol :: "string option"

section \<open>Tokens and pairs\<close>

record token =
  to_Name :: string
  to_Symbol :: string
  to_Decimals :: "8 word"
  to_Address :: string
  to_Supply :: string
  to_CreatedBlock :: int
  to_Network :: string
  to_CreatedTimestamp :: gotime
  to_Deployer :: "string option"
  to_Metadata :: "string option"

record quote_token =
  qt_Identifier :: string
  qt_Name :: string
  qt_Symbol :: string
  qt_Address :: string
  qt_Decimals :: "8 word"

record quote_token_simple =
  qs_Identifier :: string
  qs_Address :: string

record pair =
  pa_Address :: string
  pa_Network :: string
  pa_Exchange :: string
  pa_Token :: string
  pa_QuoteToken :: quote_token_simple
  pa_CreatedBlock :: int
  pa_CreatedTimestamp :: gotime

section \<open>Third-party code\<close>

text \<open>
  The functions of packages outside the repository that the parser calls, as a record passed to
  every definition that uses one: base58 (mr-tron/base58), public keys (solana-go-sdk), the borsh
  and binary decoders. \<open>None\<close> is an error return. A decoder of a struct is the value the struct
  has after the call, with whether the call reported an error.
\<close>

record ext =
  b58_decode :: "string \<Rightarrow> byte list option"
  b58_encode :: "byte list \<Rightarrow> string"
  key_of_bytes :: "byte list \<Rightarrow> pubkey"
  key_string :: "pubkey \<Rightarrow> string"
  borsh_metaplex :: "byte list \<Rightarrow> metadata option"
  bin_pumpfun_swap :: "byte list \<Rightarrow> pumpfun_swap option"
  borsh_pumpfun_creation :: "byte list \<Rightarrow> pumpfun_creation"

end
