(* ===== verification/Constants.thy ===== *)
theory Constants
  imports SolTypes
begin

text \<open>Program addresses and the address tables of internal/solana/constants.go.\<close>

definition JUPITER_V6_AGGREGATOR :: string where
  "JUPITER_V6_AGGREGATOR = ''JUP6LkbZbjS1jKKwapdHNy74zcZ3tLUZoi5QNyVTaV4''"

definition PUMPFUN :: string where
  "PUMPFUN = ''6EF8rrecthR5Dkzon8Nwu78hRvfCKubJ14M5uBEwF6P''"

definition PUMPFUN_AMM :: string where
  "PUMPFUN_AMM = ''pAMMBay6oceH9fJKBRHGP5D4bD4sWpmSwMn52FMfXEA''"

definition METEORA_DLMM_PROGRAM :: string where
  "METEORA_DLMM_PROGRAM = ''LBUZKhRxPF3XUpBCjp4YzTKgLccjZhTSDM9YuVaPwxo''"

definition METEORA_POOLS_PROGRAM :: string where
  "METEORA_POOLS_PROGRAM = ''Eo7WjKq67rjJQSZxS6z3YkapzY3eMj6Xy8X5EQVn5UaB''"

definition RAYDIUM_AMM_ROUTING :: string where
  "RAYDIUM_AMM_ROUTING = ''routeUGWgWzqBWFcrCfv8tritsqukccJPu3q5GPP3xS''"

definition RAYDIUM_LIQ_POOL_V4 :: string where
  "RAYDIUM_LIQ_POOL_V4 = ''675kPX9MHTjS2zt1qfr1NYHuzeLXfQM9H24wFSUt1Mp8''"

definition RAYDIUM_CONCENTRATED_LIQ :: string where
  "RAYDIUM_CONCENTRATED_LIQ = ''CAMMCzo5YL8w4VFF8KVHrK22GGUsp5VTaW7grrKgrWqK''"

definition RAYDIUM_CPMM :: string where
  "RAYDIUM_CPMM = ''CPMMoo8L3F4NbTegBCKVNunggL7H1ZpdTHKxQB5qKP1C''"

definition RAYDIUM_LAUNCHPAD :: string where
  "RAYDIUM_LAUNCHPAD = ''LanMV9sAd7wArD4vJFi2qDdfnVhFxYSUg6eADduJ3uj''"

definition LIFINITY_SWAP_V2 :: string where
  "LIFINITY_SWAP_V2 = ''2wT8Yq49kHgDzXuPxZSaeLaH1qbmGXtEyPy64bL7aD3c''"

definition FLUXBEAM_PROGRAM :: string where
  "FLUXBEAM_PROGRAM = ''FLUXubRmkEi2q6K3Y9kBPg9248ggaZVsoSFhtJHSrm1X''"

definition ORCA_WHIRL_PROGRAM_ID :: string where
  "ORCA_WHIRL_PROGRAM_ID = ''whirLbMiicVdio4qvUfM5KAg6Ct8VwpYzGff3uctyCc''"

definition ORCA_SWAP_V2 :: string where
  "ORCA_SWAP_V2 = ''MfDuWeqSHEqTFVYZ7LoexgAK9dxk7cy4DFJWjWMGVWa''"

definition ORCA_SWAP :: string where
  "ORCA_SWAP = ''DjVE6JNiYqPL2QXyCUUh8rNjHrbz9hXHNYt99MQ59qw1''"

definition PHOENIX :: string where
  "PHOENIX = ''PhoeNiXZ8ByJGLkxNfZRnkUfjvmuYqLR89jjFHGqdXY''"

definition TOKEN_PROGRAM :: string where
  "TOKEN_PROGRAM = ''TokenkegQfeZyiNwAJbNbGKPFXCWuBvf9Ss623VQ5DA''"

definition ASSOCIATED_TOKEN_PROGRAM :: string where
  "ASSOCIATED_TOKEN_PROGRAM = ''ATokenGPvbdGVxr1b2hvZbsiqW5xWH25efTNsLJA8knL''"

definition SYSTEM_PROGRAM :: string where
  "SYSTEM_PROGRAM = ''11111111111111111111111111111111''"

definition METAPLEX_TOKEN_METDATA :: string where
  "METAPLEX_TOKEN_METDATA = ''metaqbxxUerdq28cj1RbAWkYQm3ybzjb6a8bt518x1s''"

text \<open>The wrapped SOL mint and the PumpFun fee account, which the source writes as literals.\<close>

definition WSOL :: string where
  "WSOL = ''So11111111111111111111111111111111111111112''"

definition PUMPFUN_FEE_ACCOUNT :: string where
  "PUMPFUN_FEE_ACCOUNT = ''CebN5WGQ4jvEPvsVU4EoHEpgzq1VV7AbicfhtW4xC9iM''"

section \<open>Tables\<close>

definition QuoteTokens :: "string \<rightharpoonup> string" where
  "QuoteTokens = map_of [
     (''So11111111111111111111111111111111111111112'', ''SOL''),
     (''Es9vMFrzaCERmJfrF4H2FYD4KCoNkY11McCe8BenwNYB'', ''USDT''),
     (''EPjFWdd5AufqSSqeM2qN1xzybapC8G4wEGGkZwyTDt1v'', ''USDC'')]"

definition IgnoreToUsers :: "string \<rightharpoonup> bool" where
  "IgnoreToUsers = map_of [
     (''CebN5WGQ4jvEPvsVU4EoHEpgzq1VV7AbicfhtW4xC9iM'', True),
     (''CpoD6tWAsMDeyvVG2q2rD1JbDY6d4AujnvAn2NdrhZV2'', True),
     (''JD25qVdtd65FoiXNmR89JjmoJdYk9sjYQeSTZAALFiMy'', True),
     (''GpMZbSM2GgvTKHJirzeGfMFoaZ8UR2X7F4v8vHTvxFbL'', True),
     (''45ruCyfdRkWpRNGEqWzjCiXRHkZs8WXCLQ67Pnpye7Hp'', True),
     (''EQ4iGa81Uyp8WuqZ3yXQGqVH9jWfKT9nubUUGrQmRL3a'', True),
     (''62qc2CNXwrYqQScmEdiZFFAnJR262PxWEuNQtxfafNgV'', True),
     (''FWsW1xNtWscwNmKv6wVsU1iTzRN6wmmk3MjxRP5tT7hz'', True)]"

definition IgnoreTokens :: "string \<rightharpoonup> bool" where
  "IgnoreTokens = map_of [
     (''J1toso1uCk3RLmjorhTtrVwY9HJ7X8V9yYac6Y7kGCPn'', True),
     (''mSoLzYCxHdYgdzU16g5QSh3i5K3z3KZK7ytfqcJm7So'', True),
     (''27G8MtK7VtTcCHkpASjSDdkWWYfoqT6ggEuKidVJidD4'', True)]"

definition Programs :: "string \<rightharpoonup> string" where
  "Programs = map_of [
     (JUPITER_V6_AGGREGATOR, ''JUPITER_V6_AGGREGATOR''),
     (PUMPFUN, ''PUMPFUN''),
     (PUMPFUN_AMM, ''PUMPFUN_AMM''),
     (METEORA_DLMM_PROGRAM, ''METEORA_DLMM_PROGRAM''),
     (METEORA_POOLS_PROGRAM, ''METEORA_POOLS_PROGRAM''),
     (RAYDIUM_AMM_ROUTING, ''RAYDIUM_AMM_ROUTING''),
     (RAYDIUM_LIQ_POOL_V4, ''RAYDIUM_LIQ_POOL_V4''),
     (RAYDIUM_CPMM, ''RAYDIUM_CPMM''),
     (RAYDIUM_LAUNCHPAD, ''RAYDIUM_LAUNCHPAD''),
     (RAYDIUM_CONCENTRATED_LIQ, ''RAYDIUM_CONCENTRATED_LIQ''),
     (LIFINITY_SWAP_V2, ''LIFINITY_SWAP_V2''),
     (FLUXBEAM_PROGRAM, ''FLUXBEAM_PROGRAM''),
     (ORCA_WHIRL_PROGRAM_ID, ''ORCA_WHIRL_PROGRAM_ID''),
     (ORCA_SWAP_V2, ''ORCA_SWAP_V2''),
     (ORCA_SWAP, ''ORCA_SWAP''),
     (PHOENIX, ''PHOENIX'')]"

definition IgnorePrograms :: "string \<rightharpoonup> bool" where
  "IgnorePrograms = map_of [
     (PHOENIX, True),
     (LIFINITY_SWAP_V2, True),
     (ORCA_SWAP, True),
     (ORCA_SWAP_V2, True),
     (METEORA_POOLS_PROGRAM, True)]"

section \<open>The addresses are pairwise different\<close>

lemmas program_id_defs =
  JUPITER_V6_AGGREGATOR_def
  PUMPFUN_def
  PUMPFUN_AMM_def
  METEORA_DLMM_PROGRAM_def
  METEORA_POOLS_PROGRAM_def
  RAYDIUM_AMM_ROUTING_def
  RAYDIUM_LIQ_POOL_V4_def
  RAYDIUM_CONCENTRATED_LIQ_def
  RAYDIUM_CPMM_def
  RAYDIUM_LAUNCHPAD_def
  LIFINITY_SWAP_V2_def
  FLUXBEAM_PROGRAM_def
  ORCA_WHIRL_PROGRAM_ID_def
  ORCA_SWAP_V2_def
  ORCA_SWAP_def
  PHOENIX_def
  TOKEN_PROGRAM_def
  ASSOCIATED_TOKEN_PROGRAM_def
  SYSTEM_PROGRAM_def
  METAPLEX_TOKEN_METDATA_def

lemma distinct_prefix: "distinct (map (take n) xs) \<Longrightarrow> distinct xs"
  by (simp add: distinct_map)

lemma program_ids_distinct:
  "distinct [JUPITER_V6_AGGREGATOR,
     PUMPFUN,
     PUMPFUN_AMM,
     METEORA_DLMM_PROGRAM,
     METEORA_POOLS_PROGRAM,
     RAYDIUM_AMM_ROUTING,
     RAYDIUM_LIQ_POOL_V4,
     RAYDIUM_CONCENTRATED_LIQ,
     RAYDIUM_CPMM,
     RAYDIUM_LAUNCHPAD,
     LIFINITY_SWAP_V2,
     FLUXBEAM_PROGRAM,
     ORCA_WHIRL_PROGRAM_ID,
     ORCA_SWAP_V2,
     ORCA_SWAP,
     PHOENIX,
     TOKEN_PROGRAM,
     ASSOCIATED_TOKEN_PROGRAM,
     SYSTEM_PROGRAM,
     METAPLEX_TOKEN_METDATA]"
  by (rule distinct_prefix [of 2]) (simp add: program_id_defs)

lemma program_ids_distinct_rev:
  "distinct [METAPLEX_TOKEN_METDATA,
     SYSTEM_PROGRAM,
     ASSOCIATED_TOKEN_PROGRAM,
     TOKEN_PROGRAM,
     PHOENIX,
     ORCA_SWAP,
     ORCA_SWAP_V2,
     ORCA_WHIRL_PROGRAM_ID,
     FLUXBEAM_PROGRAM,
     LIFINITY_SWAP_V2,
     RAYDIUM_LAUNCHPAD,
     RAYDIUM_CPMM,
     RAYDIUM_CONCENTRATED_LIQ,
     RAYDIUM_LIQ_POOL_V4,
     RAYDIUM_AMM_ROUTING,
     METEORA_POOLS_PROGRAM,
     METEORA_DLMM_PROGRAM,
     PUMPFUN_AMM,
     PUMPFUN,
     JUPITER_V6_AGGREGATOR]"
  using iffD2 [OF distinct_rev program_ids_distinct] by (simp only: rev.simps append.simps)

lemmas program_neq = program_ids_distinct [simplified] program_ids_distinct_rev [simplified]

lemma program_id_nonempty:
  "JUPITER_V6_AGGREGATOR \<noteq> []"
  "PUMPFUN \<noteq> []"
  "PUMPFUN_AMM \<noteq> []"
  "METEORA_DLMM_PROGRAM \<noteq> []"
  "METEORA_POOLS_PROGRAM \<noteq> []"
  "RAYDIUM_AMM_ROUTING \<noteq> []"
  "RAYDIUM_LIQ_POOL_V4 \<noteq> []"
  "RAYDIUM_CONCENTRATED_LIQ \<noteq> []"
  "RAYDIUM_CPMM \<noteq> []"
  "RAYDIUM_LAUNCHPAD \<noteq> []"
  "LIFINITY_SWAP_V2 \<noteq> []"
  "FLUXBEAM_PROGRAM \<noteq> []"
  "ORCA_WHIRL_PROGRAM_ID \<noteq> []"
  "ORCA_SWAP_V2 \<noteq> []"
  "ORCA_SWAP \<noteq> []"
  "PHOENIX \<noteq> []"
  "TOKEN_PROGRAM \<noteq> []"
  "ASSOCIATED_TOKEN_PROGRAM \<noteq> []"
  "SYSTEM_PROGRAM \<noteq> []"
  "METAPLEX_TOKEN_METDATA \<noteq> []"
  by (simp_all add: program_id_defs)

end
