(* ===== verification/Instructions.thy ===== *)
theory Instructions
  imports Constants
begin

text \<open>
  The instruction decoders: the SPL token program (internal/solana/tokenProgram.go), the system
  program (systemProgram.go) and Metaplex metadata (metaplexProgram.go). The base58, public-key
  and borsh functions are those of the \<open>ext\<close> argument. The lemmas show which data decodes
  normally and that the decoders invert the programs' wire format.
\<close>

section \<open>Token program\<close>

definition determineTokenInstructionType :: "byte \<Rightarrow> string" where
  "determineTokenInstructionType tag =
     (if tag = 0 then ''InitializeMint''
      else if tag = 1 then ''InitializeAccount''
      else if tag = 2 then ''InitializeMultisig''
      else if tag = 3 then ''Transfer''
      else if tag = 4 then ''Approve''
      else if tag = 5 then ''Revoke''
      else if tag = 6 then ''SetAuthority''
      else if tag = 7 then ''MintTo''
      else if tag = 8 then ''Burn''
      else if tag = 9 then ''CloseAccount''
      else if tag = 10 then ''FreezeAccount''
      else if tag = 11 then ''ThawAccount''
      else if tag = 12 then ''TransferChecked''
      else if tag = 13 then ''ApproveChecked''
      else if tag = 14 then ''MintToChecked''
      else if tag = 15 then ''BurnChecked''
      else if tag = 16 then ''InitializeAccount2''
      else if tag = 17 then ''SyncNative''
      else if tag = 18 then ''InitializeAccount3''
      else if tag = 19 then ''InitializeMultisig2''
      else if tag = 20 then ''InitializeMint2''
      else if tag = 21 then ''GetAccountDataSize''
      else if tag = 22 then ''InitializeImmutableOwner''
      else if tag = 23 then ''AmountToUiAmount''
      else if tag = 24 then ''UiAmountToAmount''
      else ''InvalidInstruction'')"

text \<open>Too short a slice ends the process (log.Fatalf).\<close>

definition unpackU64 :: "byte list \<Rightarrow> (64 word \<times> byte list) go" where
  "unpackU64 data =
     (if length data < 8 then Inl Fatal
      else Inr (of_nat (le_nat (take 8 data)), drop 8 data))"

definition token_body :: "ext \<Rightarrow> byte \<Rightarrow> byte list \<Rightarrow> token_program_data \<Rightarrow> token_program_data go" where
  "token_body E tag remaining data =
     (if tag = 3 \<or> tag = 4 \<or> tag = 7 \<or> tag = 8 then
        go_bind (unpackU64 remaining) (\<lambda>(amount, _). Inr (data\<lparr>tk_Amount := amount\<rparr>))
      else if tag = 6 then
        (case remaining of
           [] \<Rightarrow> Inr data
         | authorityType # rest \<Rightarrow>
             let data = data\<lparr>tk_AuthorityType := authorityType\<rparr> in
             Inr (if 32 \<le> length rest then data\<lparr>tk_NewAuthority := key_of_bytes E (take 32 rest)\<rparr> else data))
      else if tag = 12 \<or> tag = 13 \<or> tag = 14 \<or> tag = 15 then
        go_bind (unpackU64 remaining) (\<lambda>(amount, rest).
          case rest of
            [] \<Rightarrow> Inr data
          | decimals # _ \<Rightarrow> Inr (data\<lparr>tk_Decimals := uint decimals, tk_Amount := amount\<rparr>))
      else if tag = 16 \<or> tag = 18 then
        Inr (if length remaining < 32 then data else data\<lparr>tk_Owner := key_of_bytes E (take 32 remaining)\<rparr>)
      else if tag = 20 \<or> tag = 0 then
        (case remaining of
           [] \<Rightarrow> Inr data
         | decimals # rest \<Rightarrow>
             let data = data\<lparr>tk_Decimals := uint decimals\<rparr> in
             if length rest < 32 then Inr data
             else
               let data = data\<lparr>tk_MintAuthority := key_of_bytes E (take 32 rest)\<rparr>; rest = drop 32 rest in
               Inr (if 32 \<le> length rest then data\<lparr>tk_FreezeAuthority := key_of_bytes E (take 32 rest)\<rparr> else data))
      else Inr data)"

definition DecodeTokenProgramData :: "ext \<Rightarrow> string \<Rightarrow> token_program_data go" where
  "DecodeTokenProgramData E encodedData =
     (case b58_decode E encodedData of
        None \<Rightarrow> Inr zero_token_data
      | Some decodedBytes \<Rightarrow>
          go_bind (idx decodedBytes 0) (\<lambda>instructionTag.
          go_bind (slice_from decodedBytes 1) (\<lambda>remainingBytes.
            token_body E instructionTag remainingBytes
              (zero_token_data\<lparr>tk_RawType := instructionTag,
                 tk_Type := determineTokenInstructionType instructionTag\<rparr>))))"

section \<open>System program\<close>

definition determineSystemInstructionType :: "byte \<Rightarrow> string" where
  "determineSystemInstructionType tag =
     (if tag = 0 then ''CreateAccount''
      else if tag = 2 then ''Transfer''
      else if tag = 8 then ''Allocate''
      else if tag = 1 then ''Assign''
      else ''InvalidInstruction'')"

definition system_body :: "ext \<Rightarrow> byte list \<Rightarrow> system_program_data \<Rightarrow> system_program_data go" where
  "system_body E decodedBytes data =
     (if sd_RawType data = 0 then
        (if length decodedBytes < 52 then Inr data
         else
           go_bind (slice decodedBytes 4 12) (\<lambda>b1. go_bind (unpackU64 b1) (\<lambda>(lamports, _).
           go_bind (slice decodedBytes 12 20) (\<lambda>b2. go_bind (unpackU64 b2) (\<lambda>(space, _).
           go_bind (slice decodedBytes 20 52) (\<lambda>b3.
             Inr (data\<lparr>sd_Lamports := lamports, sd_Space := space, sd_ProgramID := key_of_bytes E b3\<rparr>)))))))
      else if sd_RawType data = 2 \<or> sd_RawType data = 8 then
        (if length decodedBytes < 12 then Inr data
         else go_bind (slice_from decodedBytes 4) (\<lambda>b. go_bind (unpackU64 b) (\<lambda>(lamports, _).
                Inr (data\<lparr>sd_Lamports := lamports\<rparr>))))
      else if sd_RawType data = 1 then
        (if length decodedBytes < 36 then Inr data
         else go_bind (slice_from decodedBytes 4) (\<lambda>b. Inr (data\<lparr>sd_ProgramID := key_of_bytes E b\<rparr>)))
      else Inr data)"

definition DecodeSystemProgramData :: "ext \<Rightarrow> string \<Rightarrow> system_program_data go" where
  "DecodeSystemProgramData E encodedData =
     (case b58_decode E encodedData of
        None \<Rightarrow> Inl Fatal
      | Some decodedBytes \<Rightarrow>
          go_bind (idx decodedBytes 0) (\<lambda>tag.
            system_body E decodedBytes
              (zero_system_data\<lparr>sd_RawType := tag, sd_Type := determineSystemInstructionType tag\<rparr>)))"

section \<open>Metaplex\<close>

text \<open>The base58 step and the borsh step may each fail; the source reads only name, symbol and URI.\<close>

definition DecodeMetaplexData :: "ext \<Rightarrow> string \<Rightarrow> metadata option" where
  "DecodeMetaplexData E encodedData =
     (case b58_decode E encodedData of None \<Rightarrow> None | Some bytes \<Rightarrow> borsh_metaplex E bytes)"

section \<open>Lemmas\<close>

lemma unpackU64_ok [simp]: "ok (unpackU64 d) \<longleftrightarrow> 8 \<le> length d"
  by (auto simp: unpackU64_def)

lemma unpackU64_app: "length a = 8 \<Longrightarrow> unpackU64 (a @ b) = Inr (of_nat (le_nat a), b)"
  by (simp add: unpackU64_def)

lemma unpackU64_nat_le [simp]: "unpackU64 (nat_le 8 (unat (w :: 64 word)) @ b) = Inr (w, b)"
proof -
  have "unat w < 2 ^ 64" using unsigned_less [of w] by simp
  then have "le_nat (nat_le 8 (unat w)) = unat w" by (intro le_nat_nat_le) simp
  then show ?thesis by (simp add: unpackU64_app)
qed

lemma unpackU64_nat_le_Nil [simp]: "unpackU64 (nat_le 8 (unat (w :: 64 word))) = Inr (w, [])"
  using unpackU64_nat_le [of w "[]"] by simp

text \<open>
  The bytes a token instruction needs: at least its tag, and eight bytes of amount behind a tag
  whose layout has one.
\<close>

definition token_data_ok :: "byte list \<Rightarrow> bool" where
  "token_data_ok bs \<longleftrightarrow> (case bs of
     [] \<Rightarrow> False
   | tag # rest \<Rightarrow> tag \<in> {3, 4, 7, 8, 12, 13, 14, 15} \<longrightarrow> 8 \<le> length rest)"

lemma ok_token_body: "ok (token_body E tag rest d) \<longleftrightarrow> token_data_ok (tag # rest)"
  by (auto simp: token_body_def token_data_ok_def ok_bind_iff unpackU64_def Let_def split: list.splits)

lemma ok_DecodeTokenProgramData:
  "ok (DecodeTokenProgramData E s) \<longleftrightarrow> (\<forall>bs. b58_decode E s = Some bs \<longrightarrow> token_data_ok bs)"
proof (cases "b58_decode E s")
  case (Some bs)
  then show ?thesis
    by (cases bs) (auto simp: DecodeTokenProgramData_def idx_def slice_from_def ok_token_body,
        auto simp: token_data_ok_def)
qed (simp add: DecodeTokenProgramData_def)

lemma ok_system_body: "sd_RawType d = tag \<Longrightarrow> ok (system_body E (tag # rest) d)"
  by (auto simp: system_body_def ok_bind_iff slice_def slice_from_def unpackU64_def)

lemma ok_DecodeSystemProgramData:
  "ok (DecodeSystemProgramData E s) \<longleftrightarrow> (\<exists>bs. b58_decode E s = Some bs \<and> bs \<noteq> [])"
proof (cases "b58_decode E s")
  case (Some bs)
  then show ?thesis by (cases bs) (auto simp: DecodeSystemProgramData_def idx_def ok_system_body)
qed (simp add: DecodeSystemProgramData_def)

lemma token_type_eq:
  "determineTokenInstructionType tag = ''Transfer'' \<longleftrightarrow> tag = 3"
  "determineTokenInstructionType tag = ''TransferChecked'' \<longleftrightarrow> tag = 12"
  "determineTokenInstructionType tag = ''MintTo'' \<longleftrightarrow> tag = 7"
  "determineTokenInstructionType tag = ''Burn'' \<longleftrightarrow> tag = 8"
  by (auto simp: determineTokenInstructionType_def)

lemma token_body_type [simp]: "token_body E tag rest d = Inr d' \<Longrightarrow> tk_Type d' = tk_Type d"
  by (auto simp: token_body_def ok_iff Let_def neq_Nil_conv split: if_splits list.splits prod.splits)

lemma token_body_decimals: "token_body E tag rest d = Inr d' \<Longrightarrow> 0 \<le> tk_Decimals d \<Longrightarrow> 0 \<le> tk_Decimals d'"
  by (auto simp: token_body_def ok_iff Let_def neq_Nil_conv split: if_splits list.splits prod.splits)

lemma token_decimals_nonneg: "DecodeTokenProgramData E s = Inr d \<Longrightarrow> 0 \<le> tk_Decimals d"
  by (auto simp: DecodeTokenProgramData_def zero_token_data_def ok_iff dest!: token_body_decimals split: option.splits)

end
