(* ===== verification/GoText.thy ===== *)
theory GoText
  imports GoNumber
begin

text \<open>
  Numbers as text: decimal digits of integers, the decimal syntax that SetString and ParseFloat
  read, the shortest decimal that Text('f', -1) prints and the ten significant digits of String.
  The search for the shortest decimal is proved to succeed and to be undone by SetString.
\<close>

section \<open>Decimal digits\<close>

definition digit :: "int \<Rightarrow> char" where
  "digit d = ''0123456789'' ! nat d"

definition is_digit :: "char \<Rightarrow> bool" where
  "is_digit c \<longleftrightarrow> c \<in> set ''0123456789''"

definition digit_val :: "char \<Rightarrow> int" where
  "digit_val c = of_char c - 48"

lemma digit_cases: "0 \<le> d \<Longrightarrow> d < 10 \<Longrightarrow> d \<in> {0, 1, 2, 3, 4, 5, 6, 7, 8, 9 :: int}"
  unfolding insert_iff empty_iff by presburger

lemma digit_simps:
  assumes "0 \<le> d" "d < 10"
  shows "digit_val (digit d) = d" "is_digit (digit d)"
  using digit_cases [OF assms] unfolding insert_iff empty_iff
  by (elim disjE; simp add: digit_def digit_val_def is_digit_def)+

function dec :: "int \<Rightarrow> string" where
  "dec n = (if n < 10 then [digit n] else dec (n div 10) @ [digit (n mod 10)])"
  by pat_completeness auto
termination
  by (relation "measure nat") (auto simp: int_div_less_self)

declare dec.simps [simp del]

fun frac_digits :: "nat \<Rightarrow> int \<Rightarrow> string" where
  "frac_digits 0 m = []"
| "frac_digits (Suc s) m = frac_digits s (m div 10) @ [digit (m mod 10)]"

definition parse_digits :: "string \<Rightarrow> int" where
  "parse_digits s = foldl (\<lambda>a c. 10 * a + digit_val c) 0 s"

lemma parse_digits_snoc [simp]: "parse_digits (s @ [c]) = 10 * parse_digits s + digit_val c"
  by (simp add: parse_digits_def)

lemma parse_digits_Nil [simp]: "parse_digits [] = 0"
  by (simp add: parse_digits_def)

lemma parse_digits_single [simp]: "parse_digits [c] = digit_val c"
  by (simp add: parse_digits_def)

lemma dec_props: "0 \<le> n \<Longrightarrow> parse_digits (dec n) = n \<and> (\<forall>c \<in> set (dec n). is_digit c) \<and> dec n \<noteq> []"
proof (induction n rule: dec.induct)
  case (1 n)
  show ?case
  proof (cases "n < 10")
    case True
    then show ?thesis using "1.prems" by (subst dec.simps, subst (2) dec.simps, subst (3) dec.simps) (simp add: digit_simps)
  next
    case False
    then have "parse_digits (dec (n div 10)) = n div 10" "\<forall>c \<in> set (dec (n div 10)). is_digit c"
      using "1.IH" "1.prems" by auto
    moreover have "dec n = dec (n div 10) @ [digit (n mod 10)]" using False by (subst dec.simps) simp
    ultimately show ?thesis by (simp add: digit_simps)
  qed
qed

lemma frac_digits_props:
  "0 \<le> m \<Longrightarrow> parse_digits (frac_digits s m) = m mod 10 ^ s \<and> (\<forall>c \<in> set (frac_digits s m). is_digit c)
     \<and> length (frac_digits s m) = s"
proof (induction s arbitrary: m)
  case (Suc s)
  have "m mod (10 * 10 ^ s) = 10 * (m div 10 mod 10 ^ s) + m mod 10"
    by (simp add: zmod_zmult2_eq)
  moreover have "0 \<le> m div 10" using Suc.prems by (simp add: pos_imp_zdiv_nonneg_iff)
  ultimately show ?case using Suc.IH [of "m div 10"] by (simp add: digit_simps)
qed simp

lemma parse_digits_append: "parse_digits (a @ b) = parse_digits a * 10 ^ length b + parse_digits b"
proof (induction b rule: rev_induct)
  case (snoc c b)
  have "parse_digits (a @ b @ [c]) = 10 * parse_digits (a @ b) + digit_val c"
    by (simp flip: append_assoc)
  with snoc show ?case by (simp add: algebra_simps)
qed simp

section \<open>Reading a decimal\<close>

definition scan_sign :: "string \<Rightarrow> bool \<times> string" where
  "scan_sign s = (case s of
     c # t \<Rightarrow> if c = CHR ''-'' then (True, t) else if c = CHR ''+'' then (False, t) else (False, s)
   | [] \<Rightarrow> (False, s))"

definition scan_digits :: "string \<Rightarrow> string \<times> string" where
  "scan_digits s = (takeWhile is_digit s, dropWhile is_digit s)"

definition scan_frac :: "string \<Rightarrow> string \<times> string" where
  "scan_frac s = (case s of
     c # t \<Rightarrow> if c = CHR ''.'' then scan_digits t else ([], s)
   | [] \<Rightarrow> ([], s))"

definition scan_exp :: "string \<Rightarrow> int option" where
  "scan_exp s = (case s of
     [] \<Rightarrow> Some 0
   | c # t \<Rightarrow> if c = CHR ''e'' \<or> c = CHR ''E'' then
       (let (neg, u) = scan_sign t; (ds, r) = scan_digits u
        in if ds = [] \<or> r \<noteq> [] then None
           else Some (if neg then - parse_digits ds else parse_digits ds))
     else None)"

definition parse_decimal :: "string \<Rightarrow> rat option" where
  "parse_decimal s =
     (let (neg, t) = scan_sign s; (ip, t1) = scan_digits t; (fp, t2) = scan_frac t1
      in if ip = [] \<and> fp = [] then None
         else map_option (\<lambda>e. (if neg then - 1 else 1) * of_int (parse_digits (ip @ fp)) * 10 powi (e - int (length fp)))
                (scan_exp t2))"

text \<open>
  strconv.ParseInt(s, 10, bits): the value and whether the error is nil. Out of range the value is
  the nearest bound, on a malformed text it is 0; both with an error.
\<close>

definition ParseInt :: "nat \<Rightarrow> string \<Rightarrow> int \<times> bool" where
  "ParseInt bits s =
     (let (neg, ds) = scan_sign s in
      if ds = [] \<or> \<not> list_all is_digit ds then (0, False)
      else
        let v = (if neg then - parse_digits ds else parse_digits ds) in
        if v < - (2 ^ (bits - 1)) then (- (2 ^ (bits - 1)), False)
        else if 2 ^ (bits - 1) \<le> v then (2 ^ (bits - 1) - 1, False)
        else (v, True))"

definition bf_set_string :: "string \<Rightarrow> gonum option" where
  "bf_set_string s =
     (if s \<in> {''Inf'', ''inf'', ''+Inf'', ''+inf''} then Some PosInf
      else if s \<in> {''-Inf'', ''-inf''} then Some NegInf
      else map_option (\<lambda>v. Fin (rnd 64 v)) (parse_decimal s))"

section \<open>Printing a decimal\<close>

fun strip0 :: "int \<Rightarrow> nat \<Rightarrow> int \<times> nat" where
  "strip0 c 0 = (c, 0)"
| "strip0 c (Suc s) = (if c mod 10 = 0 then strip0 (c div 10) s else (c, Suc s))"

lemma strip0_value:
  "strip0 c s = (c', s') \<Longrightarrow> (of_int c' / 10 ^ s' :: rat) = of_int c / 10 ^ s \<and> (0 \<le> c \<longrightarrow> 0 \<le> c') \<and> s' \<le> s"
proof (induction c s rule: strip0.induct)
  case (2 c s)
  show ?case
  proof (cases "c mod 10 = 0")
    case True
    then have c: "c = 10 * (c div 10)" by presburger
    have "(of_int c :: rat) / 10 ^ Suc s = of_int (c div 10) / 10 ^ s" by (subst c) simp
    moreover have "0 \<le> c \<longrightarrow> 0 \<le> c div 10" by (simp add: pos_imp_zdiv_nonneg_iff)
    moreover have "strip0 (c div 10) s = (c', s')" using "2.prems" True by simp
    ultimately show ?thesis using "2.IH" [OF True] by auto
  qed (use 2 in auto)
qed simp

text \<open>\<open>dec_text c s\<close> prints \<open>c / 10 ^ s\<close> without trailing zeros.\<close>

definition dec_text :: "int \<Rightarrow> nat \<Rightarrow> string" where
  "dec_text c s = (let (c', s') = strip0 c s in
     dec (c' div 10 ^ s') @ (if s' = 0 then [] else CHR ''.'' # frac_digits s' (c' mod 10 ^ s')))"

lemma digit_not_sign: "is_digit c \<Longrightarrow> c \<noteq> CHR ''-'' \<and> c \<noteq> CHR ''+'' \<and> c \<noteq> CHR ''.'' \<and> c \<noteq> CHR ''e''"
  by (auto simp: is_digit_def)

lemma not_digit_punct [simp]: "\<not> is_digit (CHR ''.'')" "\<not> is_digit (CHR ''e'')" "\<not> is_digit (CHR ''-'')"
  by (simp_all add: is_digit_def)

lemma scan_digits_all [simp]: "(\<forall>c \<in> set s. is_digit c) \<Longrightarrow> scan_digits s = (s, [])"
  by (simp add: scan_digits_def)

lemma scan_digits_stop: "(\<forall>c \<in> set s. is_digit c) \<Longrightarrow> \<not> is_digit d \<Longrightarrow> scan_digits (s @ d # t) = (s, d # t)"
  by (simp add: scan_digits_def takeWhile_tail dropWhile_append)

lemma scan_sign_digits: "(\<forall>c \<in> set s. is_digit c) \<Longrightarrow> s \<noteq> [] \<Longrightarrow> scan_sign (s @ t) = (False, s @ t)"
  using digit_not_sign by (cases s) (auto simp: scan_sign_def)

lemma parse_decimal_plain:
  assumes "\<forall>c \<in> set ip. is_digit c" "ip \<noteq> []" "\<forall>c \<in> set fp. is_digit c"
  shows "parse_decimal (ip @ (if fp = [] then [] else CHR ''.'' # fp)) = Some (of_int (parse_digits (ip @ fp)) / 10 ^ length fp)"
proof (cases "fp = []")
  case True
  then show ?thesis using assms scan_sign_digits [of ip "[]"]
    by (simp add: parse_decimal_def scan_frac_def scan_exp_def)
next
  case False
  then show ?thesis using assms scan_sign_digits [of ip "CHR ''.'' # fp"]
    by (simp add: parse_decimal_def scan_frac_def scan_exp_def scan_digits_stop power_int_minus divide_inverse)
qed

lemma parse_dec_text:
  assumes "0 \<le> c"
  shows "parse_decimal (dec_text c s) = Some (of_int c / 10 ^ s)"
proof -
  obtain c' s' where st: "strip0 c s = (c', s')" by fastforce
  note v = strip0_value [OF st]
  have c': "0 \<le> c'" using v assms by blast
  let ?ip = "dec (c' div 10 ^ s')" and ?fp = "frac_digits s' (c' mod 10 ^ s')"
  have ip: "parse_digits ?ip = c' div 10 ^ s'" "\<forall>c \<in> set ?ip. is_digit c" "?ip \<noteq> []"
    using dec_props [of "c' div 10 ^ s'"] c' by (auto simp: pos_imp_zdiv_nonneg_iff)
  have fp: "parse_digits ?fp = c' mod 10 ^ s'" "\<forall>c \<in> set ?fp. is_digit c" "length ?fp = s'"
    using frac_digits_props [of "c' mod 10 ^ s'" s'] by auto
  have t: "dec_text c s = ?ip @ (if ?fp = [] then [] else CHR ''.'' # ?fp)"
    using fp(3) by (auto simp: dec_text_def st)
  have "parse_digits (?ip @ ?fp) = c'" by (simp add: parse_digits_append ip fp div_mult_mod_eq)
  then show ?thesis using parse_decimal_plain [OF ip(2,3) fp(2)] v t fp(3) by simp
qed

lemma dec_text_dec: "dec_text c 0 = dec c"
  by (simp add: dec_text_def)

lemma parse_decimal_dec: "0 \<le> n \<Longrightarrow> parse_decimal (dec n) = Some (of_int n)"
  using parse_dec_text [of n 0] by (simp add: dec_text_dec)

lemma dec_text_hd: "0 \<le> c \<Longrightarrow> \<exists>d t. dec_text c s = d # t \<and> is_digit d"
proof -
  assume "0 \<le> c"
  obtain c' s' where st: "strip0 c s = (c', s')" by fastforce
  then have "0 \<le> c'" using strip0_value [OF st] \<open>0 \<le> c\<close> by blast
  then have "dec (c' div 10 ^ s') \<noteq> []" "\<forall>c \<in> set (dec (c' div 10 ^ s')). is_digit c"
    using dec_props [of "c' div 10 ^ s'"] by (auto simp: pos_imp_zdiv_nonneg_iff)
  then show ?thesis by (cases "dec (c' div 10 ^ s')") (auto simp: dec_text_def st)
qed

section \<open>The shortest decimal\<close>

text \<open>
  With \<open>s\<close> decimal places, the two decimals next to \<open>x\<close> are \<open>lo / 10 ^ s\<close> and
  \<open>(lo + 1) / 10 ^ s\<close>. A candidate is acceptable when it rounds back to \<open>x\<close>; when both do, the
  nearer one is taken. The search starts at one significant digit and adds digits.
\<close>

definition dec_cand :: "nat \<Rightarrow> rat \<Rightarrow> int \<Rightarrow> int option" where
  "dec_cand p x s =
     (let y = x * 10 powi s; lo = \<lfloor>y\<rfloor>;
          down = rnd p (of_int lo / 10 powi s) = x; up = rnd p (of_int (lo + 1) / 10 powi s) = x
      in if down \<and> up then Some (rhe y) else if down then Some lo else if up then Some (lo + 1) else None)"

fun shortest :: "nat \<Rightarrow> rat \<Rightarrow> nat \<Rightarrow> int \<Rightarrow> (int \<times> int) option" where
  "shortest p x 0 s = None"
| "shortest p x (Suc fuel) s =
     (case dec_cand p x s of Some c \<Rightarrow> Some (c, s) | None \<Rightarrow> shortest p x fuel (s + 1))"

definition scaled_text :: "int \<Rightarrow> int \<Rightarrow> string" where
  "scaled_text c s = (if 0 \<le> s then dec_text c (nat s) else dec (c * 10 ^ nat (- s)))"

definition pos_text :: "nat \<Rightarrow> rat \<Rightarrow> string" where
  "pos_text p x = (case shortest p x (p + 1) (- ilog 10 x) of
     None \<Rightarrow> [] | Some (c, s) \<Rightarrow> scaled_text c s)"

definition bf_text_f :: "nat \<Rightarrow> gonum \<Rightarrow> string" where
  "bf_text_f p a = (case a of
     Fin x \<Rightarrow> if x = 0 then ''0'' else if x < 0 then CHR ''-'' # pos_text p (- x) else pos_text p x
   | PosInf \<Rightarrow> ''+Inf'' | NegInf \<Rightarrow> ''-Inf'' | NaN \<Rightarrow> [])"

lemma rhe_near: "\<bar>y - of_int m\<bar> < 1 / 2 \<Longrightarrow> rhe y = m"
proof -
  assume "\<bar>y - of_int m\<bar> < 1 / 2"
  then have "\<bar>of_int (rhe y) - of_int m\<bar> < (1 :: rat)" using rhe_error [of y] by linarith
  then have "\<bar>rhe y - m\<bar> < 1" by linarith
  then show ?thesis by linarith
qed

lemma abs_scale: "0 < t \<Longrightarrow> \<bar>a - x * t\<bar> / t = \<bar>a / t - x\<bar>" for t :: rat
proof -
  assume t: "0 < t"
  then have "a / t - x = (a - x * t) / t" by (simp add: diff_divide_distrib)
  then show ?thesis using t by (simp add: abs_divide)
qed

lemma rnd_near:
  assumes "representable p x" "0 < x" "1 \<le> p" "\<bar>v - x\<bar> < 2 powi (ilog 2 x - int p - 1)"
  shows "rnd p v = x"
proof -
  let ?l = "ilog 2 x"
  define E where "E = ulp_exp p x"
  define q where "q = (2 :: rat) powi E"
  have q: "0 < q" by (simp add: q_def)
  have E: "E = ?l - int p + 1" using assms(2) by (simp add: E_def ulp_exp_def)
  have quarter: "2 powi (?l - int p - 1) = q / 4"
    by (simp add: q_def E power_int_diff power_int_add)
  define m where "m = rhe (x / q)"
  have x: "x = of_int m * q"
    using rnd_exact [OF assms(1,3)] assms(2) by (simp add: rnd_def Let_def E_def q_def m_def)
  have "2 ^ (p - 1) \<le> x / q" "x / q < 2 ^ p" using ulp_scale [of x p] assms(2,3) by (simp_all add: E_def q_def)
  then have "(of_int (2 ^ (p - 1)) :: rat) \<le> of_int m" "(of_int m :: rat) < of_int (2 ^ p)" using q by (simp_all add: x)
  then have m: "2 ^ (p - 1) \<le> m" "m < 2 ^ p" unfolding of_int_le_iff of_int_less_iff by auto
  have l0: "2 powi ?l = of_int (2 ^ (p - 1)) * q"
    using assms(3) by (simp add: q_def E power_int_add [symmetric] flip: power_int_of_nat)
  have l1: "2 powi (?l + 1) = of_int (2 ^ p) * q"
    by (simp add: q_def E power_int_add [symmetric] flip: power_int_of_nat)
  have near: "\<bar>v - of_int m * q\<bar> < q / 4" using assms(4) quarter x by simp
  show ?thesis
  proof (cases "2 powi ?l \<le> v")
    case True
    have "(of_int (m + 1) :: rat) \<le> of_int (2 ^ p)" unfolding of_int_le_iff using m by linarith
    then have "of_int (m + 1) * q \<le> of_int (2 ^ p) * q" using q by (intro mult_right_mono) auto
    moreover have "v < of_int m * q + q / 4" using near by linarith
    moreover have "of_int (m + 1) * q = of_int m * q + q" by (simp add: distrib_right)
    ultimately have "v < 2 powi (?l + 1)" using q l1 by linarith
    then have "ilog 2 v = ?l" using True by (intro ilog_unique) auto
    moreover have "0 < v" using True two_powi_pos [of ?l] by linarith
    ultimately have e: "ulp_exp p v = E" by (simp add: ulp_exp_def E)
    have "\<bar>v / q - of_int m\<bar> = \<bar>v - of_int m * q\<bar> / q" using abs_scale [OF q] by simp
    then have "\<bar>v / q - of_int m\<bar> < 1 / 2" using near q by (simp add: pos_divide_less_eq)
    then have "rhe (v / q) = m" by (rule rhe_near)
    then show ?thesis using \<open>0 < v\<close> by (simp add: rnd_def Let_def e x flip: q_def)
  next
    case False
    have "of_int m * q < of_int (2 ^ (p - 1)) * q + q / 4" using False near l0 by linarith
    then have "(of_int m - of_int (2 ^ (p - 1))) * q < (1 / 4) * q" by (simp add: algebra_simps)
    then have "of_int m - of_int (2 ^ (p - 1)) < (1 / 4 :: rat)" using q mult_less_cancel_right_pos by blast
    then have m': "m = 2 ^ (p - 1)" using m(1) by linarith
    have xl: "x = 2 powi ?l" using x l0 m' by simp
    have half: "2 powi (?l - 1) = x / 2" by (subst (2) xl) (simp add: power_int_diff)
    have "q \<le> x" using x q m' by simp
    then have "2 powi (?l - 1) \<le> v" using near x half by linarith
    then have "ilog 2 v = ?l - 1" using False by (intro ilog_unique) auto
    moreover have "0 < v" using \<open>2 powi (?l - 1) \<le> v\<close> two_powi_pos [of "?l - 1"] by linarith
    ultimately have "ulp_exp p v = E - 1" by (simp add: ulp_exp_def E)
    then have e: "2 powi ulp_exp p v = q / 2" by (simp add: q_def power_int_diff)
    have "\<bar>v / (q / 2) - of_int (2 * m)\<bar> = \<bar>v - of_int m * q\<bar> / (q / 2)"
      using abs_scale [of "q / 2" v "of_int (2 * m)"] q by simp
    then have "\<bar>v / (q / 2) - of_int (2 * m)\<bar> < 1 / 2" using near q by (simp add: pos_divide_less_eq)
    then have "rhe (v / (q / 2)) = 2 * m" by (rule rhe_near)
    then show ?thesis using \<open>0 < v\<close> by (simp add: rnd_def Let_def e x)
  qed
qed

lemma dec_cand_sound: "dec_cand p x s = Some c \<Longrightarrow> rnd p (of_int c / 10 powi s) = x"
proof -
  assume c: "dec_cand p x s = Some c"
  let ?y = "x * 10 powi s"
  have "rhe ?y = \<lfloor>?y\<rfloor> \<or> rhe ?y = \<lfloor>?y\<rfloor> + 1" using rhe_bounds [of ?y] by linarith
  then show ?thesis using c by (auto simp: dec_cand_def Let_def split: if_splits)
qed

lemma dec_cand_nonneg: "dec_cand p x s = Some c \<Longrightarrow> 0 \<le> x \<Longrightarrow> 0 \<le> c"
proof -
  assume c: "dec_cand p x s = Some c" and x: "0 \<le> x"
  let ?y = "x * 10 powi s"
  have "0 \<le> ?y" using x by simp
  then have "0 \<le> \<lfloor>?y\<rfloor>" by (simp only: zero_le_floor)
  moreover have "c = rhe ?y \<or> c = \<lfloor>?y\<rfloor> \<or> c = \<lfloor>?y\<rfloor> + 1"
    using c by (simp only: dec_cand_def Let_def split: if_splits) auto
  ultimately show ?thesis using rhe_bounds [of ?y] by linarith
qed

lemma dec_cand_complete: "rnd p (of_int (rhe (x * 10 powi s)) / 10 powi s) = x \<Longrightarrow> dec_cand p x s \<noteq> None"
proof -
  assume r: "rnd p (of_int (rhe (x * 10 powi s)) / 10 powi s) = x"
  let ?y = "x * 10 powi s"
  have "rhe ?y = \<lfloor>?y\<rfloor> \<or> rhe ?y = \<lfloor>?y\<rfloor> + 1" using rhe_bounds [of ?y] by linarith
  then show ?thesis using r by (auto simp: dec_cand_def Let_def)
qed

lemma shortest_sound:
  "shortest p x fuel s = Some (c, t) \<Longrightarrow> rnd p (of_int c / 10 powi t) = x \<and> (0 \<le> x \<longrightarrow> 0 \<le> c)"
  by (induction p x fuel s rule: shortest.induct)
    (auto split: option.splits dest: dec_cand_sound dec_cand_nonneg)

lemma shortest_found:
  "dec_cand p x (s + int k) \<noteq> None \<Longrightarrow> k < fuel \<Longrightarrow> shortest p x fuel s \<noteq> None"
proof (induction fuel arbitrary: s k)
  case (Suc fuel)
  show ?case
  proof (cases k)
    case 0
    then show ?thesis using Suc.prems by (auto split: option.splits)
  next
    case (Suc j)
    then have "shortest p x fuel (s + 1) \<noteq> None" using Suc.IH [of "s + 1" j] Suc.prems by (simp add: algebra_simps)
    then show ?thesis by (auto split: option.splits)
  qed
qed simp

text \<open>\<open>p + 1\<close> digits are always enough at precision \<open>p\<close>, so the search never fails.\<close>

lemma shortest_enough:
  assumes "representable p x" "0 < x" "1 \<le> p"
  shows "shortest p x (p + 1) (- ilog 10 x) \<noteq> None"
proof (rule shortest_found [where k = p])
  let ?s = "- ilog 10 x + int p" and ?l = "ilog 2 x"
  let ?t = "(10 :: rat) powi ?s"
  have t: "0 < ?t" by simp
  have "\<bar>of_int (rhe (x * ?t)) - x * ?t\<bar> \<le> 1 / 2" by (rule rhe_error)
  then have "\<bar>of_int (rhe (x * ?t)) - x * ?t\<bar> / ?t \<le> (1 / 2) / ?t" using t by (intro divide_right_mono) auto
  moreover have "\<bar>of_int (rhe (x * ?t)) - x * ?t\<bar> / ?t = \<bar>of_int (rhe (x * ?t)) / ?t - x\<bar>"
    using t by (rule abs_scale)
  ultimately have err: "\<bar>of_int (rhe (x * ?t)) / ?t - x\<bar> \<le> (1 / 2) / ?t" by simp
  have "10 powi ilog 10 x \<le> x" using ilog_bounds [of x 10] assms(2) by simp
  moreover have "?t = 10 ^ p / 10 powi ilog 10 x" by (simp add: power_int_diff power_int_add power_int_minus divide_inverse)
  ultimately have "10 ^ p \<le> x * ?t" using assms(2) by (simp add: pos_le_divide_eq mult.commute)
  then have "1 / ?t \<le> x / 10 ^ p" using t by (simp add: field_simps)
  also have "x / 10 ^ p < 2 powi (?l + 1) / 10 ^ p"
    using ilog_bounds [of x 2] assms(2) by (intro divide_strict_right_mono) auto
  also have "\<dots> \<le> 2 powi (?l + 1) / 2 ^ (p + 1)"
  proof (intro divide_left_mono)
    have "2 * 1 \<le> 5 * (5 :: rat) ^ (p - 1)" by (intro mult_mono) auto
    then have "2 \<le> (5 :: rat) ^ p" using assms(3) by (cases p) auto
    then have "2 ^ p * 2 \<le> 2 ^ p * (5 :: rat) ^ p" by simp
    also have "\<dots> = 10 ^ p" by (simp flip: power_mult_distrib)
    finally show "(2 :: rat) ^ (p + 1) \<le> 10 ^ p" by simp
  qed auto
  also have "\<dots> = 2 * 2 powi (?l - int p - 1)" by (simp add: power_int_diff power_int_add)
  finally have "(1 / 2) / ?t < 2 powi (?l - int p - 1)" by simp
  with err have "\<bar>of_int (rhe (x * ?t)) / ?t - x\<bar> < 2 powi (?l - int p - 1)" by linarith
  then have "rnd p (of_int (rhe (x * ?t)) / ?t) = x" using assms by (intro rnd_near) auto
  then show "dec_cand p x (- ilog 10 x + int p) \<noteq> None" by (rule dec_cand_complete)
qed simp

lemma parse_scaled_text: "0 \<le> c \<Longrightarrow> parse_decimal (scaled_text c s) = Some (of_int c / 10 powi s)"
proof (cases "0 \<le> s")
  case True
  moreover assume "0 \<le> c"
  ultimately show ?thesis by (simp add: scaled_text_def parse_dec_text power_int_def)
next
  case False
  moreover assume "0 \<le> c"
  ultimately have "parse_decimal (scaled_text c s) = Some (of_int (c * 10 ^ nat (- s)))"
    unfolding scaled_text_def by (subst parse_decimal_dec [symmetric]) simp_all
  moreover have "(of_int (c * 10 ^ nat (- s)) :: rat) = of_int c / 10 powi s"
    using False by (simp add: power_int_def field_simps)
  ultimately show ?thesis by simp
qed

lemma pos_text_props:
  assumes "representable p x" "0 < x" "1 \<le> p"
  shows "\<exists>v. parse_decimal (pos_text p x) = Some v \<and> rnd p v = x"
    and "\<exists>d t. pos_text p x = d # t \<and> is_digit d"
proof -
  obtain c s where cs: "shortest p x (p + 1) (- ilog 10 x) = Some (c, s)"
    using shortest_enough [OF assms] by auto
  note sound = shortest_sound [OF cs]
  have t: "pos_text p x = scaled_text c s" unfolding pos_text_def cs by simp
  have c: "0 \<le> c" using sound assms(2) by simp
  show "\<exists>v. parse_decimal (pos_text p x) = Some v \<and> rnd p v = x"
    using sound c by (simp add: t parse_scaled_text)
  show "\<exists>d t. pos_text p x = d # t \<and> is_digit d"
    using dec_text_hd [of c "nat s"] dec_text_hd [of "c * 10 ^ nat (- s)" 0] c
    by (auto simp: t scaled_text_def dec_text_dec)
qed

lemma parse_decimal_minus:
  assumes "s = d # t" "is_digit d"
  shows "parse_decimal (CHR ''-'' # s) = map_option uminus (parse_decimal s)"
proof -
  have "scan_sign s = (False, s)" using assms digit_not_sign [of d] by (simp add: scan_sign_def)
  then show ?thesis by (auto simp: parse_decimal_def scan_sign_def Let_def option.map_comp comp_def split: prod.splits)
qed

lemma parse_decimal_0: "parse_decimal ''0'' = Some 0"
  by (simp add: parse_decimal_def scan_sign_def scan_digits_def scan_frac_def scan_exp_def is_digit_def
      parse_digits_def digit_val_def)

text \<open>What Text('f', -1) prints, SetString reads back.\<close>

lemma set_string_text_f:
  assumes "representable 64 x"
  shows "bf_set_string (bf_text_f 64 (Fin x)) = Some (Fin x)"
proof (cases x "0 :: rat" rule: linorder_cases)
  case equal
  then show ?thesis by (simp add: bf_text_f_def bf_set_string_def parse_decimal_0)
next
  case greater
  obtain v where v: "parse_decimal (pos_text 64 x) = Some v" "rnd 64 v = x"
    using pos_text_props(1) [OF assms greater] by auto
  obtain d t where dt: "pos_text 64 x = d # t" "is_digit d"
    using pos_text_props(2) [OF assms greater] by auto
  have "d \<noteq> CHR ''I''" "d \<noteq> CHR ''i''" "d \<noteq> CHR ''+''" "d \<noteq> CHR ''-''" using dt(2) by (auto simp: is_digit_def)
  then show ?thesis using greater v dt(1) by (simp add: bf_text_f_def bf_set_string_def)
next
  case less
  have r: "representable 64 (- x)"
    using assms unfolding representable_def by (metis abs_minus_cancel mult_minus_left of_int_minus)
  have less': "0 < - x" using less by simp
  obtain v where v: "parse_decimal (pos_text 64 (- x)) = Some v" "rnd 64 v = - x"
    using pos_text_props(1) [OF r less'] by auto
  obtain d t where dt: "pos_text 64 (- x) = d # t" "is_digit d"
    using pos_text_props(2) [OF r less'] by auto
  have "d \<noteq> CHR ''I''" "d \<noteq> CHR ''i''" using dt(2) by (auto simp: is_digit_def)
  then show ?thesis using less v dt by (simp add: bf_text_f_def bf_set_string_def parse_decimal_minus [OF refl dt(2)] rnd_minus)
qed

section \<open>Ten significant digits\<close>

text \<open>
  String of a big.Float, that is Text('g', 10): the value is rounded to ten significant decimal
  digits, trailing zeros are dropped, and an exponent form is used below \<open>10 ^ -4\<close> and from the
  tenth integer digit on. \<open>(c, e)\<close> stands for \<open>c * 10 ^ (e - 10)\<close> with a ten-digit \<open>c\<close>.
\<close>

definition round10 :: "rat \<Rightarrow> int \<times> int" where
  "round10 x =
     (let e = ilog 10 x + 1; c = rhe (x * 10 powi (10 - e))
      in if c = 10 ^ 10 then (10 ^ 9, e + 1) else (c, e))"

definition exp_text :: "int \<Rightarrow> string" where
  "exp_text n = (if n < 0 then ''e-'' else ''e+'') @ (if \<bar>n\<bar> < 10 then ''0'' else []) @ dec \<bar>n\<bar>"

definition pos_text_g10 :: "rat \<Rightarrow> string" where
  "pos_text_g10 x =
     (let (c, e) = round10 x; (m, k) = strip0 c 10;
          eprec = (if k < 10 \<and> e \<le> int k then int k else 10)
      in if e - 1 < - 4 \<or> eprec \<le> e - 1
         then (case frac_digits k m of [] \<Rightarrow> [] | d # ds \<Rightarrow> d # (if ds = [] then [] else CHR ''.'' # ds)) @ exp_text (e - 1)
         else scaled_text m (int k - e))"

definition bf_text_g10 :: "gonum \<Rightarrow> string" where
  "bf_text_g10 a = (case a of
     Fin x \<Rightarrow> if x = 0 then ''0'' else if x < 0 then CHR ''-'' # pos_text_g10 (- x) else pos_text_g10 x
   | PosInf \<Rightarrow> ''+Inf'' | NegInf \<Rightarrow> ''-Inf'' | NaN \<Rightarrow> [])"

section \<open>Amounts\<close>

text \<open>
  Powers of ten as float64, and what the printed amount \<open>raw / 10 ^ decimals\<close> still says about the
  raw integer once it has been read back and rounded to a float64.
\<close>

lemma ilog_nonneg: "1 \<le> x \<Longrightarrow> 0 \<le> ilog 2 x"
proof (rule ccontr)
  assume x: "1 \<le> x" and n: "\<not> 0 \<le> ilog 2 x"
  have "x < of_int 2 powi (ilog 2 x + 1)" using ilog_bounds [of x 2] x by auto
  also have "\<dots> \<le> of_int 2 powi 0" using n by (intro power_int_increasing) auto
  finally show False using x by simp
qed

lemma rnd_ge_1: "1 \<le> x \<Longrightarrow> 1 \<le> p \<Longrightarrow> 1 \<le> rnd p x"
  using rnd_mono [of 1 x p] rnd_of_int [of 1 p] by simp

lemma f64_round_ge_1: "1 \<le> x \<Longrightarrow> (\<exists>z \<ge> 1. f64_round x = Fin z) \<or> f64_round x = PosInf"
proof -
  assume x: "1 \<le> x"
  have r: "1 \<le> rnd 53 x" using rnd_ge_1 [OF x] by simp
  show ?thesis
  proof (cases "\<bar>rnd 53 x\<bar> < 2 ^ 1024")
    case True
    have "- 1022 \<le> ilog 2 \<bar>x\<bar>" using ilog_nonneg [of x] x by simp
    then show ?thesis using f64_round_rnd [OF _ True] r by auto
  next
    case False
    have "max (ilog 2 \<bar>x\<bar> - 52) (- 1074) = ulp_exp 53 x" using ilog_nonneg [of x] x by (auto simp: ulp_exp_def)
    then have "f64_round x = PosInf" using False x unfolding f64_round_def rnd_def Let_def by (auto split: if_splits)
    then show ?thesis by blast
  qed
qed

lemma pow10_ge_1: "0 \<le> d \<Longrightarrow> (\<exists>z \<ge> 1. pow10 d = Fin z) \<or> pow10 d = PosInf"
proof (cases "d \<le> 308")
  case True
  assume d: "0 \<le> d"
  let ?a = "f64_round (10 ^ (32 * nat (d div 32)))" and ?b = "f64_round (10 ^ nat (d mod 32))"
  have p: "pow10 d = f64_mul ?a ?b" using True d by (simp add: pow10_def)
  have a: "(\<exists>z \<ge> 1. ?a = Fin z) \<or> ?a = PosInf" and b: "(\<exists>z \<ge> 1. ?b = Fin z) \<or> ?b = PosInf"
    by (rule f64_round_ge_1, simp)+
  have "(\<exists>z \<ge> 1. mul_exact ?a ?b = Fin z) \<or> mul_exact ?a ?b = PosInf"
    using a b using mult_mono [of 1 _ 1] by (fastforce simp: mul_exact_def inf_of_sign_def gsgn_def)
  then show ?thesis using f64_round_ge_1 unfolding p f64_mul_def f64_def by (elim disjE exE conjE) simp_all
qed (simp add: pow10_def)

lemma f64_round_exact:
  assumes "1 \<le> x" "x < 2 ^ 1000" "representable 53 x"
  shows "f64_round x = Fin x"
proof -
  have "x < 2 ^ 1024" using assms(2) less_le_trans [of x "2 ^ 1000" "2 ^ 1024"] power_increasing [of 1000 1024 "2 :: rat"] by linarith
  then show ?thesis
    using f64_round_rnd [of x] ilog_nonneg [OF assms(1)] assms(1) rnd_exact [OF assms(3)] by simp
qed

lemma pow10_exact:
  assumes "0 \<le> d" "d \<le> 22"
  shows "pow10 d = Fin (10 ^ nat d)"
proof -
  let ?n = "nat d"
  have small: "10 ^ ?n < (2 ^ 1000 :: rat)"
  proof -
    have "(10 :: rat) ^ ?n \<le> 10 ^ 22" using assms by (intro power_increasing) auto
    also have "\<dots> < 2 ^ 80" by simp
    also have "\<dots> \<le> 2 ^ 1000" by (intro power_increasing) auto
    finally show ?thesis .
  qed
  have "(10 :: rat) ^ ?n = (5 * 2) ^ ?n" by simp
  also have "\<dots> = of_int (5 ^ ?n) * 2 powi int ?n" by (simp only: power_mult_distrib power_int_of_nat of_int_power of_int_numeral)
  finally have "(10 :: rat) ^ ?n = of_int (5 ^ ?n) * 2 powi int ?n" .
  moreover have "\<bar>5 ^ ?n\<bar> \<le> (2 ^ 53 :: int)"
  proof -
    have "(5 :: int) ^ ?n \<le> 5 ^ 22" using assms by (intro power_increasing) auto
    then show ?thesis by simp
  qed
  ultimately have "representable 53 (10 ^ ?n)" unfolding representable_def by blast
  then have a: "f64_round (10 ^ ?n) = Fin (10 ^ ?n)" using small by (intro f64_round_exact) auto
  have "representable 53 1" unfolding representable_def by (rule exI [of _ 1], rule exI [of _ 0]) simp
  then have one: "f64_round 1 = Fin 1" by (intro f64_round_exact) auto
  have "d div 32 = 0" "d mod 32 = d" using assms by auto
  then show ?thesis using assms a one by (simp add: pow10_def f64_mul_def mul_exact_def f64_def)
qed

text \<open>\<open>math.Pow10\<close> of the missing-decimals value -1 is a tenth, not zero: dividing by it never faults.\<close>

lemma pow10_minus_1: "\<exists>z > 0. pow10 (- 1) = Fin z"
proof -
  have "representable 53 1" "representable 53 10"
    unfolding representable_def by (rule exI [of _ 1], rule exI [of _ 0], simp) (rule exI [of _ 10], rule exI [of _ 0], simp)
  then have r: "f64_round 1 = Fin 1" "f64_round 10 = Fin 10"
    by (simp_all add: f64_round_exact less_le_trans [of "10 :: rat" "2 ^ 10" "2 ^ 1000"] power_increasing)
  have l: "ilog 2 (1 / 10) = - 4" by (rule ilog_unique) (simp_all add: power_int_def field_simps)
  have "rnd 53 (1 / 10) \<le> 1" using rnd_mono [of "1 / 10" 1 53] rnd_of_int [of 1 53] by simp
  moreover have p: "0 < rnd 53 (1 / 10)" by (rule rnd_pos) auto
  ultimately have "\<bar>rnd 53 (1 / 10)\<bar> < 2 ^ 1024" using less_le_trans [of 1 "2 ^ 1" "2 ^ 1024 :: rat"] by (simp add: power_increasing)
  then have "f64_round (1 / 10) = Fin (rnd 53 (1 / 10))" using l f64_round_rnd [of "1 / 10"] by simp
  moreover have "pow10 (- 1) = f64_round (1 / 10)"
    using r by (simp add: pow10_def f64_div_def quo_exact_def f64_def)
  ultimately show ?thesis using p by simp
qed

lemma pow10_usable: "- 1 \<le> d \<Longrightarrow> (\<exists>z > 0. pow10 d = Fin z) \<or> pow10 d = PosInf"
proof (cases "d = - 1")
  case False
  moreover assume "- 1 \<le> d"
  ultimately show ?thesis using pow10_ge_1 [of d] by (auto intro: less_le_trans [of 0 1])
qed (simp add: pow10_minus_1)

lemma bf_quo_usable: "(\<exists>z > 0. b = Fin z) \<or> b = PosInf \<Longrightarrow> \<exists>q. bf_quo p (Fin x) b = Inr (Fin q)"
  by (auto simp: bf_quo_def quo_exact_def)

text \<open>Code equations that avoid the range checks on the values that occur.\<close>

lemma f64_round_small:
  assumes "x \<noteq> 0" "ilog 2 \<bar>x\<bar> < 1000" "- 1022 \<le> ilog 2 \<bar>x\<bar>"
  shows "f64_round x = Fin (rnd 53 x)"
proof (rule f64_round_rnd)
  have "\<bar>rnd 53 x\<bar> = rnd 53 \<bar>x\<bar>"
    using rnd_sgn [of 53 x] rnd_minus [of 53 x] by (cases "0 \<le> x") auto
  also have "\<dots> \<le> 2 powi (ilog 2 \<bar>x\<bar> + 1)" using rnd_bounds [of "\<bar>x\<bar>" 53] assms(1) by simp
  also have "\<dots> \<le> 2 powi 1000" using assms(2) by (intro power_int_increasing) auto
  also have "\<dots> = 2 ^ 1000" by (simp only: power_int_numeral)
  also have "\<dots> < 2 ^ 1024" by (rule power_strict_increasing) simp_all
  finally show "\<bar>rnd 53 x\<bar> < 2 ^ 1024" .
qed (use assms in simp)

lemma f64_round_code [code]:
  "f64_round x = (if x = 0 then Fin 0 else
     let l = ilog 2 \<bar>x\<bar> in
     if l < 1000 \<and> - 1022 \<le> l then Fin (rnd 53 x) else
     let e = max (l - 52) (- 1074); r = of_int (rhe (x / 2 powi e)) * 2 powi e
     in if \<bar>r\<bar> < 2 ^ 1024 then Fin r else if 0 < x then PosInf else NegInf)"
proof (cases "x \<noteq> 0 \<and> ilog 2 \<bar>x\<bar> < 1000 \<and> - 1022 \<le> ilog 2 \<bar>x\<bar>")
  case True
  then show ?thesis using f64_round_small [of x] by (simp add: Let_def)
next
  case False
  then show ?thesis unfolding f64_round_def Let_def by (cases "x = 0") (simp_all only: simp_thms if_True if_False)
qed

lemma pow10_code [code]:
  "pow10 n =
     (if 0 \<le> n \<and> n \<le> 22 then Fin (10 ^ nat n)
      else if 0 \<le> n \<and> n \<le> 308 then
        f64_mul (f64_round (10 ^ (32 * nat (n div 32)))) (f64_round (10 ^ nat (n mod 32)))
      else if - 323 \<le> n \<and> n \<le> 0 then
        f64_div (f64_round (1 / 10 ^ (32 * nat (- n div 32)))) (f64_round (10 ^ nat (- n mod 32)))
      else if 0 < n then PosInf else Fin 0)"
  using pow10_exact [of n] by (simp add: pow10_def)

text \<open>
  An amount printed with 64 bits of precision and read back as a float64 still determines the raw
  integer amount.
\<close>

lemma double_rounding:
  assumes "0 \<le> x"
  shows "\<bar>rnd 53 (rnd 64 x) - x\<bar> \<le> x / 2 ^ 53 + x / 2 ^ 63"
proof -
  have a: "\<bar>rnd 64 x - x\<bar> \<le> x / 2 ^ 64" using rnd_error [of 64 x] assms by simp
  have b: "\<bar>rnd 53 (rnd 64 x) - rnd 64 x\<bar> \<le> \<bar>rnd 64 x\<bar> / 2 ^ 53" by (rule rnd_error) simp
  have "\<bar>rnd 64 x\<bar> \<le> x + x / 2 ^ 64" using a assms by linarith
  then have "\<bar>rnd 64 x\<bar> / 2 ^ 53 \<le> (x + x / 2 ^ 64) / 2 ^ 53" by (intro divide_right_mono) auto
  moreover have "(x + x / 2 ^ 64) / 2 ^ 53 + x / 2 ^ 64 \<le> x / 2 ^ 53 + x / 2 ^ 63" using assms by simp
  ultimately show ?thesis using a b by linarith
qed

lemma amount_recovered:
  assumes "0 \<le> n" "n \<le> 2 ^ 51"
  shows "rhe (rnd 53 (rnd 64 (of_int n / 10 ^ k)) * 10 ^ k) = n"
proof (rule rhe_near)
  let ?x = "of_int n / (10 :: rat) ^ k" and ?t = "(10 :: rat) ^ k"
  have t: "0 < ?t" by simp
  have x: "0 \<le> ?x" using assms by simp
  have "\<bar>rnd 53 (rnd 64 ?x) * ?t - of_int n\<bar> = \<bar>rnd 53 (rnd 64 ?x) - ?x\<bar> * ?t"
  proof -
    have "rnd 53 (rnd 64 ?x) * ?t - of_int n = (rnd 53 (rnd 64 ?x) - ?x) * ?t" by (simp add: left_diff_distrib)
    then show ?thesis by (simp only: abs_mult abs_of_pos [OF t])
  qed
  also have "\<dots> \<le> (?x / 2 ^ 53 + ?x / 2 ^ 63) * ?t" by (intro mult_right_mono double_rounding x) simp
  also have "\<dots> = of_int n / 2 ^ 53 + of_int n / 2 ^ 63" by (simp add: distrib_right)
  also have "\<dots> \<le> 2 ^ 51 / 2 ^ 53 + 2 ^ 51 / 2 ^ 63"
  proof -
    have "of_int n \<le> (of_int (2 ^ 51) :: rat)" using assms(2) by (simp only: of_int_le_iff)
    then have "of_int n \<le> (2 ^ 51 :: rat)" by simp
    then show ?thesis by (intro add_mono divide_right_mono) simp_all
  qed
  also have "\<dots> < (1 / 2 :: rat)" by simp
  finally show "\<bar>rnd 53 (rnd 64 ?x) * ?t - of_int n\<bar> < 1 / 2" .
qed
lemma amount_float:
  assumes "0 \<le> n" "n \<le> 2 ^ 51" "k \<le> 22"
  shows "bf_float64 (Fin (rnd 64 (of_int n / 10 ^ k))) = Fin (rnd 53 (rnd 64 (of_int n / 10 ^ k)))"
proof (cases "n = 0")
  case True
  then show ?thesis by (simp add: bf_float64_def f64_def f64_round_def)
next
  case False
  let ?q = "rnd 64 (of_int n / 10 ^ k)"
  have k: "(10 :: rat) ^ k \<le> 10 ^ 22" using assms(3) by (intro power_increasing) auto
  have n: "(1 :: rat) \<le> of_int n" "of_int n \<le> (of_int (2 ^ 51) :: rat)"
    using assms False by (simp_all only: of_int_le_iff of_int_1_le_iff)
  have "(2 :: rat) powi (- 80) \<le> 1 / 10 ^ 22" by (simp add: power_int_def field_simps)
  also have "\<dots> \<le> of_int n / 10 ^ k" using n k by (intro frac_le) auto
  finally have lo: "2 powi (- 80) \<le> of_int n / (10 :: rat) ^ k" .
  have "of_int n / 10 ^ k \<le> (of_int (2 ^ 51) / 1 :: rat)" using n k by (intro frac_le) auto
  then have hi: "of_int n / 10 ^ k \<le> (of_int (2 ^ 51) :: rat)" by simp
  have two: "rnd 64 (2 powi (- 80)) = 2 powi (- 80)"
  proof (rule rnd_exact)
    show "representable 64 (2 powi (- 80))"
      unfolding representable_def by (rule exI [of _ 1], rule exI [of _ "- 80"]) simp
  qed simp
  have q: "2 powi (- 80) \<le> ?q" "?q \<le> of_int (2 ^ 51)"
    using rnd_mono [OF lo, of 64] rnd_mono [OF hi, of 64] two rnd_of_int [of "2 ^ 51" 64] by simp_all
  have q0: "0 < ?q" using q(1) two_powi_pos [of "- 80"] by linarith
  have "- 80 \<le> ilog 2 ?q"
  proof (rule ccontr)
    assume "\<not> - 80 \<le> ilog 2 ?q"
    then have "(2 :: rat) powi (ilog 2 ?q + 1) \<le> 2 powi (- 80)" by (intro power_int_increasing) auto
    then show False using ilog_bounds [of ?q 2] q(1) q0 by simp
  qed
  moreover have "\<bar>rnd 53 ?q\<bar> < 2 ^ 1024"
  proof -
    have "rnd 53 ?q \<le> of_int (2 ^ 51)" using rnd_mono [OF q(2), of 53] rnd_of_int [of "2 ^ 51" 53] by simp
    moreover have "0 < rnd 53 ?q" using q0 by (rule rnd_pos) simp
    moreover have "(of_int (2 ^ 51) :: rat) < 2 ^ 1024" by (simp only: of_int_power of_int_numeral) (rule power_strict_increasing, simp_all)
    ultimately show ?thesis by linarith
  qed
  ultimately show ?thesis using q0 f64_round_rnd [of ?q] by (simp add: bf_float64_def f64_def)
qed

text \<open>A float64 is a fixed point of rounding to float64.\<close>

lemma f64_round_int:
  assumes "x \<noteq> 0" "x / 2 powi max (ilog 2 \<bar>x\<bar> - 52) (- 1074) = of_int k" "\<bar>x\<bar> < 2 ^ 1024"
  shows "f64_round x = Fin x"
proof -
  have "of_int k * 2 powi max (ilog 2 \<bar>x\<bar> - 52) (- 1074) = x" by (simp add: assms(2) [symmetric])
  then show ?thesis unfolding f64_round_def Let_def assms(2) rhe_of_int using assms(1,3) by simp
qed

lemma f64_round_fix: "f64_round x = Fin r \<Longrightarrow> f64_round r = Fin r"
proof (cases "x = 0")
  case True
  then show "f64_round x = Fin r \<Longrightarrow> f64_round r = Fin r" by (simp add: f64_round_def)
next
  case False
  assume fx: "f64_round x = Fin r"
  define e where "e = max (ilog 2 \<bar>x\<bar> - 52) (- 1074)"
  define m where "m = rhe (x / 2 powi e)"
  have r: "r = of_int m * 2 powi e" and r1024: "\<bar>r\<bar> < 2 ^ 1024"
    using fx False unfolding f64_round_def Let_def e_def [symmetric] m_def [symmetric] by (auto split: if_splits)
  have "\<bar>x\<bar> < 2 powi (ilog 2 \<bar>x\<bar> + 1)" using ilog_bounds [of "\<bar>x\<bar>" 2] False by simp
  also have "\<dots> \<le> 2 powi (53 + e)" unfolding e_def by (intro power_int_increasing) auto
  also have "\<dots> = 2 ^ 53 * 2 powi e" by (subst power_int_add) simp_all
  finally have "\<bar>x / 2 powi e\<bar> \<le> of_int (2 ^ 53)" by (simp add: abs_divide field_simps)
  then have "x / 2 powi e \<le> of_int (2 ^ 53)" "of_int (- (2 ^ 53)) \<le> x / 2 powi e"
    unfolding abs_le_iff by simp_all
  then have "m \<le> 2 ^ 53" "- (2 ^ 53) \<le> m" unfolding m_def using rhe_le rhe_ge by blast+
  then have m: "\<bar>m\<bar> \<le> 2 ^ 53" by linarith
  show "f64_round r = Fin r"
  proof (cases "m = 0")
    case True
    then show ?thesis using r by (simp add: f64_round_def)
  next
    case m0: False
    then have r0: "r \<noteq> 0" using r by simp
    define l where "l = ilog 2 \<bar>r\<bar>"
    define e' where "e' = max (l - 52) (- 1074)"
    have "\<exists>k. r / 2 powi e' = of_int k"
    proof (cases "e' \<le> e")
      case True
      have "r / 2 powi e' = of_int m * 2 powi (e - e')" using r by (simp add: power_int_diff)
      also have "\<dots> = of_int (m * 2 ^ nat (e - e'))" using True by (simp add: power_int_def)
      finally show ?thesis by blast
    next
      case False
      have l53: "e + 53 \<le> l" using False unfolding e'_def e_def by linarith
      have "2 powi (e + 53) \<le> (2 :: rat) powi l" using l53 by (intro power_int_increasing) auto
      also have "\<dots> \<le> \<bar>r\<bar>" using ilog_bounds [of "\<bar>r\<bar>" 2] r0 unfolding l_def by simp
      finally have "2 powi e * 2 ^ 53 \<le> \<bar>of_int m\<bar> * (2 powi e :: rat)"
        using r by (simp add: power_int_add abs_mult)
      then have "(2 ^ 53 :: rat) \<le> \<bar>of_int m\<bar>" by (simp add: mult.commute)
      then have "2 ^ 53 \<le> \<bar>m\<bar>" by (simp flip: of_int_abs)
      then have am: "\<bar>m\<bar> = 2 ^ 53" using m by simp
      then have ar: "\<bar>r\<bar> = 2 powi (e + 53)" using r by (simp add: abs_mult power_int_add flip: of_int_abs)
      have "l = e + 53" unfolding l_def ar by (rule ilog_unique) (simp_all add: power_int_strict_increasing)
      moreover have "- 1074 \<le> e" unfolding e_def by simp
      ultimately have "e' = e + 1" unfolding e'_def by simp
      then have "r / 2 powi e' = of_int m / 2" using r by (simp add: power_int_add)
      moreover have "m = 2 ^ 53 \<or> m = - (2 ^ 53)" using am by linarith
      ultimately have "r / 2 powi e' = of_int (2 ^ 52) \<or> r / 2 powi e' = of_int (- (2 ^ 52))" by (elim disjE) simp_all
      then show ?thesis by blast
    qed
    then obtain k where "r / 2 powi e' = of_int k" by blast
    then show ?thesis using f64_round_int [OF r0 _ r1024] unfolding e'_def l_def by blast
  qed
qed

lemma f64_idem: "f64 (f64 a) = f64 a"
proof (cases a)
  case (Fin x)
  then show ?thesis using f64_round_fix [of x] by (cases "f64_round x") (auto simp: f64_def)
qed (simp_all add: f64_def)

lemma f64_add_0: "f64_add (Fin 0) (f64 a) = f64 a"
proof -
  have "add_exact (Fin 0) b = b" for b by (cases b) simp_all
  then show ?thesis by (simp add: f64_add_def f64_idem)
qed

end
