(* ===== verification/ChainUtils.thy ===== *)
theory ChainUtils
  imports Instructions GoText
begin

text \<open>
  The account and program predicates of internal/solana/utils.go: the account list of a
  transaction, the shape checks on DEX instructions and the conversions of the block listener.
  Reading an account by an index that is not in the list panics, so the shape check is a
  computation that may fault; the lemmas say when it does not, and what a passed check gives.
\<close>

section \<open>Accounts\<close>

definition getAllAccountKeys :: "solana_tx \<Rightarrow> string list" where
  "getAllAccountKeys tx =
     (case tm_LogMessages (tx_Meta tx) of
        None \<Rightarrow> tx_static_keys tx
      | Some _ \<Rightarrow> tx_static_keys tx @ la_Writable (tm_LoadedAddresses (tx_Meta tx))
                   @ la_Readonly (tm_LoadedAddresses (tx_Meta tx)))"

definition validateTX :: "solana_tx \<Rightarrow> bool" where
  "validateTX tx = list_ex (\<lambda>key.
     key = PUMPFUN \<or> key = METEORA_DLMM_PROGRAM \<or> key = METEORA_POOLS_PROGRAM \<or>
     key = RAYDIUM_LIQ_POOL_V4 \<or> key = TOKEN_PROGRAM \<or> key = ORCA_WHIRL_PROGRAM_ID) (getAllAccountKeys tx)"

definition validateSupportedDex :: "string \<Rightarrow> bool" where
  "validateSupportedDex programId =
     (programId \<in> {PUMPFUN, METEORA_DLMM_PROGRAM, RAYDIUM_LIQ_POOL_V4, PUMPFUN_AMM,
        RAYDIUM_CONCENTRATED_LIQ, RAYDIUM_LAUNCHPAD, RAYDIUM_CPMM, ORCA_WHIRL_PROGRAM_ID})"

definition validateParentProgram :: "string \<Rightarrow> bool" where
  "validateParentProgram programId =
     (programId \<in> {PUMPFUN, METEORA_DLMM_PROGRAM, METEORA_POOLS_PROGRAM,
        RAYDIUM_LIQ_POOL_V4, RAYDIUM_CONCENTRATED_LIQ, RAYDIUM_CPMM, RAYDIUM_LAUNCHPAD,
        JUPITER_V6_AGGREGATOR, LIFINITY_SWAP_V2, PHOENIX, PUMPFUN_AMM,
        ORCA_WHIRL_PROGRAM_ID, ORCA_SWAP_V2, ORCA_SWAP})"

definition FindAccountKeyIndex :: "(string \<rightharpoonup> int) \<Rightarrow> string \<Rightarrow> int \<times> bool" where
  "FindAccountKeyIndex keyMap key = (case keyMap key of Some i \<Rightarrow> (i, True) | None \<Rightarrow> (- 1, False))"

section \<open>Shape of a DEX instruction\<close>

text \<open>\<open>keyIs accounts keys n p\<close> is \<open>accountKeys[accounts[n]] == p\<close>; \<open>&&\<close> and \<open>||\<close> are short-circuit.\<close>

definition keyIs :: "int list \<Rightarrow> string list \<Rightarrow> int \<Rightarrow> string \<Rightarrow> bool go" where
  "keyIs accounts accountKeys n p =
     go_bind (idx accounts n) (\<lambda>i. go_bind (idx accountKeys i) (\<lambda>k. Inr (k = p)))"

definition go_and :: "bool \<Rightarrow> bool go \<Rightarrow> bool go" where
  "go_and a b = (if a then b else Inr False)"

definition go_or :: "bool \<Rightarrow> bool go \<Rightarrow> bool go" where
  "go_or a b = (if a then Inr True else b)"

text \<open>A sequence of \<open>if ... { return true }\<close> that ends in \<open>return false\<close>.\<close>

fun go_any :: "bool go list \<Rightarrow> bool go" where
  "go_any [] = Inr False"
| "go_any (c # cs) = go_bind c (\<lambda>b. if b then Inr True else go_any cs)"

definition validateDexInstruction :: "string \<Rightarrow> int list \<Rightarrow> string list \<Rightarrow> bool go" where
  "validateDexInstruction program accounts accountKeys = go_any [
     go_and (program = ORCA_WHIRL_PROGRAM_ID)
       (go_or (length accounts = 15) (go_and (length accounts = 11) (keyIs accounts accountKeys 0 TOKEN_PROGRAM))),
     go_and (program = RAYDIUM_LIQ_POOL_V4)
       (go_or (length accounts = 18) (go_and (length accounts = 17) (keyIs accounts accountKeys 0 TOKEN_PROGRAM))),
     go_and (program = METEORA_DLMM_PROGRAM)
       (go_and (15 \<le> length accounts) (keyIs accounts accountKeys 14 METEORA_DLMM_PROGRAM)),
     go_and (program = PUMPFUN)
       (go_and (12 \<le> length accounts) (keyIs accounts accountKeys 11 PUMPFUN)),
     go_and (program = PUMPFUN_AMM)
       (go_and (17 \<le> length accounts) (keyIs accounts accountKeys 16 PUMPFUN_AMM)),
     go_and (program = RAYDIUM_CONCENTRATED_LIQ)
       (go_and (10 \<le> length accounts) (keyIs accounts accountKeys 8 TOKEN_PROGRAM)),
     go_and (program = RAYDIUM_CPMM) (Inr (length accounts = 13)),
     go_and (program = RAYDIUM_LAUNCHPAD)
       (go_and (15 \<le> length accounts) (keyIs accounts accountKeys 14 RAYDIUM_LAUNCHPAD)),
     go_and (program = PHOENIX)
       (go_and (9 \<le> length accounts)
         (go_bind (keyIs accounts accountKeys 8 TOKEN_PROGRAM) (\<lambda>b. go_and b (keyIs accounts accountKeys 0 PHOENIX)))),
     go_and (program = LIFINITY_SWAP_V2)
       (go_and (13 \<le> length accounts) (keyIs accounts accountKeys 9 TOKEN_PROGRAM))]"

section \<open>Amounts and conversions\<close>

text \<open>ABSValue: the absolute value of a decimal string; input that does not parse counts as 0.\<close>

fun gabs :: "gonum \<Rightarrow> gonum" where
  "gabs (Fin x) = Fin \<bar>x\<bar>"
| "gabs NegInf = PosInf"
| "gabs a = a"

definition ABSValue :: "string \<Rightarrow> string" where
  "ABSValue amount = bf_text_f 64 (gabs (case bf_set_string amount of Some v \<Rightarrow> v | None \<Rightarrow> bf_of_int 0))"

definition convertToIntSlice :: "byte list \<Rightarrow> int list" where
  "convertToIntSlice b = map uint b"

definition convertToBase58Strings :: "ext \<Rightarrow> byte list list \<Rightarrow> string list" where
  "convertToBase58Strings E byteArrays = map (b58_encode E) byteArrays"

section \<open>Lemmas\<close>

lemma FindAccountKeyIndex_found: "snd (FindAccountKeyIndex m k) \<longleftrightarrow> k \<in> dom m"
  by (auto simp: FindAccountKeyIndex_def split: option.splits)

text \<open>All account indices of an instruction are in range of the account list.\<close>

definition accounts_ok :: "string list \<Rightarrow> int list \<Rightarrow> bool" where
  "accounts_ok keys accounts \<longleftrightarrow> (\<forall>a \<in> set accounts. valid_ix keys a)"

lemma accounts_ok_nth: "accounts_ok keys accounts \<Longrightarrow> n < length accounts \<Longrightarrow> valid_ix keys (accounts ! n)"
  by (simp add: accounts_ok_def)

text \<open>The account behind position \<open>n\<close> of an instruction.\<close>

definition acct :: "string list \<Rightarrow> int list \<Rightarrow> nat \<Rightarrow> string" where
  "acct keys accounts n = keys ! nat (accounts ! n)"

lemma acct_read [simp]:
  "accounts_ok keys accounts \<Longrightarrow> n < length accounts \<Longrightarrow>
   go_bind (idx accounts (int n)) (\<lambda>i. go_bind (idx keys i) f) = f (acct keys accounts n)"
  using accounts_ok_nth [of keys accounts n] by (simp add: idx_def valid_ix_def acct_def)

lemma acct_read_numeral [simp]:
  "accounts_ok keys accounts \<Longrightarrow> numeral n < length accounts \<Longrightarrow>
   go_bind (idx accounts (numeral n)) (\<lambda>i. go_bind (idx keys i) f) = f (acct keys accounts (numeral n))"
  using acct_read [of keys accounts "numeral n" f] by simp

lemma acct_read_0 [simp]:
  "accounts_ok keys accounts \<Longrightarrow> 0 < length accounts \<Longrightarrow>
   go_bind (idx accounts 0) (\<lambda>i. go_bind (idx keys i) f) = f (acct keys accounts 0)"
  using acct_read [of keys accounts 0 f] by simp

lemma acct_read_1 [simp]:
  "accounts_ok keys accounts \<Longrightarrow> 1 < length accounts \<Longrightarrow>
   go_bind (idx accounts 1) (\<lambda>i. go_bind (idx keys i) f) = f (acct keys accounts 1)"
  using acct_read [of keys accounts 1 f] by simp

lemma acct_in: "accounts_ok keys accounts \<Longrightarrow> n < length accounts \<Longrightarrow> acct keys accounts n \<in> set keys"
  using accounts_ok_nth [of keys accounts n] by (auto simp: acct_def valid_ix_def nat_less_iff)

lemma go_and_simps [simp]: "go_and True b = b" "go_and False b = Inr False"
  by (simp_all add: go_and_def)

lemma go_or_simps [simp]: "go_or True b = Inr True" "go_or False b = b"
  by (simp_all add: go_or_def)

text \<open>The number of accounts a passed shape check guarantees.\<close>

definition dex_min_accounts :: "string \<Rightarrow> nat" where
  "dex_min_accounts p =
     (if p = ORCA_WHIRL_PROGRAM_ID then 11 else if p = RAYDIUM_LIQ_POOL_V4 then 17
      else if p = METEORA_DLMM_PROGRAM then 15 else if p = PUMPFUN then 12
      else if p = PUMPFUN_AMM then 17 else if p = RAYDIUM_CONCENTRATED_LIQ then 10
      else if p = RAYDIUM_CPMM then 13 else if p = RAYDIUM_LAUNCHPAD then 15
      else if p = PHOENIX then 9 else if p = LIFINITY_SWAP_V2 then 13 else 0)"

lemma go_and_ok: "go_and a b = Inr x \<longleftrightarrow> (if a then b = Inr x else \<not> x)"
  and go_and_ok_rev: "Inr x = go_and a b \<longleftrightarrow> (if a then b = Inr x else \<not> x)"
  by (auto simp: go_and_def)

lemma go_or_ok: "go_or a b = Inr x \<longleftrightarrow> (if a then x else b = Inr x)"
  and go_or_ok_rev: "Inr x = go_or a b \<longleftrightarrow> (if a then x else b = Inr x)"
  by (auto simp: go_or_def)

lemmas go_logic_ok = go_and_ok go_and_ok_rev go_or_ok go_or_ok_rev

lemma go_any_true: "go_any cs = Inr True \<Longrightarrow> \<exists>c \<in> set cs. c = Inr True"
  by (induction cs) (auto simp: go_bind_ok split: if_splits)

lemma go_any_ok: "\<forall>c \<in> set cs. ok c \<Longrightarrow> ok (go_any cs)"
  by (induction cs) (auto intro!: ok_bindI)

lemma ok_keyIs:
  "accounts_ok keys accounts \<Longrightarrow> 0 \<le> n \<Longrightarrow> n < int (length accounts) \<Longrightarrow> ok (keyIs accounts keys n p)"
  using accounts_ok_nth [of keys accounts "nat n"]
  by (auto simp: keyIs_def idx_def valid_ix_def nat_less_iff)

lemma ok_go_and: "(a \<Longrightarrow> ok b) \<Longrightarrow> ok (go_and a b)"
  by (auto simp: go_and_def)

lemma ok_go_or: "(\<not> a \<Longrightarrow> ok b) \<Longrightarrow> ok (go_or a b)"
  by (auto simp: go_or_def)

text \<open>With all account indices in range the shape check returns.\<close>

lemma ok_validateDexInstruction:
  "accounts_ok keys accounts \<Longrightarrow> ok (validateDexInstruction program accounts keys)"
  unfolding validateDexInstruction_def
  by (rule go_any_ok) (auto intro!: ok_go_and ok_go_or ok_keyIs ok_bindI)

lemma validateDexInstruction_min:
  "validateDexInstruction program accounts keys = Inr True \<Longrightarrow> dex_min_accounts program \<le> length accounts"
  unfolding validateDexInstruction_def
  by (drule go_any_true) (auto simp: go_logic_ok dex_min_accounts_def program_neq split: if_splits)

lemma validateDexInstruction_known:
  "validateDexInstruction program accounts keys = Inr True \<Longrightarrow>
   program \<in> {ORCA_WHIRL_PROGRAM_ID, RAYDIUM_LIQ_POOL_V4, METEORA_DLMM_PROGRAM, PUMPFUN, PUMPFUN_AMM,
     RAYDIUM_CONCENTRATED_LIQ, RAYDIUM_CPMM, RAYDIUM_LAUNCHPAD, PHOENIX, LIFINITY_SWAP_V2}"
  unfolding validateDexInstruction_def
  by (drule go_any_true) (auto simp: go_logic_ok split: if_splits)

lemma validateDexInstruction_nonempty:
  "validateDexInstruction program accounts keys = Inr True \<Longrightarrow> accounts \<noteq> []"
  using validateDexInstruction_min [of program accounts keys] validateDexInstruction_known [of program accounts keys]
  by (auto simp: dex_min_accounts_def program_neq)

end
