(* ===== verification/TxParser.thy ===== *)
theory TxParser
  imports ChainUtils
begin

text \<open>
  The transaction parser (internal/solana/txParser.go): balance differences, the user behind a
  token account, one instruction to a transfer, the DEX program an instruction runs under, and
  ParseTransaction, which walks the outer instructions and, behind each, its inner instructions.
\<close>

section \<open>Balances\<close>

definition post_diff :: "token_balance \<Rightarrow> sol_balance_diff" where
  "post_diff b = \<lparr>bd_Mint = tb_Mint b, bd_Decimals = ta_Decimals (tb_UITokenAmount b),
     bd_Amount = ta_UiAmountString (tb_UITokenAmount b), bd_Owner = tb_Owner b\<rparr>"

definition sub_pre :: "(int \<rightharpoonup> sol_balance_diff) \<Rightarrow> token_balance \<Rightarrow> (int \<rightharpoonup> sol_balance_diff) go" where
  "sub_pre m b =
     (case m (tb_AccountIndex b) of
        None \<Rightarrow> Inr m
      | Some swap \<Rightarrow>
          (case bf_set_string (bd_Amount swap) of
             None \<Rightarrow> Inr m
           | Some amount \<Rightarrow>
               (case bf_set_string (ta_UiAmountString (tb_UITokenAmount b)) of
                  None \<Rightarrow> Inr m
                | Some preAmount \<Rightarrow>
                    go_bind (bf_sub 64 amount preAmount) (\<lambda>d.
                      Inr (m(tb_AccountIndex b \<mapsto> swap\<lparr>bd_Amount := bf_text_g10 d\<rparr>))))))"

definition GetTokenBalanceDiffs :: "solana_tx \<Rightarrow> (int \<rightharpoonup> sol_balance_diff) go" where
  "GetTokenBalanceDiffs tx =
     go_fold sub_pre
       (foldl (\<lambda>m b. m(tb_AccountIndex b \<mapsto> post_diff b)) Map.empty (tm_PostTokenBalances (tx_Meta tx)))
       (tm_PreTokenBalances (tx_Meta tx))"

text \<open>
  The native differences: lamports are uint64, and int64(...) of the source is the two's
  complement reading of the same bits.
\<close>

definition native_post :: "64 word \<Rightarrow> sol_balance_diff" where
  "native_post w = \<lparr>bd_Mint = [], bd_Decimals = 9, bd_Amount = dec (uint w), bd_Owner = []\<rparr>"

definition native_sub :: "64 word list \<Rightarrow> (int \<rightharpoonup> sol_balance_diff) \<Rightarrow> nat \<times> 64 word \<Rightarrow> (int \<rightharpoonup> sol_balance_diff) go" where
  "native_sub posts m = (\<lambda>(i, pre).
     (case m (int i) of
        None \<Rightarrow> Inr m
      | Some swap \<Rightarrow>
          go_bind (idx posts (int i)) (\<lambda>post.
          go_bind (bf_sub 64 (bf_of_int (sint post)) (bf_of_int (sint pre))) (\<lambda>d.
            Inr (m(int i \<mapsto> swap\<lparr>bd_Amount := bf_text_f 64 d\<rparr>))))))"

definition GetNativeBalanceDiffs :: "solana_tx \<Rightarrow> (int \<rightharpoonup> sol_balance_diff) go" where
  "GetNativeBalanceDiffs tx =
     (let posts = tm_PostBalances (tx_Meta tx) in
      go_fold (native_sub posts)
        (foldl (\<lambda>m (i, w). m(int i \<mapsto> native_post w)) Map.empty (enumerate 0 posts))
        (enumerate 0 (tm_PreBalances (tx_Meta tx))))"

section \<open>Mints\<close>

definition balance_decimals :: "token_balance list \<Rightarrow> string \<Rightarrow> int option" where
  "balance_decimals bs mint =
     map_option (\<lambda>b. ta_Decimals (tb_UITokenAmount b)) (find (\<lambda>b. tb_Mint b = mint) bs)"

definition findMintInBalances :: "solana_tx \<Rightarrow> string \<Rightarrow> int" where
  "findMintInBalances tx mint =
     (case balance_decimals (tm_PostTokenBalances (tx_Meta tx)) mint of Some d \<Rightarrow> d | None \<Rightarrow> - 1)"

definition FindMintDecimals :: "solana_tx \<Rightarrow> string \<Rightarrow> int" where
  "FindMintDecimals tx mint =
     (case balance_decimals (tm_PostTokenBalances (tx_Meta tx)) mint of
        Some d \<Rightarrow> d
      | None \<Rightarrow>
          (case balance_decimals (tm_PreTokenBalances (tx_Meta tx)) mint of Some d \<Rightarrow> d | None \<Rightarrow> - 1))"

section \<open>The user behind a token account\<close>

text \<open>\<open>keyAt\<close> is \<open>accountKeys[ix.Accounts[n]]\<close>.\<close>

definition keyAt :: "string list \<Rightarrow> instruction \<Rightarrow> int \<Rightarrow> string go" where
  "keyAt accountKeys ix n = go_bind (idx (ix_Accounts ix) n) (idx accountKeys)"

definition account_too_big :: "string list \<Rightarrow> instruction \<Rightarrow> bool" where
  "account_too_big accountKeys ix = list_ex (\<lambda>a. int (length accountKeys) - 1 < a) (ix_Accounts ix)"

text \<open>
  The three program branches of findAccount in the source's order; a triple is
  (userAccount, mint, foundTokenAccount).
\<close>

definition ata_account :: "string list \<Rightarrow> instruction \<Rightarrow> (string \<times> string \<times> string) go" where
  "ata_account accountKeys ix =
     (if length (ix_Accounts ix) = 6 then
        go_bind (keyAt accountKeys ix 3) (\<lambda>mint.
        go_bind (keyAt accountKeys ix 1) (\<lambda>found.
        go_bind (keyAt accountKeys ix 0) (\<lambda>user. Inr (user, mint, found))))
      else Inr ([], [], []))"

definition token_account :: "ext \<Rightarrow> string list \<Rightarrow> instruction \<Rightarrow> string \<times> string \<times> string \<Rightarrow> (string \<times> string \<times> string) go" where
  "token_account E accountKeys ix acc =
     go_bind (DecodeTokenProgramData E (ix_Data ix)) (\<lambda>d.
       if tk_Type d = ''InitializeAccount3'' \<or> tk_Type d = ''InitializeAccount2'' then
         go_bind (keyAt accountKeys ix 0) (\<lambda>found.
         go_bind (keyAt accountKeys ix 1) (\<lambda>mint. Inr (key_string E (tk_Owner d), mint, found)))
       else if tk_Type d = ''InitializeAccount'' then
         go_bind (keyAt accountKeys ix 0) (\<lambda>found.
         go_bind (keyAt accountKeys ix 1) (\<lambda>mint.
         go_bind (keyAt accountKeys ix 2) (\<lambda>user. Inr (user, mint, found))))
       else if tk_Type d = ''CloseAccount'' then
         go_bind (keyAt accountKeys ix 0) (\<lambda>found.
         go_bind (keyAt accountKeys ix 2) (\<lambda>user. Inr (user, fst (snd acc), found)))
       else Inr acc)"

definition created_by :: "ext \<Rightarrow> string list \<Rightarrow> instruction \<Rightarrow> string \<Rightarrow> string option go" where
  "created_by E accountKeys ix tokenAccount =
     go_bind (DecodeSystemProgramData E (ix_Data ix)) (\<lambda>d.
       if sd_Type d = ''CreateAccount'' then
         go_bind (keyAt accountKeys ix 0) (\<lambda>source.
         go_bind (keyAt accountKeys ix 1) (\<lambda>newAccount.
           Inr (if newAccount = tokenAccount then Some source else None)))
       else Inr None)"

definition findAccount :: "ext \<Rightarrow> instruction \<Rightarrow> string \<Rightarrow> string list \<Rightarrow> (string \<times> string \<times> bool) go" where
  "findAccount E ix tokenAccount accountKeys =
     (if int (length accountKeys) - 1 < ix_ProgramIdIndex ix then Inr ([], [], False)
      else if account_too_big accountKeys ix then Inr ([], [], False)
      else
        go_bind (idx accountKeys (ix_ProgramIdIndex ix)) (\<lambda>programId.
        go_bind (if programId = ASSOCIATED_TOKEN_PROGRAM then ata_account accountKeys ix else Inr ([], [], [])) (\<lambda>acc.
        go_bind (if programId = TOKEN_PROGRAM then token_account E accountKeys ix acc else Inr acc) (\<lambda>(user, mint, found).
        go_bind (if programId = SYSTEM_PROGRAM then created_by E accountKeys ix tokenAccount else Inr None) (\<lambda>created.
          Inr (case created of
                 Some source \<Rightarrow> (source, [], True)
               | None \<Rightarrow> if found = tokenAccount then (user, mint, True) else ([], [], False)))))))"

text \<open>findUserAccount keeps the first non-empty user and mint it finds.\<close>

definition note_account :: "token_account_details \<times> bool \<Rightarrow> string \<times> string \<times> bool \<Rightarrow> token_account_details \<times> bool" where
  "note_account = (\<lambda>(info, foundInfo) (user, mint, found).
     if found then
       (let info = (if ad_UserAccount info = [] then info\<lparr>ad_UserAccount := user\<rparr> else info);
            info = (if ad_MintAddress info = [] then info\<lparr>ad_MintAddress := mint\<rparr> else info)
        in (info, True))
     else (info, foundInfo))"

definition scan_account ::
  "ext \<Rightarrow> string list \<Rightarrow> string \<Rightarrow> token_account_details \<times> bool \<Rightarrow> instruction \<Rightarrow> (token_account_details \<times> bool) go" where
  "scan_account E accountKeys tokenAccount st ix =
     go_bind (findAccount E ix tokenAccount accountKeys) (\<lambda>r. Inr (note_account st r))"

definition findUserAccount :: "ext \<Rightarrow> string \<Rightarrow> solana_tx \<Rightarrow> (token_account_details \<times> bool) go" where
  "findUserAccount E tokenAccount tx =
     (let accountKeys = getAllAccountKeys tx in
      go_bind
        (go_fold (\<lambda>st (i, ix).
            go_bind (scan_account E accountKeys tokenAccount st ix) (\<lambda>st.
              go_fold (\<lambda>st g.
                 if ii_Index g \<noteq> int i then Inr st
                 else go_fold (scan_account E accountKeys tokenAccount) st (ii_Instructions g))
                st (tx_inner tx)))
          (\<lparr>ad_UserAccount = [], ad_MintAddress = [], ad_Decimals = - 1\<rparr>, False)
          (enumerate 0 (tx_instructions tx)))
        (\<lambda>(info, foundInfo).
          let decimals = findMintInBalances tx (ad_MintAddress info) in
          Inr (if decimals \<noteq> - 1 then info\<lparr>ad_Decimals := decimals\<rparr> else info, foundInfo)))"

section \<open>One instruction\<close>

text \<open>The amount string of \<open>raw / scale\<close>, both as big.Float: 64 bits of precision.\<close>

definition amount_text :: "64 word \<Rightarrow> gonum \<Rightarrow> string go" where
  "amount_text raw scale = go_bind (bf_quo 64 (bf_of_int (uint raw)) scale) (\<lambda>q. Inr (bf_text_f 64 q))"

definition system_transfer ::
  "ext \<Rightarrow> string list \<Rightarrow> instruction \<Rightarrow> int \<Rightarrow> int \<Rightarrow> (sol_transfer \<times> bool) go" where
  "system_transfer E accountKeys ix innerIndex ixIndex =
     go_bind (DecodeSystemProgramData E (ix_Data ix)) (\<lambda>instructionData.
       if sd_Type instructionData \<noteq> ''Transfer'' then Inr (zero_transfer, False)
       else if account_too_big accountKeys ix then Inr (zero_transfer, False)
       else
         go_bind (keyAt accountKeys ix 0) (\<lambda>source.
         go_bind (keyAt accountKeys ix 1) (\<lambda>destination.
           if destination = [] \<or> source = [] then Inr (zero_transfer, False)
           else
             go_bind (amount_text (sd_Lamports instructionData) (bf_of_int (10 ^ 9))) (\<lambda>amount.
               if amount = [] then Inr (zero_transfer, False)
               else Inr (zero_transfer\<lparr>tr_IxIndex := ixIndex, tr_InnerIndex := innerIndex,
                      tr_ToUserAccount := destination, tr_FromUserAccount := source,
                      tr_Amount := amount, tr_Mint := WSOL, tr_Type := ''native''\<rparr>, True)))))"

text \<open>What the type of a token instruction says about its accounts; a missing one is the empty string.\<close>

record token_legs =
  lg_Source :: string
  lg_Mint :: string
  lg_Destination :: string
  lg_Authority :: string
  lg_Type :: string
  lg_Decimals :: int

definition token_legs_of :: "string list \<Rightarrow> instruction \<Rightarrow> token_program_data \<Rightarrow> token_legs option go" where
  "token_legs_of accountKeys ix d =
     (if tk_Type d = ''TransferChecked'' then
        go_bind (keyAt accountKeys ix 0) (\<lambda>source.
        go_bind (keyAt accountKeys ix 1) (\<lambda>mint.
        go_bind (keyAt accountKeys ix 2) (\<lambda>destination.
        go_bind (keyAt accountKeys ix 3) (\<lambda>authority.
          Inr (Some \<lparr>lg_Source = source, lg_Mint = mint, lg_Destination = destination,
                 lg_Authority = authority, lg_Type = ''token'', lg_Decimals = - 1\<rparr>)))))
      else if tk_Type d = ''Transfer'' then
        go_bind (keyAt accountKeys ix 0) (\<lambda>source.
        go_bind (keyAt accountKeys ix 1) (\<lambda>destination.
        go_bind (keyAt accountKeys ix 2) (\<lambda>authority.
          Inr (Some \<lparr>lg_Source = source, lg_Mint = [], lg_Destination = destination,
                 lg_Authority = authority, lg_Type = ''token'', lg_Decimals = tk_Decimals d\<rparr>))))
      else if tk_Type d = ''MintTo'' then
        go_bind (keyAt accountKeys ix 0) (\<lambda>mint.
        go_bind (keyAt accountKeys ix 1) (\<lambda>destination.
        go_bind (keyAt accountKeys ix 2) (\<lambda>authority.
          Inr (Some \<lparr>lg_Source = [], lg_Mint = mint, lg_Destination = destination,
                 lg_Authority = authority, lg_Type = ''mint'', lg_Decimals = - 1\<rparr>))))
      else if tk_Type d = ''Burn'' then
        go_bind (keyAt accountKeys ix 0) (\<lambda>source.
        go_bind (keyAt accountKeys ix 1) (\<lambda>mint.
        go_bind (keyAt accountKeys ix 2) (\<lambda>authority.
          Inr (Some \<lparr>lg_Source = source, lg_Mint = mint, lg_Destination = [],
                 lg_Authority = authority, lg_Type = ''burn'', lg_Decimals = - 1\<rparr>))))
      else Inr None)"

text \<open>
  The owners of the two token accounts: first from the balances, then from the accounts the
  transaction creates. A triple is (user, mint, decimals).
\<close>

definition source_user ::
  "ext \<Rightarrow> (string \<rightharpoonup> int) \<Rightarrow> (int \<rightharpoonup> sol_balance_diff) \<Rightarrow> solana_tx \<Rightarrow> token_legs \<Rightarrow> (string \<times> string \<times> int) go" where
  "source_user E keysMap bdiffs tx legs =
     (let (i, found) = FindAccountKeyIndex keysMap (lg_Source legs);
          owner = (if found then bd_Owner (map_get zero_diff bdiffs i) else [])
      in if owner \<noteq> [] then Inr (owner, lg_Mint legs, lg_Decimals legs)
         else
           go_bind (findUserAccount E (lg_Source legs) tx) (\<lambda>(info, foundInfo).
             if foundInfo then
               Inr (ad_UserAccount info, if lg_Mint legs = [] then ad_MintAddress info else lg_Mint legs, ad_Decimals info)
             else Inr ([], lg_Mint legs, lg_Decimals legs)))"

definition dest_user ::
  "ext \<Rightarrow> (string \<rightharpoonup> int) \<Rightarrow> (int \<rightharpoonup> sol_balance_diff) \<Rightarrow> solana_tx \<Rightarrow> string \<Rightarrow> string \<Rightarrow> int \<Rightarrow> (string \<times> string \<times> int) go" where
  "dest_user E keysMap bdiffs tx destination mint decimals =
     (let (i, found) = FindAccountKeyIndex keysMap destination;
          diff = map_get zero_diff bdiffs i
      in if found \<and> bd_Owner diff \<noteq> []
         then Inr (bd_Owner diff, if mint = [] then bd_Mint diff else mint, bd_Decimals diff)
         else
           go_bind (findUserAccount E destination tx) (\<lambda>(info, foundInfo).
             if foundInfo then
               Inr (ad_UserAccount info, if mint = [] then ad_MintAddress info else mint, ad_Decimals info)
             else Inr ([], mint, decimals)))"

definition token_transfer ::
  "ext \<Rightarrow> string list \<Rightarrow> (string \<rightharpoonup> int) \<Rightarrow> (int \<rightharpoonup> sol_balance_diff) \<Rightarrow> solana_tx \<Rightarrow> instruction \<Rightarrow> int \<Rightarrow> int
     \<Rightarrow> (sol_transfer \<times> bool) go" where
  "token_transfer E accountKeys keysMap bdiffs tx ix innerIndex ixIndex =
     (if account_too_big accountKeys ix then Inr (zero_transfer, False)
      else
        go_bind (DecodeTokenProgramData E (ix_Data ix)) (\<lambda>instructionData.
          if tk_Type instructionData = ''InitializeMint'' \<or> tk_Type instructionData = ''InitializeMint2'' then
            go_bind (keyAt accountKeys ix 0) (\<lambda>mint.
              Inr (zero_transfer\<lparr>tr_Type := ''initMint'', tr_Mint := mint, tr_Decimals := tk_Decimals instructionData\<rparr>, False))
          else
            go_bind (token_legs_of accountKeys ix instructionData) (\<lambda>legs_opt. case legs_opt of
              None \<Rightarrow> Inr (zero_transfer, False)
            | Some legs \<Rightarrow>
                go_bind (source_user E keysMap bdiffs tx legs) (\<lambda>(fromUserAccount, mint, decimals).
                go_bind (dest_user E keysMap bdiffs tx (lg_Destination legs) mint decimals) (\<lambda>(toUserAccount, mint, decimals).
                let decimals = (if decimals = - 1 then FindMintDecimals tx mint else decimals) in
                go_bind (amount_text (tk_Amount instructionData) (pow10 decimals)) (\<lambda>amount.
                  Inr (zero_transfer\<lparr>tr_IxIndex := ixIndex, tr_InnerIndex := innerIndex,
                         tr_ToUserAccount := toUserAccount, tr_ToTokenAccount := lg_Destination legs,
                         tr_FromTokenAccount := lg_Source legs, tr_FromUserAccount := fromUserAccount,
                         tr_Amount := amount, tr_Mint := mint, tr_Decimals := decimals,
                         tr_Type := lg_Type legs, tr_Authority := lg_Authority legs\<rparr>, True)))))))"

definition processInstruction ::
  "ext \<Rightarrow> instruction \<Rightarrow> (string \<rightharpoonup> int) \<Rightarrow> (int \<rightharpoonup> sol_balance_diff) \<Rightarrow> (int \<rightharpoonup> sol_balance_diff) \<Rightarrow> solana_tx \<Rightarrow> int \<Rightarrow> int
     \<Rightarrow> (sol_transfer \<times> bool) go" where
  "processInstruction E ix keysMap bdiffs nativeDiffs tx innerIndex ixIndex =
     (let accountKeys = getAllAccountKeys tx in
      if int (length accountKeys) - 1 < ix_ProgramIdIndex ix then Inr (zero_transfer, False)
      else
        go_bind (idx accountKeys (ix_ProgramIdIndex ix)) (\<lambda>programId.
          if programId = SYSTEM_PROGRAM then system_transfer E accountKeys ix innerIndex ixIndex
          else if programId = TOKEN_PROGRAM then token_transfer E accountKeys keysMap bdiffs tx ix innerIndex ixIndex
          else Inr (zero_transfer, False)))"

section \<open>The program an instruction runs under\<close>

text \<open>The backward walk over the preceding inner instructions, then the outer instruction.\<close>

fun first_parent :: "string list \<Rightarrow> instruction list \<Rightarrow> (string \<times> int list) option go" where
  "first_parent accountKeys [] = Inr None"
| "first_parent accountKeys (ix # ixs) =
     go_bind (idx accountKeys (ix_ProgramIdIndex ix)) (\<lambda>programId.
       if validateParentProgram programId then
         go_bind (validateDexInstruction programId (ix_Accounts ix) accountKeys) (\<lambda>valid.
           if valid then Inr (Some (programId, ix_Accounts ix)) else first_parent accountKeys ixs)
       else first_parent accountKeys ixs)"

definition findParentProgram :: "int \<Rightarrow> solana_tx \<Rightarrow> int \<Rightarrow> int \<Rightarrow> string list \<Rightarrow> (string \<times> int list) go" where
  "findParentProgram ixIndex tx innerIxIndex innerInstructionIxIndex accountKeys =
     go_bind
       (if 0 \<le> innerIxIndex \<and> 0 \<le> innerInstructionIxIndex then
          go_bind (idx (tx_inner tx) innerIxIndex) (\<lambda>g.
          go_bind (idx (ii_Instructions g) innerInstructionIxIndex) (\<lambda>_.
            first_parent accountKeys (rev (take (Suc (nat innerInstructionIxIndex)) (ii_Instructions g)))))
        else Inr None)
       (\<lambda>inner. case inner of
          Some r \<Rightarrow> Inr r
        | None \<Rightarrow>
            go_bind (idx (tx_instructions tx) ixIndex) (\<lambda>baseIx.
            go_bind (first_parent accountKeys [baseIx]) (\<lambda>r.
              Inr (case r of Some p \<Rightarrow> p | None \<Rightarrow> ([], [])))))"

text \<open>The data of the first PumpFun instruction from here on in the same inner list.\<close>

fun first_pumpfun :: "string list \<Rightarrow> instruction list \<Rightarrow> string go" where
  "first_pumpfun accountKeys [] = Inr []"
| "first_pumpfun accountKeys (ix # ixs) =
     go_bind (idx accountKeys (ix_ProgramIdIndex ix)) (\<lambda>programId.
       if programId = PUMPFUN then Inr (ix_Data ix) else first_pumpfun accountKeys ixs)"

definition findPumpFunSwapEvent :: "solana_tx \<Rightarrow> int \<Rightarrow> int \<Rightarrow> string list \<Rightarrow> string go" where
  "findPumpFunSwapEvent tx innerIxIndex innerInstructionIxIndex accountKeys =
     (if 0 \<le> innerIxIndex then
        go_bind (idx (tx_inner tx) innerIxIndex) (\<lambda>g.
        go_bind (slice_from (ii_Instructions g) innerInstructionIxIndex) (first_pumpfun accountKeys))
      else Inr [])"

fun first_metaplex :: "ext \<Rightarrow> string list \<Rightarrow> string \<Rightarrow> instruction list \<Rightarrow> metadata option go" where
  "first_metaplex E accountKeys mint [] = Inr None"
| "first_metaplex E accountKeys mint (ix # ixs) =
     go_bind (idx accountKeys (ix_ProgramIdIndex ix)) (\<lambda>programId.
       if programId = METAPLEX_TOKEN_METDATA \<and> 2 < length (ix_Accounts ix) then
         go_bind (keyAt accountKeys ix 1) (\<lambda>k.
           if k = mint then
             (case DecodeMetaplexData E (ix_Data ix) of
                None \<Rightarrow> first_metaplex E accountKeys mint ixs
              | Some md \<Rightarrow> Inr (Some md))
           else first_metaplex E accountKeys mint ixs)
       else first_metaplex E accountKeys mint ixs)"

definition findMetaplexInstruction :: "ext \<Rightarrow> solana_tx \<Rightarrow> string \<Rightarrow> metadata option go" where
  "findMetaplexInstruction E tx mint =
     first_metaplex E (getAllAccountKeys tx) mint
       (tx_instructions tx @ concat (map ii_Instructions (tx_inner tx)))"

section \<open>ParseTransaction\<close>

record parse_result =
  pr_transfers :: "sol_transfer list"
  pr_burns :: "sol_transfer list"
  pr_tokenMints :: "sol_transfer list"
  pr_tokensCreated :: "token list"

definition zero_time :: gotime where
  "zero_time = - 62135596800 * 10 ^ 9"

definition account_keys_map :: "string list \<Rightarrow> (string \<rightharpoonup> int)" where
  "account_keys_map keys = foldl (\<lambda>m (i, k). m(k \<mapsto> int i)) Map.empty (enumerate 0 keys)"

text \<open>Filing a processed instruction: a transfer with a non-zero amount, or a new mint.\<close>

definition add_transfer :: "parse_result \<Rightarrow> sol_transfer \<Rightarrow> parse_result" where
  "add_transfer r t =
     (if tr_Amount t \<noteq> [] \<and> tr_Amount t \<noteq> ''0'' then
        (let r = (if tr_Type t = ''burn'' then r\<lparr>pr_burns := pr_burns r @ [t]\<rparr>
                  else if tr_Type t = ''mint'' then r\<lparr>pr_tokenMints := pr_tokenMints r @ [t]\<rparr> else r)
         in r\<lparr>pr_transfers := pr_transfers r @ [t]\<rparr>)
      else r)"

definition add_token :: "ext \<Rightarrow> solana_tx \<Rightarrow> parse_result \<Rightarrow> sol_transfer \<Rightarrow> parse_result go" where
  "add_token E tx r p =
     (if tr_Type p = ''initMint'' then
        go_bind (findMetaplexInstruction E tx (tr_Mint p)) (\<lambda>md.
          let token = \<lparr>to_Name = [], to_Symbol = [], to_Decimals = word_of_int (tr_Decimals p), to_Address = tr_Mint p,
                to_Supply = ''0'', to_CreatedBlock = 0, to_Network = ''solana'', to_CreatedTimestamp = zero_time,
                to_Deployer = None, to_Metadata = None\<rparr>
          in Inr (r\<lparr>pr_tokensCreated := pr_tokensCreated r @
               [case md of None \<Rightarrow> token
                | Some m \<Rightarrow> token\<lparr>to_Metadata := Some (md_URI m), to_Name := md_Name m, to_Symbol := md_Symbol m\<rparr>]\<rparr>))
      else Inr r)"

definition parse_outer ::
  "ext \<Rightarrow> solana_tx \<Rightarrow> string list \<Rightarrow> (string \<rightharpoonup> int) \<Rightarrow> (int \<rightharpoonup> sol_balance_diff) \<Rightarrow> (int \<rightharpoonup> sol_balance_diff)
     \<Rightarrow> parse_result \<Rightarrow> nat \<Rightarrow> instruction \<Rightarrow> parse_result go" where
  "parse_outer E tx accountKeys keysMap bdiffs native r i ix =
     go_bind (processInstruction E ix keysMap bdiffs native tx (- 1) (int i)) (\<lambda>(p, found).
       if found then
         go_bind (findParentProgram (int i) tx (- 1) (- 1) accountKeys) (\<lambda>(program, accounts).
           Inr (add_transfer r (p\<lparr>tr_IxAccounts := accounts, tr_ParentProgramId := program\<rparr>)))
       else add_token E tx r p)"

definition parse_inner ::
  "ext \<Rightarrow> solana_tx \<Rightarrow> string list \<Rightarrow> (string \<rightharpoonup> int) \<Rightarrow> (int \<rightharpoonup> sol_balance_diff) \<Rightarrow> (int \<rightharpoonup> sol_balance_diff)
     \<Rightarrow> nat \<Rightarrow> nat \<Rightarrow> parse_result \<Rightarrow> nat \<times> instruction \<Rightarrow> parse_result go" where
  "parse_inner E tx accountKeys keysMap bdiffs native i gi r = (\<lambda>(k, ix).
     go_bind (processInstruction E ix keysMap bdiffs native tx (int i) (int k)) (\<lambda>(p, found).
       if found then
         go_bind (findParentProgram (int i) tx (int gi) (int k) accountKeys) (\<lambda>(program, accounts).
         go_bind (findPumpFunSwapEvent tx (int gi) (int k) accountKeys) (\<lambda>event.
           Inr (add_transfer r (p\<lparr>tr_IxAccounts := accounts, tr_ParentProgramId := program, tr_EventData := event\<rparr>))))
       else add_token E tx r p))"

definition parse_step ::
  "ext \<Rightarrow> solana_tx \<Rightarrow> string list \<Rightarrow> (string \<rightharpoonup> int) \<Rightarrow> (int \<rightharpoonup> sol_balance_diff) \<Rightarrow> (int \<rightharpoonup> sol_balance_diff)
     \<Rightarrow> parse_result \<Rightarrow> nat \<times> instruction \<Rightarrow> parse_result go" where
  "parse_step E tx accountKeys keysMap bdiffs native r = (\<lambda>(i, ix).
     go_bind (parse_outer E tx accountKeys keysMap bdiffs native r i ix) (\<lambda>r.
       go_fold (\<lambda>r (gi, g).
           if ii_Index g \<noteq> int i then Inr r
           else go_fold (parse_inner E tx accountKeys keysMap bdiffs native i gi) r (enumerate 0 (ii_Instructions g)))
         r (enumerate 0 (tx_inner tx))))"

definition ParseTransaction :: "ext \<Rightarrow> solana_tx \<Rightarrow> parse_result go" where
  "ParseTransaction E tx =
     (let accountKeys = getAllAccountKeys tx; keysMap = account_keys_map accountKeys in
      go_bind (GetTokenBalanceDiffs tx) (\<lambda>bdiffs.
      go_bind (GetNativeBalanceDiffs tx) (\<lambda>native.
        go_fold (parse_step E tx accountKeys keysMap bdiffs native)
          \<lparr>pr_transfers = [], pr_burns = [], pr_tokenMints = [], pr_tokensCreated = []\<rparr>
          (enumerate 0 (tx_instructions tx)))))"

section \<open>Well-formed transactions\<close>

text \<open>
  What a node guarantees of an executed transaction, as far as the parser depends on it: indices
  in range, decodable data behind the two programs it decodes, as many accounts as the instruction
  type takes, balances that are plain decimal numbers with a non-negative number of decimals.
\<close>

definition prog_of :: "string list \<Rightarrow> instruction \<Rightarrow> string" where
  "prog_of accountKeys ix = accountKeys ! nat (ix_ProgramIdIndex ix)"

definition token_arity :: "string \<Rightarrow> nat" where
  "token_arity ty =
     (if ty = ''TransferChecked'' then 4
      else if ty \<in> {''Transfer'', ''MintTo'', ''Burn'', ''InitializeAccount'', ''CloseAccount''} then 3
      else if ty \<in> {''InitializeAccount2'', ''InitializeAccount3''} then 2
      else if ty \<in> {''InitializeMint'', ''InitializeMint2''} then 1 else 0)"

definition system_arity :: "string \<Rightarrow> nat" where
  "system_arity ty = (if ty = ''Transfer'' \<or> ty = ''CreateAccount'' then 2 else 0)"

definition wf_ix :: "ext \<Rightarrow> string list \<Rightarrow> instruction \<Rightarrow> bool" where
  "wf_ix E accountKeys ix \<longleftrightarrow>
     valid_ix accountKeys (ix_ProgramIdIndex ix) \<and> accounts_ok accountKeys (ix_Accounts ix) \<and>
     (prog_of accountKeys ix = SYSTEM_PROGRAM \<longrightarrow>
        (case DecodeSystemProgramData E (ix_Data ix) of
           Inl _ \<Rightarrow> False | Inr d \<Rightarrow> system_arity (sd_Type d) \<le> length (ix_Accounts ix))) \<and>
     (prog_of accountKeys ix = TOKEN_PROGRAM \<longrightarrow>
        (case DecodeTokenProgramData E (ix_Data ix) of
           Inl _ \<Rightarrow> False | Inr d \<Rightarrow> token_arity (tk_Type d) \<le> length (ix_Accounts ix)))"

definition plain_amount :: "string \<Rightarrow> bool" where
  "plain_amount s \<longleftrightarrow> s \<notin> {''Inf'', ''inf'', ''+Inf'', ''+inf'', ''-Inf'', ''-inf''}"

definition wf_balance :: "token_balance \<Rightarrow> bool" where
  "wf_balance b \<longleftrightarrow> 0 \<le> ta_Decimals (tb_UITokenAmount b) \<and> plain_amount (ta_UiAmountString (tb_UITokenAmount b))"

definition wf_tx :: "ext \<Rightarrow> solana_tx \<Rightarrow> bool" where
  "wf_tx E tx \<longleftrightarrow>
     list_all (wf_ix E (getAllAccountKeys tx)) (tx_instructions tx) \<and>
     list_all (\<lambda>g. list_all (wf_ix E (getAllAccountKeys tx)) (ii_Instructions g)) (tx_inner tx) \<and>
     list_all wf_balance (tm_PostTokenBalances (tx_Meta tx)) \<and>
     list_all wf_balance (tm_PreTokenBalances (tx_Meta tx))"

lemma wf_tx_outer: "wf_tx E tx \<Longrightarrow> ix \<in> set (tx_instructions tx) \<Longrightarrow> wf_ix E (getAllAccountKeys tx) ix"
  and wf_tx_inner: "wf_tx E tx \<Longrightarrow> g \<in> set (tx_inner tx) \<Longrightarrow> ix \<in> set (ii_Instructions g) \<Longrightarrow>
        wf_ix E (getAllAccountKeys tx) ix"
  by (auto simp: wf_tx_def list_all_iff)

lemma wf_ix_prog: "wf_ix E keys ix \<Longrightarrow> idx keys (ix_ProgramIdIndex ix) = Inr (prog_of keys ix)"
  by (simp add: wf_ix_def idx_valid prog_of_def)

lemma wf_ix_in_range:
  assumes "wf_ix E keys ix"
  shows "\<not> int (length keys) - 1 < ix_ProgramIdIndex ix" "\<not> account_too_big keys ix"
  using assms by (auto simp: wf_ix_def valid_ix_def account_too_big_def accounts_ok_def list_ex_iff)

lemma ok_keyAt: "accounts_ok keys (ix_Accounts ix) \<Longrightarrow> 0 \<le> n \<Longrightarrow> n < int (length (ix_Accounts ix)) \<Longrightarrow> ok (keyAt keys ix n)"
  using accounts_ok_nth [of keys "ix_Accounts ix" "nat n"]
  by (auto simp: keyAt_def idx_def valid_ix_def nat_less_iff)

lemma keyAt_acct:
  "accounts_ok keys (ix_Accounts ix) \<Longrightarrow> n < length (ix_Accounts ix) \<Longrightarrow> keyAt keys ix (int n) = Inr (acct keys (ix_Accounts ix) n)"
  using accounts_ok_nth [of keys "ix_Accounts ix" n]
  by (auto simp: keyAt_def idx_def valid_ix_def nat_less_iff acct_def)

section \<open>Balances never fault\<close>

lemma digit_any: "d < 10 \<Longrightarrow> is_digit (digit d)"
  using digit_simps(2) [of d] by (cases "0 \<le> d") (simp_all add: digit_def is_digit_def)

lemma dec_digits: "c \<in> set (dec n) \<Longrightarrow> is_digit c"
proof (induction n rule: dec.induct)
  case (1 n)
  show ?case using 1 by (subst (asm) (2) dec.simps) (auto split: if_splits simp: digit_any)
qed

lemma frac_digits_digits: "c \<in> set (frac_digits k m) \<Longrightarrow> is_digit c"
  by (induction k arbitrary: m) (auto simp: digit_any)

lemma no_n: "CHR ''n'' \<notin> set (dec n)" "CHR ''n'' \<notin> set (frac_digits k m)"
  using dec_digits frac_digits_digits by (force simp: is_digit_def)+

lemma plain_no_n: "CHR ''n'' \<notin> set s \<Longrightarrow> plain_amount s"
  by (auto simp: plain_amount_def)

lemma text_parts_no_n:
  "CHR ''n'' \<notin> set (exp_text e)"
  "CHR ''n'' \<notin> set (scaled_text c k)"
  "CHR ''n'' \<notin> set (case frac_digits j m of [] \<Rightarrow> [] | d # ds \<Rightarrow> d # (if ds = [] then [] else CHR ''.'' # ds))"
proof -
  show "CHR ''n'' \<notin> set (exp_text e)" by (simp add: exp_text_def no_n)
  show "CHR ''n'' \<notin> set (scaled_text c k)"
    by (simp add: scaled_text_def dec_text_def no_n split: prod.splits)
  show "CHR ''n'' \<notin> set (case frac_digits j m of [] \<Rightarrow> [] | d # ds \<Rightarrow> d # (if ds = [] then [] else CHR ''.'' # ds))"
    using no_n(2) [of j m] by (cases "frac_digits j m") auto
qed

lemma pos_text_g10_no_n: "CHR ''n'' \<notin> set (pos_text_g10 x)"
proof -
  obtain c e where r: "round10 x = (c, e)" by fastforce
  obtain m k where st: "strip0 c 10 = (m, k)" by fastforce
  show ?thesis unfolding pos_text_g10_def Let_def r st prod.case
    by (simp only: set_append Un_iff text_parts_no_n simp_thms split: if_split)
qed

lemma text_g10_no_n: "CHR ''n'' \<notin> set (bf_text_g10 (Fin x))"
  by (simp add: bf_text_g10_def pos_text_g10_no_n)

lemma plain_not_inf: "plain_amount s \<Longrightarrow> bf_set_string s = Some v \<Longrightarrow> \<exists>x. v = Fin x"
  by (auto simp: plain_amount_def bf_set_string_def)

definition diffs_ok :: "(int \<rightharpoonup> sol_balance_diff) \<Rightarrow> bool" where
  "diffs_ok m \<longleftrightarrow> (\<forall>d \<in> ran m. 0 \<le> bd_Decimals d \<and> plain_amount (bd_Amount d))"

lemma diffs_ok_upd: "diffs_ok m \<Longrightarrow> 0 \<le> bd_Decimals d \<Longrightarrow> plain_amount (bd_Amount d) \<Longrightarrow> diffs_ok (m(k \<mapsto> d))"
  by (auto simp: diffs_ok_def ran_def)

lemma diffs_ok_get: "diffs_ok m \<Longrightarrow> m k = Some d \<Longrightarrow> 0 \<le> bd_Decimals d \<and> plain_amount (bd_Amount d)"
  by (auto simp: diffs_ok_def ran_def)

lemma post_diffs_ok:
  "list_all wf_balance bs \<Longrightarrow> diffs_ok m \<Longrightarrow> diffs_ok (foldl (\<lambda>m b. m(tb_AccountIndex b \<mapsto> post_diff b)) m bs)"
proof (induction bs arbitrary: m)
  case (Cons b bs)
  have "diffs_ok (m(tb_AccountIndex b \<mapsto> post_diff b))"
    using Cons.prems by (intro diffs_ok_upd) (auto simp: wf_balance_def post_diff_def)
  then show ?case using Cons by (simp del: fun_upd_apply)
qed simp

lemma sub_pre_ok:
  assumes m: "diffs_ok m" and b: "wf_balance b"
  shows "\<exists>m'. sub_pre m b = Inr m' \<and> diffs_ok m'"
proof (cases "m (tb_AccountIndex b)")
  case (Some swap)
  note g = diffs_ok_get [OF m Some]
  show ?thesis
  proof (cases "bf_set_string (bd_Amount swap)")
    case amount: (Some v)
    then obtain x where x: "v = Fin x" using plain_not_inf g by blast
    show ?thesis
    proof (cases "bf_set_string (ta_UiAmountString (tb_UITokenAmount b))")
      case pre: (Some w)
      then obtain y where y: "w = Fin y" using plain_not_inf b by (auto simp: wf_balance_def)
      show ?thesis using Some amount pre x y g m
        by (auto simp: sub_pre_def intro!: diffs_ok_upd plain_no_n simp: text_g10_no_n)
    qed (use Some amount m in \<open>simp add: sub_pre_def\<close>)
  qed (use Some m in \<open>simp add: sub_pre_def\<close>)
qed (use m in \<open>simp add: sub_pre_def\<close>)

lemma GetTokenBalanceDiffs_ok: "wf_tx E tx \<Longrightarrow> \<exists>m. GetTokenBalanceDiffs tx = Inr m \<and> diffs_ok m"
  unfolding GetTokenBalanceDiffs_def
proof (rule go_fold_ok [where P = diffs_ok])
  assume wf: "wf_tx E tx"
  show "diffs_ok (foldl (\<lambda>m b. m(tb_AccountIndex b \<mapsto> post_diff b)) Map.empty (tm_PostTokenBalances (tx_Meta tx)))"
    using wf by (intro post_diffs_ok) (auto simp: wf_tx_def diffs_ok_def)
  show "\<exists>m'. sub_pre m b = Inr m' \<and> diffs_ok m'"
    if "diffs_ok m" "b \<in> set (tm_PreTokenBalances (tx_Meta tx))" for m b
    using wf that by (intro sub_pre_ok) (auto simp: wf_tx_def list_all_iff)
qed

lemma native_post_dom:
  "foldl (\<lambda>m (i, w). m(int i \<mapsto> native_post w)) m (enumerate n ws) (int i) \<noteq> None \<Longrightarrow>
     m (int i) \<noteq> None \<or> n \<le> i \<and> i < n + length ws"
  by (induction ws arbitrary: m n) (fastforce split: if_splits)+

lemma GetNativeBalanceDiffs_ok: "ok (GetNativeBalanceDiffs tx)"
proof -
  let ?posts = "tm_PostBalances (tx_Meta tx)"
  let ?P = "\<lambda>m :: int \<rightharpoonup> sol_balance_diff. \<forall>i. m (int i) \<noteq> None \<longrightarrow> i < length ?posts"
  have "\<exists>m. GetNativeBalanceDiffs tx = Inr m \<and> ?P m"
    unfolding GetNativeBalanceDiffs_def Let_def
  proof (rule go_fold_ok)
    show "?P (foldl (\<lambda>m (i, w). m(int i \<mapsto> native_post w)) Map.empty (enumerate 0 ?posts))"
      using native_post_dom [of Map.empty 0 ?posts] by auto
    show "\<exists>m'. native_sub ?posts m x = Inr m' \<and> ?P m'" if "?P m" for m x
      using that by (cases x) (auto simp: native_sub_def bf_of_int_def split: option.splits)
  qed
  then show ?thesis by (auto simp: ok_conv)
qed

section \<open>The parser never faults on a well-formed transaction\<close>

lemma ok_ata_account: "accounts_ok keys (ix_Accounts ix) \<Longrightarrow> ok (ata_account keys ix)"
  by (auto simp: ata_account_def intro!: ok_bindI ok_keyAt)

lemma ok_token_account:
  "wf_ix E keys ix \<Longrightarrow> prog_of keys ix = TOKEN_PROGRAM \<Longrightarrow> ok (token_account E keys ix acc)"
  by (auto simp: token_account_def wf_ix_def token_arity_def split: sum.splits if_splits intro!: ok_bindI ok_keyAt)

lemma ok_created_by:
  "wf_ix E keys ix \<Longrightarrow> prog_of keys ix = SYSTEM_PROGRAM \<Longrightarrow> ok (created_by E keys ix a)"
  by (auto simp: created_by_def wf_ix_def system_arity_def split: sum.splits if_splits intro!: ok_bindI ok_keyAt)

lemma ok_findAccount: "wf_ix E keys ix \<Longrightarrow> ok (findAccount E ix a keys)"
proof -
  assume wf: "wf_ix E keys ix"
  then have acc: "accounts_ok keys (ix_Accounts ix)" by (simp add: wf_ix_def)
  show ?thesis using wf_ix_in_range [OF wf] wf_ix_prog [OF wf]
    by (auto simp: findAccount_def intro!: ok_bindI ok_ata_account [OF acc] ok_token_account [OF wf] ok_created_by [OF wf])
qed

lemma ok_scan_account: "wf_ix E keys ix \<Longrightarrow> ok (scan_account E keys a st ix)"
  by (auto simp: scan_account_def intro!: ok_bindI ok_findAccount)

lemma go_fold_ok_all: "(\<And>s x. x \<in> set xs \<Longrightarrow> ok (f s x)) \<Longrightarrow> ok (go_fold f s xs)"
  using go_fold_ok [where P = "\<lambda>_. True" and f = f and xs = xs] by (auto simp: ok_conv)

lemma in_enumerate: "(i, x) \<in> set (enumerate n xs) \<Longrightarrow> x \<in> set xs"
  by (metis enumerate_eq_zip set_zip_rightD)

lemma balance_decimals_nonneg:
  "list_all wf_balance bs \<Longrightarrow> balance_decimals bs mint = Some d \<Longrightarrow> 0 \<le> d"
  by (induction bs) (auto simp: balance_decimals_def wf_balance_def split: if_splits)

lemma decimals_of_balances:
  assumes "wf_tx E tx"
  shows "- 1 \<le> findMintInBalances tx mint" "- 1 \<le> FindMintDecimals tx mint"
  using assms balance_decimals_nonneg unfolding wf_tx_def findMintInBalances_def FindMintDecimals_def
  by (fastforce split: option.splits)+

lemma findUserAccount_ok:
  assumes wf: "wf_tx E tx"
  shows "\<exists>info found. findUserAccount E a tx = Inr (info, found) \<and> - 1 \<le> ad_Decimals info"
proof -
  let ?init = "(\<lparr>ad_UserAccount = [], ad_MintAddress = [], ad_Decimals = - 1\<rparr>, False)"
  let ?P = "\<lambda>st :: token_account_details \<times> bool. ad_Decimals (fst st) = - 1"
  let ?keys = "getAllAccountKeys tx"
  have scan: "\<exists>t. scan_account E ?keys a st ix = Inr t \<and> ?P t" if wf_ix: "wf_ix E ?keys ix" and st: "?P st" for st ix
  proof -
    obtain r where "findAccount E ix a ?keys = Inr r" using ok_findAccount [OF wf_ix, of a] unfolding ok_conv by blast
    then show ?thesis using st
      by (cases st; cases r) (auto simp: scan_account_def note_account_def Let_def)
  qed
  have "\<exists>st. go_fold (\<lambda>st (i, ix).
            go_bind (scan_account E ?keys a st ix) (\<lambda>st.
              go_fold (\<lambda>st g.
                 if ii_Index g \<noteq> int i then Inr st
                 else go_fold (scan_account E ?keys a) st (ii_Instructions g))
                st (tx_inner tx))) ?init (enumerate 0 (tx_instructions tx)) = Inr st \<and> ?P st"
  proof (rule go_fold_ok)
    fix st x assume st: "?P st" and x: "x \<in> set (enumerate 0 (tx_instructions tx))"
    obtain i ix where xi: "x = (i, ix)" by (rule prod.exhaust)
    have ix: "x = (i, ix)" "wf_ix E ?keys ix"
      using xi in_enumerate [of i ix 0] x wf_tx_outer [OF wf, of ix] by simp_all
    obtain t where t: "scan_account E ?keys a st ix = Inr t" "?P t" using scan [OF ix(2) st] by blast
    have "\<exists>u. go_fold (\<lambda>st g. if ii_Index g \<noteq> int i then Inr st
                 else go_fold (scan_account E ?keys a) st (ii_Instructions g)) t (tx_inner tx) = Inr u \<and> ?P u"
    proof (rule go_fold_ok [where P = ?P, OF t(2)])
      fix v g assume v: "?P v" and g: "g \<in> set (tx_inner tx)"
      show "\<exists>v'. (if ii_Index g \<noteq> int i then Inr v
                 else go_fold (scan_account E ?keys a) v (ii_Instructions g)) = Inr v' \<and> ?P v'"
      proof (cases "ii_Index g = int i")
        case True
        have "\<exists>v'. go_fold (scan_account E ?keys a) v (ii_Instructions g) = Inr v' \<and> ?P v'"
          by (rule go_fold_ok [where P = ?P, OF v]) (rule scan [OF wf_tx_inner [OF wf g]])
        then show ?thesis using True by simp
      qed (use v in \<open>cases v, simp\<close>)
    qed
    then show "\<exists>u. (case x of (i, ix) \<Rightarrow> go_bind (scan_account E ?keys a st ix) (\<lambda>st.
              go_fold (\<lambda>st g.
                 if ii_Index g \<noteq> int i then Inr st
                 else go_fold (scan_account E ?keys a) st (ii_Instructions g)) st (tx_inner tx))) = Inr u \<and> ?P u"
      using ix(1) t(1) by simp
  qed simp
  then show ?thesis using decimals_of_balances(1) [OF wf]
    by (auto simp: findUserAccount_def Let_def)
qed

lemma amount_text_ok: "- 1 \<le> d \<Longrightarrow> ok (amount_text w (pow10 d))"
  using bf_quo_usable [OF pow10_usable, of d 64 "of_int (uint w)"]
  by (auto simp: amount_text_def bf_of_int_def)

lemma ok_system_transfer:
  "wf_ix E keys ix \<Longrightarrow> prog_of keys ix = SYSTEM_PROGRAM \<Longrightarrow> ok (system_transfer E keys ix a b)"
  by (auto simp: system_transfer_def wf_ix_def system_arity_def amount_text_def bf_of_int_def
      split: sum.splits if_splits intro!: ok_bindI ok_keyAt)

lemma token_legs_of_ok:
  assumes "accounts_ok keys (ix_Accounts ix)" "token_arity (tk_Type d) \<le> length (ix_Accounts ix)"
  shows "ok (token_legs_of keys ix d)"
  using assms by (auto simp: token_legs_of_def token_arity_def intro!: ok_bindI ok_keyAt)

lemma token_legs_of_decimals:
  "token_legs_of keys ix d = Inr (Some legs) \<Longrightarrow> 0 \<le> tk_Decimals d \<Longrightarrow> - 1 \<le> lg_Decimals legs"
  by (auto simp: token_legs_of_def ok_iff split: if_splits)

lemma source_user_ok:
  assumes "wf_tx E tx" "- 1 \<le> lg_Decimals legs"
  shows "\<exists>user mint d. source_user E km bdiffs tx legs = Inr (user, mint, d) \<and> - 1 \<le> d"
  using findUserAccount_ok [OF assms(1), of "lg_Source legs"] assms(2)
  by (auto simp: source_user_def Let_def split: prod.splits)

lemma dest_user_ok:
  assumes "wf_tx E tx" "- 1 \<le> d" "diffs_ok bdiffs"
  shows "\<exists>user mint' d'. dest_user E km bdiffs tx a mint d = Inr (user, mint', d') \<and> - 1 \<le> d'"
proof -
  have "- 1 \<le> bd_Decimals (map_get zero_diff bdiffs i)" for i
    using assms(3) diffs_ok_get [of bdiffs i] by (auto simp: map_get_def zero_diff_def split: option.splits)
  then show ?thesis
    using findUserAccount_ok [OF assms(1), of a] assms(2)
    by (auto simp: dest_user_def Let_def split: prod.splits)
qed

lemma ok_token_transfer:
  assumes tx: "wf_tx E tx" and ix: "wf_ix E keys ix" "prog_of keys ix = TOKEN_PROGRAM" and b: "diffs_ok bdiffs"
  shows "ok (token_transfer E keys km bdiffs tx ix i k)"
proof -
  have acc: "accounts_ok keys (ix_Accounts ix)" using ix by (simp add: wf_ix_def)
  obtain d where d: "DecodeTokenProgramData E (ix_Data ix) = Inr d" "token_arity (tk_Type d) \<le> length (ix_Accounts ix)"
    using ix by (auto simp: wf_ix_def split: sum.splits)
  obtain l where l: "token_legs_of keys ix d = Inr l" using token_legs_of_ok [OF acc d(2)] unfolding ok_conv by blast
  show ?thesis
  proof (cases l)
    case None
    then show ?thesis using d l acc wf_ix_in_range [OF ix(1)]
      by (auto simp: token_transfer_def token_arity_def intro!: ok_bindI ok_keyAt)
  next
    case (Some legs)
    have "- 1 \<le> lg_Decimals legs" using l Some token_legs_of_decimals token_decimals_nonneg [OF d(1)] by blast
    then obtain u m e where s: "source_user E km bdiffs tx legs = Inr (u, m, e)" "- 1 \<le> e"
      using source_user_ok [OF tx] by blast
    obtain u' m' e' where t: "dest_user E km bdiffs tx (lg_Destination legs) m e = Inr (u', m', e')" "- 1 \<le> e'"
      using dest_user_ok [OF tx s(2) b] by blast
    have "- 1 \<le> (if e' = - 1 then FindMintDecimals tx m' else e')" using t(2) decimals_of_balances(2) [OF tx] by simp
    then show ?thesis using d l Some s t acc wf_ix_in_range [OF ix(1)]
      by (auto simp: token_transfer_def token_arity_def Let_def amount_text_ok intro!: ok_bindI ok_keyAt)
  qed
qed

lemma ok_processInstruction:
  assumes "wf_tx E tx" "wf_ix E (getAllAccountKeys tx) ix" "diffs_ok bdiffs"
  shows "ok (processInstruction E ix km bdiffs native tx i k)"
  using assms wf_ix_in_range [OF assms(2)] wf_ix_prog [OF assms(2)]
  by (auto simp: processInstruction_def Let_def ok_system_transfer ok_token_transfer)

text \<open>An instruction that names a DEX program and has the account shape of a swap.\<close>

definition is_parent :: "string list \<Rightarrow> instruction \<Rightarrow> bool" where
  "is_parent keys ix \<longleftrightarrow>
     validateParentProgram (prog_of keys ix) \<and>
     validateDexInstruction (prog_of keys ix) (ix_Accounts ix) keys = Inr True"

definition parent_of :: "string list \<Rightarrow> instruction option \<Rightarrow> string \<times> int list" where
  "parent_of keys ix_opt = (case ix_opt of None \<Rightarrow> ([], []) | Some ix \<Rightarrow> (prog_of keys ix, ix_Accounts ix))"

lemma validateDex_value: "wf_ix E keys ix \<Longrightarrow> \<exists>b. validateDexInstruction p (ix_Accounts ix) keys = Inr b"
  using ok_validateDexInstruction [of keys "ix_Accounts ix" p] by (auto simp: wf_ix_def ok_conv)

lemma first_parent_find:
  "list_all (wf_ix E keys) ixs \<Longrightarrow>
   first_parent keys ixs = Inr (map_option (\<lambda>ix. (prog_of keys ix, ix_Accounts ix)) (find (is_parent keys) ixs))"
proof (induction ixs)
  case (Cons ix ixs)
  then obtain b where "validateDexInstruction (prog_of keys ix) (ix_Accounts ix) keys = Inr b"
    using validateDex_value [of E keys ix "prog_of keys ix"] by auto
  then show ?case using Cons wf_ix_prog [of E keys ix] by (auto simp: is_parent_def)
qed simp

text \<open>The instructions findParentProgram looks at, nearest first.\<close>

definition candidates :: "solana_tx \<Rightarrow> nat \<Rightarrow> (nat \<times> nat) option \<Rightarrow> instruction list" where
  "candidates tx i inner =
     (case inner of None \<Rightarrow> []
      | Some (gi, k) \<Rightarrow> rev (take (Suc k) (ii_Instructions (tx_inner tx ! gi)))) @ [tx_instructions tx ! i]"

lemma find_append: "find P (xs @ ys) = (case find P xs of None \<Rightarrow> find P ys | Some x \<Rightarrow> Some x)"
  by (induction xs) auto

lemma findParentProgram_outer:
  assumes "wf_tx E tx" "i < length (tx_instructions tx)"
  shows "findParentProgram (int i) tx (- 1) (- 1) (getAllAccountKeys tx) =
     Inr (parent_of (getAllAccountKeys tx) (find (is_parent (getAllAccountKeys tx)) (candidates tx i None)))"
  using assms wf_tx_outer [OF assms(1) nth_mem [OF assms(2)]]
  by (auto simp: findParentProgram_def candidates_def parent_of_def first_parent_find
      simp del: first_parent.simps split: option.splits)

lemma findParentProgram_inner:
  assumes "wf_tx E tx" "i < length (tx_instructions tx)" "gi < length (tx_inner tx)"
    and "k < length (ii_Instructions (tx_inner tx ! gi))"
  shows "findParentProgram (int i) tx (int gi) (int k) (getAllAccountKeys tx) =
     Inr (parent_of (getAllAccountKeys tx) (find (is_parent (getAllAccountKeys tx)) (candidates tx i (Some (gi, k)))))"
proof -
  let ?keys = "getAllAccountKeys tx" and ?ixs = "ii_Instructions (tx_inner tx ! gi)"
  have "list_all (wf_ix E ?keys) (rev (take (Suc k) ?ixs))"
    using wf_tx_inner [OF assms(1) nth_mem [OF assms(3)]] by (auto simp: list_all_iff dest: in_set_takeD)
  moreover have "list_all (wf_ix E ?keys) [tx_instructions tx ! i]"
    using wf_tx_outer [OF assms(1) nth_mem [OF assms(2)]] by simp
  ultimately show ?thesis using assms
    by (auto simp: findParentProgram_def candidates_def parent_of_def first_parent_find find_append
        simp del: first_parent.simps take_Suc_conv_app_nth split: option.splits)
qed

text \<open>What findParentProgram attaches to a transfer: nothing, or a swap-shaped DEX instruction.\<close>

definition parent_ok :: "string list \<Rightarrow> string \<times> int list \<Rightarrow> bool" where
  "parent_ok keys = (\<lambda>(program, accounts).
     program = [] \<and> accounts = [] \<or>
     validateParentProgram program \<and> accounts_ok keys accounts \<and>
     validateDexInstruction program accounts keys = Inr True)"

lemma parent_of_ok:
  assumes "list_all (wf_ix E keys) ixs"
  shows "parent_ok keys (parent_of keys (find (is_parent keys) ixs))"
proof (cases "find (is_parent keys) ixs")
  case (Some ix)
  then have "is_parent keys ix" "ix \<in> set ixs" by (auto simp: find_Some_iff)
  then show ?thesis using Some assms by (auto simp: parent_ok_def parent_of_def is_parent_def list_all_iff wf_ix_def)
qed (simp add: parent_ok_def parent_of_def)

lemma candidates_wf:
  assumes "wf_tx E tx" "i < length (tx_instructions tx)"
    and "\<And>gi k. inner = Some (gi, k) \<Longrightarrow> gi < length (tx_inner tx)"
  shows "list_all (wf_ix E (getAllAccountKeys tx)) (candidates tx i inner)"
  using assms wf_tx_outer [OF assms(1) nth_mem [OF assms(2)]] wf_tx_inner [OF assms(1) nth_mem]
  by (auto simp: candidates_def list_all_iff dest!: in_set_takeD split: option.splits)

lemma ok_first_pumpfun: "list_all (wf_ix E keys) ixs \<Longrightarrow> ok (first_pumpfun keys ixs)"
  by (induction ixs) (auto simp: wf_ix_prog)

lemma ok_findPumpFunSwapEvent:
  assumes "wf_tx E tx" "gi < length (tx_inner tx)" "k < length (ii_Instructions (tx_inner tx ! gi))"
  shows "ok (findPumpFunSwapEvent tx (int gi) (int k) (getAllAccountKeys tx))"
proof -
  have "list_all (wf_ix E (getAllAccountKeys tx)) (drop k (ii_Instructions (tx_inner tx ! gi)))"
    using wf_tx_inner [OF assms(1) nth_mem [OF assms(2)]] in_set_dropD unfolding list_all_iff by fast
  then show ?thesis using assms
    by (auto simp: findPumpFunSwapEvent_def slice_from_def intro!: ok_first_pumpfun [of E])
qed

lemma ok_first_metaplex: "list_all (wf_ix E keys) ixs \<Longrightarrow> ok (first_metaplex E keys mint ixs)"
proof (induction ixs)
  case (Cons ix ixs)
  then have acc: "accounts_ok keys (ix_Accounts ix)" by (simp add: wf_ix_def)
  show ?case using Cons wf_ix_prog [of E keys ix]
    by (auto simp: keyAt_acct [OF acc, of 1, simplified] split: option.splits)
qed simp

lemma ok_add_token: "wf_tx E tx \<Longrightarrow> ok (add_token E tx r p)"
  by (auto simp: add_token_def findMetaplexInstruction_def wf_tx_def list_all_iff Let_def
      intro!: ok_bindI ok_first_metaplex)

end
