(* ===== verification/Samples.thy ===== *)
theory Samples
  imports TxParser
begin

text \<open>
  A concrete transaction for the witnesses: a Raydium CPMM swap of wrapped SOL for a token (one
  outer instruction, two inner TransferChecked), then a native transfer. \<open>sample_ext\<close> stands for
  the third-party functions: base58 on the three data strings used, and a printer for the zero key.
\<close>

definition sample_ext :: ext where
  "sample_ext = \<lparr>
     b58_decode = (\<lambda>s.
       if s = ''in'' then Some [12, 2, 0, 0, 0, 0, 0, 0, 0, 1]
       else if s = ''out'' then Some [12, 6, 0, 0, 0, 0, 0, 0, 0, 1]
       else if s = ''fee'' then Some [2, 0, 0, 0, 5, 0, 0, 0, 0, 0, 0, 0]
       else None),
     b58_encode = (\<lambda>bs. ''bytes''),
     key_of_bytes = (\<lambda>bs. bs),
     key_string = (\<lambda>k. ''key''),
     borsh_metaplex = (\<lambda>bs. None),
     bin_pumpfun_swap = (\<lambda>bs. None),
     borsh_pumpfun_creation = (\<lambda>bs. \<lparr>pc_Name = [], pc_Symbol = [], pc_Uri = [], pc_Mint = [], pc_BondingCurve = [], pc_User = []\<rparr>)\<rparr>"

definition sample_keys :: "string list" where
  "sample_keys = [''wallet'', RAYDIUM_CPMM, TOKEN_PROGRAM, ''userSol'', ''vaultSol'', ''vaultTok'', ''userTok'',
     WSOL, ''mint'', ''pool'', SYSTEM_PROGRAM, ''fees'']"

definition sample_balance :: "int \<Rightarrow> string \<Rightarrow> string \<Rightarrow> string \<Rightarrow> token_balance" where
  "sample_balance i mint user amount = \<lparr>tb_AccountIndex = i, tb_Mint = mint, tb_Owner = user, tb_ProgramId = TOKEN_PROGRAM,
     tb_UITokenAmount = \<lparr>ta_Amount = amount, ta_Decimals = 1, ta_UiAmount = Fin 0, ta_UiAmountString = amount\<rparr>\<rparr>"

definition sample_tx :: solana_tx where
  "sample_tx = \<lparr>
     tx_Meta = \<lparr>tm_Err = None, tm_Fee = 5,
       tm_InnerInstructions = [\<lparr>ii_Index = 0, ii_Instructions = [
         \<lparr>ix_Accounts = [3, 7, 4, 0], ix_Data = ''in'', ix_ProgramIdIndex = 2\<rparr>,
         \<lparr>ix_Accounts = [5, 8, 6, 9], ix_Data = ''out'', ix_ProgramIdIndex = 2\<rparr>]\<rparr>],
       tm_LogMessages = Some [],
       tm_PostBalances = [7, 1], tm_PostTokenBalances = [sample_balance 3 WSOL ''wallet'' ''3'',
         sample_balance 4 WSOL ''pool'' ''8'', sample_balance 5 ''mint'' ''pool'' ''1'', sample_balance 6 ''mint'' ''wallet'' ''4''],
       tm_PreBalances = [9, 1], tm_PreTokenBalances = [sample_balance 3 WSOL ''wallet'' ''5''],
       tm_LoadedAddresses = \<lparr>la_Readonly = [], la_Writable = []\<rparr>\<rparr>,
     tx_Transaction = \<lparr>td_Message = \<lparr>ms_AccountKeys = sample_keys, ms_AddressTableLookups = [],
       ms_Instructions = [
         \<lparr>ix_Accounts = [0, 1, 1, 9, 3, 6, 4, 5, 2, 2, 7, 8, 9], ix_Data = ''swap'', ix_ProgramIdIndex = 1\<rparr>,
         \<lparr>ix_Accounts = [0, 11], ix_Data = ''fee'', ix_ProgramIdIndex = 10\<rparr>],
       ms_RecentBlockhash = ''hash''\<rparr>, td_Signatures = [''sig'']\<rparr>\<rparr>"

lemma sample_wf: "wf_tx sample_ext sample_tx"
  by code_simp

lemma sample_groups: "distinct (map ii_Index (tx_inner sample_tx))"
  by code_simp

definition sample_transfer :: "int \<Rightarrow> string \<Rightarrow> string \<Rightarrow> string \<Rightarrow> string \<Rightarrow> string \<Rightarrow> string \<Rightarrow> string \<Rightarrow> sol_transfer" where
  "sample_transfer k fromUser fromTok toUser toTok auth mint amount = zero_transfer\<lparr>tr_InnerIndex := 0, tr_IxIndex := k,
     tr_FromUserAccount := fromUser, tr_FromTokenAccount := fromTok, tr_ToUserAccount := toUser, tr_ToTokenAccount := toTok,
     tr_Authority := auth, tr_Mint := mint, tr_Decimals := 1, tr_Amount := amount, tr_Type := ''token'',
     tr_ParentProgramId := RAYDIUM_CPMM, tr_IxAccounts := [0, 1, 1, 9, 3, 6, 4, 5, 2, 2, 7, 8, 9]\<rparr>"

definition sample_transfers :: "sol_transfer list" where
  "sample_transfers = [
     sample_transfer 0 ''wallet'' ''userSol'' ''pool'' ''vaultSol'' ''wallet'' WSOL ''0.2'',
     sample_transfer 1 ''pool'' ''vaultTok'' ''wallet'' ''userTok'' ''pool'' ''mint'' ''0.6'',
     zero_transfer\<lparr>tr_InnerIndex := - 1, tr_IxIndex := 1, tr_FromUserAccount := ''wallet'', tr_ToUserAccount := ''fees'',
       tr_Amount := ''0.000000005'', tr_Mint := WSOL, tr_Type := ''native''\<rparr>]"

lemma sample_parsed: "ParseTransaction sample_ext sample_tx =
    Inr \<lparr>pr_transfers = sample_transfers, pr_burns = [], pr_tokenMints = [], pr_tokensCreated = []\<rparr>"
  by code_simp

end
