(* ===== verification/ExecOrder.thy ===== *)
theory ExecOrder
  imports Samples "HOL-Library.Sublist"
begin

text \<open>
  What ParseTransaction computes as a whole. The nested loops of the source are one pass over the
  instructions in execution order (\<open>exec_list\<close>): an outer instruction, then the inner instructions
  filed under its index. The pass never faults on a well-formed transaction; the transfers come
  out in execution order, burns and mints are the transfers of those types, every amount is
  non-zero, and the program attached to a transfer is the nearest swap-shaped one.
\<close>

section \<open>Positions\<close>

datatype ix_pos = Outer nat | Inner nat nat

fun pos_key :: "ix_pos \<Rightarrow> nat \<times> nat" where
  "pos_key (Outer i) = (i, 0)"
| "pos_key (Inner i k) = (i, Suc k)"

lemma pos_key_inject: "pos_key p = pos_key q \<Longrightarrow> p = q"
  by (cases p; cases q) auto

text \<open>Outer \<open>i\<close> runs before its inner instructions, they before outer \<open>i + 1\<close>.\<close>

instantiation ix_pos :: linorder
begin

definition less_ix_pos :: "ix_pos \<Rightarrow> ix_pos \<Rightarrow> bool" where
  "p < q \<longleftrightarrow> fst (pos_key p) < fst (pos_key q) \<or> fst (pos_key p) = fst (pos_key q) \<and> snd (pos_key p) < snd (pos_key q)"

definition less_eq_ix_pos :: "ix_pos \<Rightarrow> ix_pos \<Rightarrow> bool" where
  "p \<le> q \<longleftrightarrow> fst (pos_key p) < fst (pos_key q) \<or> fst (pos_key p) = fst (pos_key q) \<and> snd (pos_key p) \<le> snd (pos_key q)"

instance
proof
  fix p q r :: ix_pos
  show "(p < q) = (p \<le> q \<and> \<not> q \<le> p)" "p \<le> p" "p \<le> q \<or> q \<le> p"
    by (auto simp: less_ix_pos_def less_eq_ix_pos_def)
  show "p \<le> q \<Longrightarrow> q \<le> r \<Longrightarrow> p \<le> r" by (auto simp: less_eq_ix_pos_def)
  show "p \<le> q \<Longrightarrow> q \<le> p \<Longrightarrow> p = q" by (intro pos_key_inject) (auto simp: less_eq_ix_pos_def prod_eq_iff)
qed

end

lemma pos_less [simp]:
  "Outer i < Outer j \<longleftrightarrow> i < j" "Outer i < Inner j k \<longleftrightarrow> i \<le> j"
  "Inner i k < Outer j \<longleftrightarrow> i < j" "Inner i k < Inner j l \<longleftrightarrow> i < j \<or> i = j \<and> k < l"
  by (auto simp: less_ix_pos_def)

text \<open>Where a transfer comes from, by the two indices ParseTransaction writes into it.\<close>

definition tr_pos :: "sol_transfer \<Rightarrow> ix_pos" where
  "tr_pos t = (if tr_InnerIndex t < 0 then Outer (nat (tr_IxIndex t))
     else Inner (nat (tr_InnerIndex t)) (nat (tr_IxIndex t)))"

section \<open>The flattened loop\<close>

text \<open>An instruction to run, with its position and the number of its inner list.\<close>

definition inner_of :: "solana_tx \<Rightarrow> nat \<Rightarrow> (ix_pos \<times> nat \<times> instruction) list" where
  "inner_of tx i = concat (map (\<lambda>(gi, g).
     if ii_Index g \<noteq> int i then [] else map (\<lambda>(k, ix). (Inner i k, gi, ix)) (enumerate 0 (ii_Instructions g)))
     (enumerate 0 (tx_inner tx)))"

definition exec_list :: "solana_tx \<Rightarrow> (ix_pos \<times> nat \<times> instruction) list" where
  "exec_list tx = concat (map (\<lambda>(i, ix). (Outer i, 0, ix) # inner_of tx i) (enumerate 0 (tx_instructions tx)))"

definition exec_step ::
  "ext \<Rightarrow> solana_tx \<Rightarrow> (int \<rightharpoonup> sol_balance_diff) \<Rightarrow> (int \<rightharpoonup> sol_balance_diff) \<Rightarrow> parse_result
     \<Rightarrow> ix_pos \<times> nat \<times> instruction \<Rightarrow> parse_result go" where
  "exec_step E tx bdiffs native r = (\<lambda>(pos, gi, ix).
     let keys = getAllAccountKeys tx; km = account_keys_map keys in
     case pos of
       Outer i \<Rightarrow> parse_outer E tx keys km bdiffs native r i ix
     | Inner i k \<Rightarrow> parse_inner E tx keys km bdiffs native i gi r (k, ix))"

definition no_results :: parse_result where
  "no_results = \<lparr>pr_transfers = [], pr_burns = [], pr_tokenMints = [], pr_tokensCreated = []\<rparr>"

lemma go_fold_map: "go_fold f s (map g xs) = go_fold (\<lambda>s x. f s (g x)) s xs"
  by (induction xs arbitrary: s) simp_all

lemma go_fold_concat: "go_fold f s (concat xss) = go_fold (go_fold f) s xss"
  by (induction xss arbitrary: s) (simp_all add: go_fold_append)

lemma inner_fold:
  "go_fold (exec_step E tx bdiffs native) r (inner_of tx i) =
   go_fold (\<lambda>r (gi, g).
      if ii_Index g \<noteq> int i then Inr r
      else go_fold (parse_inner E tx (getAllAccountKeys tx) (account_keys_map (getAllAccountKeys tx)) bdiffs native i gi) r
             (enumerate 0 (ii_Instructions g))) r (enumerate 0 (tx_inner tx))"
  unfolding inner_of_def go_fold_concat go_fold_map
  by (intro go_fold_cong refl) (auto simp: go_fold_map exec_step_def Let_def intro!: go_fold_cong split: prod.splits)

lemma ParseTransaction_exec:
  "ParseTransaction E tx =
     go_bind (GetTokenBalanceDiffs tx) (\<lambda>bdiffs. go_bind (GetNativeBalanceDiffs tx) (\<lambda>native.
       go_fold (exec_step E tx bdiffs native) no_results (exec_list tx)))"
proof -
  let ?keys = "getAllAccountKeys tx"
  have "go_fold (exec_step E tx bdiffs native) r (exec_list tx) =
        go_fold (parse_step E tx ?keys (account_keys_map ?keys) bdiffs native) r (enumerate 0 (tx_instructions tx))"
    for bdiffs native r
    unfolding exec_list_def go_fold_concat go_fold_map
    by (intro go_fold_cong refl)
      (auto simp: inner_fold parse_step_def exec_step_def Let_def intro!: go_bind_cong split: prod.splits)
  then show ?thesis by (simp add: ParseTransaction_def Let_def no_results_def)
qed

section \<open>One step\<close>

text \<open>A located instruction really is where it says.\<close>

definition loc_ok :: "solana_tx \<Rightarrow> ix_pos \<times> nat \<times> instruction \<Rightarrow> bool" where
  "loc_ok tx = (\<lambda>(pos, gi, ix). case pos of
     Outer i \<Rightarrow> i < length (tx_instructions tx) \<and> ix = tx_instructions tx ! i
   | Inner i k \<Rightarrow> i < length (tx_instructions tx) \<and> gi < length (tx_inner tx) \<and> ii_Index (tx_inner tx ! gi) = int i \<and>
       k < length (ii_Instructions (tx_inner tx ! gi)) \<and> ix = ii_Instructions (tx_inner tx ! gi) ! k)"

lemma in_enumerate_nth: "(i, x) \<in> set (enumerate n xs) \<longleftrightarrow> n \<le> i \<and> i < n + length xs \<and> x = xs ! (i - n)"
  by (auto simp: in_set_enumerate_eq)

lemma exec_list_loc: "x \<in> set (exec_list tx) \<Longrightarrow> loc_ok tx x"
  by (auto simp: exec_list_def inner_of_def loc_ok_def in_enumerate_nth split: if_splits)

lemma loc_wf: "wf_tx E tx \<Longrightarrow> loc_ok tx (pos, gi, ix) \<Longrightarrow> wf_ix E (getAllAccountKeys tx) ix"
  using wf_tx_outer [of E tx] wf_tx_inner [of E tx, OF _ nth_mem nth_mem] by (auto simp: loc_ok_def split: ix_pos.splits)

definition loc_candidates :: "solana_tx \<Rightarrow> ix_pos \<times> nat \<times> instruction \<Rightarrow> instruction list" where
  "loc_candidates tx = (\<lambda>(pos, gi, ix). case pos of
     Outer i \<Rightarrow> candidates tx i None | Inner i k \<Rightarrow> candidates tx i (Some (gi, k)))"

definition loc_indices :: "ix_pos \<Rightarrow> int \<times> int" where
  "loc_indices pos = (case pos of Outer i \<Rightarrow> (- 1, int i) | Inner i k \<Rightarrow> (int i, int k))"

text \<open>
  \<open>transfer_from x t\<close>: \<open>t\<close> is the transfer of the instruction at \<open>x\<close>, completed with the program it
  runs under and the event data, and its amount is not zero.
\<close>

definition transfer_from ::
  "ext \<Rightarrow> solana_tx \<Rightarrow> (int \<rightharpoonup> sol_balance_diff) \<Rightarrow> (int \<rightharpoonup> sol_balance_diff)
     \<Rightarrow> ix_pos \<times> nat \<times> instruction \<Rightarrow> sol_transfer \<Rightarrow> bool" where
  "transfer_from E tx bdiffs native x t = (case x of (pos, gi, ix) \<Rightarrow>
     let keys = getAllAccountKeys tx; (a, b) = loc_indices pos in
     tr_pos t = pos \<and> tr_Amount t \<noteq> [] \<and> tr_Amount t \<noteq> ''0'' \<and>
     (tr_ParentProgramId t, tr_IxAccounts t) = parent_of keys (find (is_parent keys) (loc_candidates tx x)) \<and>
     processInstruction E ix (account_keys_map keys) bdiffs native tx a b =
       Inr (t\<lparr>tr_IxAccounts := [], tr_ParentProgramId := [], tr_EventData := []\<rparr>, True))"

definition add_results :: "parse_result \<Rightarrow> sol_transfer list \<Rightarrow> token list \<Rightarrow> parse_result" where
  "add_results r ts cs = \<lparr>pr_transfers = pr_transfers r @ ts,
     pr_burns = pr_burns r @ filter (\<lambda>t. tr_Type t = ''burn'') ts,
     pr_tokenMints = pr_tokenMints r @ filter (\<lambda>t. tr_Type t = ''mint'') ts,
     pr_tokensCreated = pr_tokensCreated r @ cs\<rparr>"

lemma add_results_trans: "add_results (add_results r ts cs) ts' cs' = add_results r (ts @ ts') (cs @ cs')"
  by (simp add: add_results_def)

lemma add_transfer_results:
  "add_transfer r t = add_results r (if tr_Amount t \<noteq> [] \<and> tr_Amount t \<noteq> ''0'' then [t] else []) []"
  by (auto simp: add_transfer_def add_results_def Let_def intro!: parse_result.equality)

lemma add_token_results: "add_token E tx r p = Inr r' \<Longrightarrow> \<exists>cs. r' = add_results r [] cs"
  by (auto simp: add_token_def add_results_def ok_iff Let_def intro!: parse_result.equality split: if_splits)

lemma processInstruction_shape:
  "processInstruction E ix km bdiffs native tx a b = Inr (p, True) \<Longrightarrow>
   tr_InnerIndex p = a \<and> tr_IxIndex p = b \<and> tr_IxAccounts p = [] \<and> tr_ParentProgramId p = [] \<and> tr_EventData p = []"
  by (auto simp: processInstruction_def system_transfer_def token_transfer_def zero_transfer_def Let_def ok_iff
      split: if_splits option.splits prod.splits)

lemma exec_step_results:
  assumes wf: "wf_tx E tx" and b: "diffs_ok bdiffs" and x: "loc_ok tx x"
  shows "\<exists>ts cs. exec_step E tx bdiffs native r x = Inr (add_results r ts cs) \<and>
     length ts \<le> 1 \<and> list_all (transfer_from E tx bdiffs native x) ts"
proof -
  let ?keys = "getAllAccountKeys tx" and ?km = "account_keys_map (getAllAccountKeys tx)"
  obtain pos gi ix where x_eq: "x = (pos, gi, ix)" by (cases x)
  obtain i1 i2 where ab: "loc_indices pos = (i1, i2)" by (cases "loc_indices pos")
  have "ok (processInstruction E ix ?km bdiffs native tx i1 i2)"
    using ok_processInstruction [OF wf _ b] loc_wf [OF wf] x x_eq by blast
  then obtain p found where p: "processInstruction E ix ?km bdiffs native tx i1 i2 = Inr (p, found)"
    unfolding ok_conv by force
  show ?thesis
  proof (cases found)
    case False
    obtain r' where r': "add_token E tx r p = Inr r'" using ok_add_token [OF wf, of r p] unfolding ok_conv by blast
    then obtain cs where "r' = add_results r [] cs" using add_token_results by blast
    moreover have "exec_step E tx bdiffs native r x = add_token E tx r p"
      using p False x_eq ab
      by (auto simp: exec_step_def loc_indices_def parse_outer_def parse_inner_def Let_def split: ix_pos.splits)
    ultimately show ?thesis using r' by (intro exI [of _ "[]"] exI [of _ cs]) simp
  next
    case True
    have "processInstruction E ix ?km bdiffs native tx i1 i2 = Inr (p, True)" using p True by simp
    note shape = processInstruction_shape [OF this]
    obtain prog acc where pa: "parent_of ?keys (find (is_parent ?keys) (loc_candidates tx x)) = (prog, acc)" by fastforce
    have "\<exists>e. exec_step E tx bdiffs native r x =
            Inr (add_transfer r (p\<lparr>tr_IxAccounts := acc, tr_ParentProgramId := prog, tr_EventData := e\<rparr>))"
    proof (cases pos)
      case (Outer i)
      then have "findParentProgram (int i) tx (- 1) (- 1) ?keys = Inr (prog, acc)"
        using findParentProgram_outer [OF wf, of i] x x_eq pa by (simp add: loc_ok_def loc_candidates_def)
      moreover have "p\<lparr>tr_IxAccounts := acc, tr_ParentProgramId := prog\<rparr> =
          p\<lparr>tr_IxAccounts := acc, tr_ParentProgramId := prog, tr_EventData := []\<rparr>" using shape by simp
      ultimately show ?thesis using Outer p True x_eq ab
        by (auto simp: exec_step_def parse_outer_def loc_indices_def Let_def intro!: exI [of _ "[]"])
    next
      case (Inner i k)
      then have "findParentProgram (int i) tx (int gi) (int k) ?keys = Inr (prog, acc)"
        using findParentProgram_inner [OF wf, of i gi k] x x_eq pa by (simp add: loc_ok_def loc_candidates_def)
      moreover obtain e where "findPumpFunSwapEvent tx (int gi) (int k) ?keys = Inr e"
        using ok_findPumpFunSwapEvent [OF wf, of gi k] x x_eq Inner unfolding ok_conv by (auto simp: loc_ok_def)
      ultimately show ?thesis using Inner p True x_eq ab
        by (auto simp: exec_step_def parse_inner_def loc_indices_def Let_def)
    qed
    then obtain e where e: "exec_step E tx bdiffs native r x =
        Inr (add_transfer r (p\<lparr>tr_IxAccounts := acc, tr_ParentProgramId := prog, tr_EventData := e\<rparr>))" by blast
    have "transfer_from E tx bdiffs native x (p\<lparr>tr_IxAccounts := acc, tr_ParentProgramId := prog, tr_EventData := e\<rparr>)"
      if "tr_Amount p \<noteq> []" "tr_Amount p \<noteq> ''0''"
    proof -
      have "p\<lparr>tr_IxAccounts := [], tr_ParentProgramId := [], tr_EventData := []\<rparr> = p" using shape by simp
      moreover have "tr_pos p = pos" using shape ab by (auto simp: tr_pos_def loc_indices_def split: ix_pos.splits)
      ultimately show ?thesis using that pa p True ab x_eq by (auto simp: transfer_from_def tr_pos_def)
    qed
    then show ?thesis using e by (auto simp: add_transfer_results)
  qed
qed

section \<open>The whole pass\<close>

lemma exec_fold_results:
  assumes wf: "wf_tx E tx" and b: "diffs_ok bdiffs" and xs: "\<forall>x \<in> set xs. loc_ok tx x"
  shows "\<exists>ts cs ys. go_fold (exec_step E tx bdiffs native) r xs = Inr (add_results r ts cs) \<and>
     subseq ys xs \<and> list_all2 (transfer_from E tx bdiffs native) ys ts"
  using xs
proof (induction xs arbitrary: r)
  case Nil
  show ?case by (rule exI [of _ "[]"], rule exI [of _ "[]"], rule exI [of _ "[]"]) (simp add: add_results_def)
next
  case (Cons x xs)
  obtain ts cs where s: "exec_step E tx bdiffs native r x = Inr (add_results r ts cs)"
      "length ts \<le> 1" "list_all (transfer_from E tx bdiffs native x) ts"
    using exec_step_results [OF wf b] Cons.prems by fastforce
  obtain ts' cs' ys where f: "go_fold (exec_step E tx bdiffs native) (add_results r ts cs) xs = Inr (add_results (add_results r ts cs) ts' cs')"
      "subseq ys xs" "list_all2 (transfer_from E tx bdiffs native) ys ts'"
    using Cons by fastforce
  have "\<exists>zs. subseq zs (x # xs) \<and> list_all2 (transfer_from E tx bdiffs native) zs (ts @ ts')"
  proof (cases ts)
    case Nil
    then show ?thesis using f by auto
  next
    case (Cons t us)
    then have "us = []" using s(2) by simp
    then show ?thesis using f s(3) Cons by (intro exI [of _ "x # ys"]) auto
  qed
  then show ?case using s(1) f(1) by (auto simp: add_results_trans)
qed

lemma parse_results:
  assumes "wf_tx E tx"
  shows "\<exists>bdiffs native ts cs ys. GetTokenBalanceDiffs tx = Inr bdiffs \<and> GetNativeBalanceDiffs tx = Inr native \<and>
     ParseTransaction E tx = Inr (add_results no_results ts cs) \<and>
     subseq ys (exec_list tx) \<and> list_all2 (transfer_from E tx bdiffs native) ys ts"
proof -
  obtain bdiffs where b: "GetTokenBalanceDiffs tx = Inr bdiffs" "diffs_ok bdiffs"
    using GetTokenBalanceDiffs_ok [OF assms] by blast
  obtain native where n: "GetNativeBalanceDiffs tx = Inr native"
    using GetNativeBalanceDiffs_ok [of tx] unfolding ok_conv by blast
  show ?thesis using exec_fold_results [OF assms b(2), of "exec_list tx" native no_results] b n exec_list_loc
    by (auto simp: ParseTransaction_exec)
qed

lemma list_all2_in2: "list_all2 P xs ys \<Longrightarrow> y \<in> set ys \<Longrightarrow> \<exists>x \<in> set xs. P x y"
  by (induction rule: list_all2_induct) auto

lemma subseq_in: "subseq ys xs \<Longrightarrow> y \<in> set ys \<Longrightarrow> y \<in> set xs"
  by (induction rule: list_emb.induct) auto

lemma subseq_sorted_wrt: "subseq ys xs \<Longrightarrow> sorted_wrt P xs \<Longrightarrow> sorted_wrt P ys"
  by (induction rule: list_emb.induct) (auto dest: subseq_in)

lemma add_results_transfers [simp]: "pr_transfers (add_results no_results ts cs) = ts"
  by (simp add: add_results_def no_results_def)

lemma parse_from:
  assumes "wf_tx E tx" "ParseTransaction E tx = Inr r" "t \<in> set (pr_transfers r)"
  shows "\<exists>bdiffs native x. GetTokenBalanceDiffs tx = Inr bdiffs \<and> x \<in> set (exec_list tx) \<and> transfer_from E tx bdiffs native x t"
proof -
  obtain bdiffs native ts cs ys where p: "GetTokenBalanceDiffs tx = Inr bdiffs"
      "ParseTransaction E tx = Inr (add_results no_results ts cs)"
      "subseq ys (exec_list tx)" "list_all2 (transfer_from E tx bdiffs native) ys ts"
    using parse_results [OF assms(1)] by blast
  have "t \<in> set ts" using assms(2,3) p(2) by auto
  then obtain x where "x \<in> set ys" "transfer_from E tx bdiffs native x t" using list_all2_in2 [OF p(4)] by blast
  then show ?thesis using p(1) subseq_in [OF p(3)] by blast
qed

section \<open>Order\<close>

lemma sorted_wrt_concat_keys:
  fixes F :: "nat \<times> 'a \<Rightarrow> ix_pos list"
  assumes "\<And>p. p \<in> set (enumerate n xs) \<Longrightarrow> sorted_wrt (<) (F p) \<and> (\<forall>q \<in> set (F p). fst (pos_key q) = fst p)"
  shows "sorted_wrt (<) (concat (map F (enumerate n xs)))"
  using assms
proof (induction xs arbitrary: n)
  case (Cons x xs)
  have "sorted_wrt (<) (F (n, x))" using Cons.prems [of "(n, x)"] by simp
  moreover have "sorted_wrt (<) (concat (map F (enumerate (Suc n) xs)))"
    by (rule Cons.IH) (rule Cons.prems, simp)
  moreover have "a < b" if ab: "a \<in> set (F (n, x))" "b \<in> set (concat (map F (enumerate (Suc n) xs)))" for a b
  proof -
    obtain p where p: "p \<in> set (enumerate (Suc n) xs)" "b \<in> set (F p)" using ab(2) by auto
    then have "fst (pos_key b) = fst p" "n < fst p" using Cons.prems [of p] by (auto simp: in_set_enumerate_eq)
    moreover have "fst (pos_key a) = n" using Cons.prems [of "(n, x)"] ab(1) by simp
    ultimately show ?thesis by (simp add: less_ix_pos_def)
  qed
  ultimately show ?case by (simp add: sorted_wrt_append)
qed simp

lemma sorted_inner_positions: "sorted_wrt (<) (map (\<lambda>(k, ix). Inner i k) (enumerate n ixs))"
  by (induction ixs arbitrary: n) (auto simp: in_set_enumerate_eq)

lemma one_group:
  assumes "distinct (map ii_Index gs)"
  shows "sorted_wrt (<) (concat (map (\<lambda>(gi, g). if ii_Index g \<noteq> int i then []
            else map (\<lambda>(k, ix). Inner i k) (enumerate 0 (ii_Instructions g))) (enumerate n gs)))"
  using assms
proof (induction gs arbitrary: n)
  case (Cons g gs)
  show ?case
  proof (cases "ii_Index g = int i")
    case True
    then have other: "\<forall>g' \<in> set gs. ii_Index g' \<noteq> int i" using Cons.prems by (simp add: image_iff) metis
    have rest: "concat (map (\<lambda>(gi, g). if ii_Index g \<noteq> int i then []
            else map (\<lambda>(k, ix). Inner i k) (enumerate 0 (ii_Instructions g))) (enumerate (Suc n) gs)) = []"
      using other by (auto dest: in_enumerate)
    show ?thesis unfolding enumerate_simps list.map concat.simps rest using True sorted_inner_positions by simp
  qed (use Cons in simp)
qed simp

lemma exec_positions: "distinct (map ii_Index (tx_inner tx)) \<Longrightarrow> sorted_wrt (<) (map fst (exec_list tx))"
proof -
  assume d: "distinct (map ii_Index (tx_inner tx))"
  let ?F = "\<lambda>(i, ix). Outer i # map fst (inner_of tx i)"
  have inner: "map fst (inner_of tx i) = concat (map (\<lambda>(gi, g). if ii_Index g \<noteq> int i then []
            else map (\<lambda>(k, ix). Inner i k) (enumerate 0 (ii_Instructions g))) (enumerate 0 (tx_inner tx)))" for i
    unfolding inner_of_def map_concat map_map by (intro arg_cong [of _ _ concat] map_cong) auto
  have "map fst (exec_list tx) = concat (map ?F (enumerate 0 (tx_instructions tx)))"
    unfolding exec_list_def map_concat map_map by (intro arg_cong [of _ _ concat] map_cong) auto
  moreover have "sorted_wrt (<) (concat (map ?F (enumerate 0 (tx_instructions tx))))"
  proof (rule sorted_wrt_concat_keys)
    fix p assume "p \<in> set (enumerate 0 (tx_instructions tx))"
    obtain i ix where p: "p = (i, ix)" by (rule prod.exhaust)
    have "sorted_wrt (<) (map fst (inner_of tx i))" unfolding inner by (rule one_group [OF d])
    moreover have "\<exists>k. q = Inner i k" if "q \<in> set (map fst (inner_of tx i))" for q
      using that unfolding inner by (auto split: if_splits)
    ultimately show "sorted_wrt (<) (?F p) \<and> (\<forall>q \<in> set (?F p). fst (pos_key q) = fst p)"
      unfolding p by fastforce
  qed
  ultimately show ?thesis by simp
qed

lemma list_all2_positions: "list_all2 (transfer_from E tx bdiffs native) ys ts \<Longrightarrow> map tr_pos ts = map fst ys"
  by (induction rule: list_all2_induct) (auto simp: transfer_from_def Let_def split: prod.splits)

lemma parse_order:
  assumes "wf_tx E tx" "distinct (map ii_Index (tx_inner tx))" "ParseTransaction E tx = Inr r"
  shows "sorted_wrt (<) (map tr_pos (pr_transfers r))"
proof -
  obtain bdiffs native ts cs ys where p: "ParseTransaction E tx = Inr (add_results no_results ts cs)"
      "subseq ys (exec_list tx)" "list_all2 (transfer_from E tx bdiffs native) ys ts"
    using parse_results [OF assms(1)] by blast
  have "pr_transfers r = ts" using assms(3) p(1) by auto
  then have "map tr_pos (pr_transfers r) = map fst ys" using list_all2_positions [OF p(3)] by simp
  then show ?thesis
    using subseq_sorted_wrt [OF subseq_map [OF p(2)] exec_positions [OF assms(2)]] by simp
qed

section \<open>Properties\<close>

lemma exec_step_any:
  "exec_step E tx bdiffs native r x = Inr r' \<Longrightarrow>
   \<exists>ts cs. r' = add_results r ts cs \<and> (\<forall>t \<in> set ts. tr_Amount t \<noteq> [] \<and> tr_Amount t \<noteq> ''0'')"
proof -
  assume s: "exec_step E tx bdiffs native r x = Inr r'"
  have "(\<exists>t. r' = add_transfer r t) \<or> (\<exists>p. add_token E tx r p = Inr r')"
    using s by (auto simp: exec_step_def parse_outer_def parse_inner_def Let_def ok_iff split: ix_pos.splits prod.splits if_splits)
  then show ?thesis
  proof (elim disjE exE)
    fix t assume "r' = add_transfer r t"
    then show ?thesis
      by (intro exI [of _ "if tr_Amount t \<noteq> [] \<and> tr_Amount t \<noteq> ''0'' then [t] else []"] exI [of _ "[]"])
        (simp add: add_transfer_results)
  next
    fix p assume "add_token E tx r p = Inr r'"
    then obtain cs where "r' = add_results r [] cs" using add_token_results by blast
    then show ?thesis by (intro exI [of _ "[]"] exI [of _ cs]) simp
  qed
qed

definition results_ok :: "parse_result \<Rightarrow> bool" where
  "results_ok r \<longleftrightarrow>
     pr_burns r = filter (\<lambda>t. tr_Type t = ''burn'') (pr_transfers r) \<and>
     pr_tokenMints r = filter (\<lambda>t. tr_Type t = ''mint'') (pr_transfers r) \<and>
     list_all (\<lambda>t. tr_Amount t \<noteq> [] \<and> tr_Amount t \<noteq> ''0'') (pr_transfers r)"

lemma results_ok_add:
  "results_ok r \<Longrightarrow> \<forall>t \<in> set ts. tr_Amount t \<noteq> [] \<and> tr_Amount t \<noteq> ''0'' \<Longrightarrow> results_ok (add_results r ts cs)"
  by (auto simp: results_ok_def add_results_def list_all_iff)

text \<open>C6: On a well-formed transaction ParseTransaction returns: no index, slice or nil panic, no fatal exit.\<close>

theorem ParseTransaction_total: "wf_tx E tx \<Longrightarrow> ok (ParseTransaction E tx)"
  using parse_results [of E tx] by auto

lemma ParseTransaction_total_witness: "ok (ParseTransaction sample_ext sample_tx)"
  by (rule ParseTransaction_total) (rule sample_wf)

text \<open>C5: The transfers come out strictly in execution order.\<close>

theorem ParseTransaction_ordered:
  assumes "wf_tx E tx" "distinct (map ii_Index (tx_inner tx))" "ParseTransaction E tx = Inr r"
  shows "sorted_wrt (<) (map tr_pos (pr_transfers r))"
  using parse_order [OF assms] .

lemma ParseTransaction_ordered_witness: "sorted_wrt (<) (map tr_pos sample_transfers)"
  using ParseTransaction_ordered [OF sample_wf sample_groups sample_parsed] by simp

text \<open>C20: Burns and mints are exactly the transfers of those types, and no transfer has a zero amount.\<close>

theorem ParseTransaction_kinds: "ParseTransaction E tx = Inr r \<Longrightarrow> results_ok r"
proof -
  assume "ParseTransaction E tx = Inr r"
  then obtain bdiffs native where f: "go_fold (exec_step E tx bdiffs native) no_results (exec_list tx) = Inr r"
    by (auto simp: ParseTransaction_exec ok_iff)
  show ?thesis
  proof (rule go_fold_invariant [OF f])
    show "results_ok no_results" by (simp add: results_ok_def no_results_def)
    show "results_ok s'" if "results_ok s" "exec_step E tx bdiffs native s x = Inr s'" for s x s'
      using exec_step_any [OF that(2)] results_ok_add [OF that(1)] by blast
  qed
qed

lemma ParseTransaction_kinds_witness:
  "results_ok \<lparr>pr_transfers = sample_transfers, pr_burns = [], pr_tokenMints = [], pr_tokensCreated = []\<rparr>"
  by (rule ParseTransaction_kinds) (rule sample_parsed)

text \<open>
  C4: A transfer is attributed to the nearest instruction at or before its own in the same inner
  list, else the outer instruction, that names a DEX program and has the account shape of a swap.
\<close>

theorem ParseTransaction_parent:
  assumes "wf_tx E tx" "ParseTransaction E tx = Inr r" "t \<in> set (pr_transfers r)"
  shows "\<exists>x \<in> set (exec_list tx). tr_pos t = fst x \<and>
     (tr_ParentProgramId t, tr_IxAccounts t) =
       parent_of (getAllAccountKeys tx) (find (is_parent (getAllAccountKeys tx)) (loc_candidates tx x))"
proof -
  obtain bdiffs native x where x: "x \<in> set (exec_list tx)" "transfer_from E tx bdiffs native x t"
    using parse_from [OF assms] by blast
  obtain pos gi ix where "x = (pos, gi, ix)" by (rule prod_cases3)
  moreover obtain a b where "loc_indices pos = (a, b)" by fastforce
  ultimately show ?thesis using x by (intro bexI [of _ x]) (simp_all add: transfer_from_def Let_def)
qed

lemma ParseTransaction_parent_witness:
  "\<exists>x \<in> set (exec_list sample_tx). tr_pos (sample_transfers ! 1) = fst x \<and>
     (RAYDIUM_CPMM, tr_IxAccounts (sample_transfers ! 1)) =
       parent_of (getAllAccountKeys sample_tx) (find (is_parent (getAllAccountKeys sample_tx)) (loc_candidates sample_tx x))"
  using ParseTransaction_parent [OF sample_wf sample_parsed, of "sample_transfers ! 1"]
  by (simp add: sample_transfers_def sample_transfer_def)

end
