(* ===== verification/TransferAmounts.thy ===== *)
theory TransferAmounts
  imports ExecOrder
begin

text \<open>
  Instructions and amounts: what the token and system decoders make of the programs' wire format,
  and that the decimal string a transfer carries still determines the raw integer amount after the
  swap handler has read it back as a big.Float and rounded it to a float64.
\<close>

section \<open>Wire formats\<close>

text \<open>
  The instructions of the two programs as the programs serialise them: a tag (one byte for the
  token program, four for the system program), then little-endian integers and 32-byte keys; an
  optional key is a presence byte and, if present, the key.
\<close>

datatype token_ix =
    Transfer_ix "64 word"
  | Approve_ix "64 word"
  | MintTo_ix "64 word"
  | Burn_ix "64 word"
  | TransferChecked_ix "64 word" byte
  | ApproveChecked_ix "64 word" byte
  | MintToChecked_ix "64 word" byte
  | BurnChecked_ix "64 word" byte
  | InitializeAccount2_ix pubkey
  | InitializeAccount3_ix pubkey
  | SetAuthority_ix byte "pubkey option"
  | InitializeMint_ix byte pubkey "pubkey option"
  | InitializeMint2_ix byte pubkey "pubkey option"

definition u64_le :: "64 word \<Rightarrow> byte list" where
  "u64_le w = nat_le 8 (unat w)"

definition key_wire :: "pubkey option \<Rightarrow> byte list" where
  "key_wire f = (case f of None \<Rightarrow> [0] | Some k \<Rightarrow> 1 # k)"

fun token_wire :: "token_ix \<Rightarrow> byte list" where
  "token_wire (InitializeMint_ix d m f) = 0 # d # m @ key_wire f"
| "token_wire (Transfer_ix a) = 3 # u64_le a"
| "token_wire (Approve_ix a) = 4 # u64_le a"
| "token_wire (SetAuthority_ix ty k) = 6 # ty # key_wire k"
| "token_wire (MintTo_ix a) = 7 # u64_le a"
| "token_wire (Burn_ix a) = 8 # u64_le a"
| "token_wire (TransferChecked_ix a d) = 12 # u64_le a @ [d]"
| "token_wire (ApproveChecked_ix a d) = 13 # u64_le a @ [d]"
| "token_wire (MintToChecked_ix a d) = 14 # u64_le a @ [d]"
| "token_wire (BurnChecked_ix a d) = 15 # u64_le a @ [d]"
| "token_wire (InitializeAccount2_ix k) = 16 # k"
| "token_wire (InitializeAccount3_ix k) = 18 # k"
| "token_wire (InitializeMint2_ix d m f) = 20 # d # m @ key_wire f"

text \<open>The keys an instruction carries, each 32 bytes.\<close>

fun token_keys :: "token_ix \<Rightarrow> pubkey set" where
  "token_keys (InitializeAccount2_ix k) = {k}"
| "token_keys (InitializeAccount3_ix k) = {k}"
| "token_keys (SetAuthority_ix ty k) = set_option k"
| "token_keys (InitializeMint_ix d m f) = insert m (set_option f)"
| "token_keys (InitializeMint2_ix d m f) = insert m (set_option f)"
| "token_keys _ = {}"

text \<open>
  What the decoder makes of an optional key: it does not know of the presence byte, takes it for the
  first byte of the key and leaves out the last one. Only an absent key is read as what it is.
\<close>

definition misread :: "ext \<Rightarrow> pubkey option \<Rightarrow> pubkey" where
  "misread E f = (case f of None \<Rightarrow> zero_key | Some k \<Rightarrow> key_of_bytes E (1 # butlast k))"

fun token_decoded :: "ext \<Rightarrow> token_ix \<Rightarrow> token_program_data" where
  "token_decoded E (InitializeMint_ix d m f) =
     zero_token_data\<lparr>tk_RawType := 0, tk_Type := ''InitializeMint'', tk_Decimals := uint d, tk_MintAuthority := key_of_bytes E m,
       tk_FreezeAuthority := misread E f\<rparr>"
| "token_decoded E (Transfer_ix a) = zero_token_data\<lparr>tk_RawType := 3, tk_Type := ''Transfer'', tk_Amount := a\<rparr>"
| "token_decoded E (Approve_ix a) = zero_token_data\<lparr>tk_RawType := 4, tk_Type := ''Approve'', tk_Amount := a\<rparr>"
| "token_decoded E (SetAuthority_ix ty k) =
     zero_token_data\<lparr>tk_RawType := 6, tk_Type := ''SetAuthority'', tk_AuthorityType := ty, tk_NewAuthority := misread E k\<rparr>"
| "token_decoded E (MintTo_ix a) = zero_token_data\<lparr>tk_RawType := 7, tk_Type := ''MintTo'', tk_Amount := a\<rparr>"
| "token_decoded E (Burn_ix a) = zero_token_data\<lparr>tk_RawType := 8, tk_Type := ''Burn'', tk_Amount := a\<rparr>"
| "token_decoded E (TransferChecked_ix a d) =
     zero_token_data\<lparr>tk_RawType := 12, tk_Type := ''TransferChecked'', tk_Decimals := uint d, tk_Amount := a\<rparr>"
| "token_decoded E (ApproveChecked_ix a d) =
     zero_token_data\<lparr>tk_RawType := 13, tk_Type := ''ApproveChecked'', tk_Decimals := uint d, tk_Amount := a\<rparr>"
| "token_decoded E (MintToChecked_ix a d) =
     zero_token_data\<lparr>tk_RawType := 14, tk_Type := ''MintToChecked'', tk_Decimals := uint d, tk_Amount := a\<rparr>"
| "token_decoded E (BurnChecked_ix a d) =
     zero_token_data\<lparr>tk_RawType := 15, tk_Type := ''BurnChecked'', tk_Decimals := uint d, tk_Amount := a\<rparr>"
| "token_decoded E (InitializeAccount2_ix k) =
     zero_token_data\<lparr>tk_RawType := 16, tk_Type := ''InitializeAccount2'', tk_Owner := key_of_bytes E k\<rparr>"
| "token_decoded E (InitializeAccount3_ix k) =
     zero_token_data\<lparr>tk_RawType := 18, tk_Type := ''InitializeAccount3'', tk_Owner := key_of_bytes E k\<rparr>"
| "token_decoded E (InitializeMint2_ix d m f) =
     zero_token_data\<lparr>tk_RawType := 20, tk_Type := ''InitializeMint2'', tk_Decimals := uint d, tk_MintAuthority := key_of_bytes E m,
       tk_FreezeAuthority := misread E f\<rparr>"

datatype system_ix =
    CreateAccount_ix "64 word" "64 word" pubkey
  | Assign_ix pubkey
  | SysTransfer_ix "64 word"
  | Allocate_ix "64 word"

fun system_wire :: "system_ix \<Rightarrow> byte list" where
  "system_wire (CreateAccount_ix l sp k) = [0, 0, 0, 0] @ u64_le l @ u64_le sp @ k"
| "system_wire (Assign_ix k) = [1, 0, 0, 0] @ k"
| "system_wire (SysTransfer_ix l) = [2, 0, 0, 0] @ u64_le l"
| "system_wire (Allocate_ix sp) = [8, 0, 0, 0] @ u64_le sp"

fun system_keys :: "system_ix \<Rightarrow> pubkey list" where
  "system_keys (CreateAccount_ix l sp k) = [k]"
| "system_keys (Assign_ix k) = [k]"
| "system_keys _ = []"

text \<open>Allocate's size lands in the lamports field.\<close>

fun system_decoded :: "ext \<Rightarrow> system_ix \<Rightarrow> system_program_data" where
  "system_decoded E (CreateAccount_ix l sp k) = \<lparr>sd_RawType = 0, sd_Type = ''CreateAccount'', sd_Lamports = l, sd_Space = sp,
     sd_ProgramID = key_of_bytes E k\<rparr>"
| "system_decoded E (Assign_ix k) = zero_system_data\<lparr>sd_RawType := 1, sd_Type := ''Assign'', sd_ProgramID := key_of_bytes E k\<rparr>"
| "system_decoded E (SysTransfer_ix l) = zero_system_data\<lparr>sd_RawType := 2, sd_Type := ''Transfer'', sd_Lamports := l\<rparr>"
| "system_decoded E (Allocate_ix sp) = zero_system_data\<lparr>sd_RawType := 8, sd_Type := ''Allocate'', sd_Lamports := sp\<rparr>"

lemma u64_le_simps [simp]:
  "length (u64_le w) = 8" "unpackU64 (u64_le w @ b) = Inr (w, b)" "unpackU64 (u64_le w) = Inr (w, [])"
  by (simp_all add: u64_le_def)

lemma take_31_butlast: "length k = 32 \<Longrightarrow> take 31 k = butlast k"
  by (simp add: butlast_conv_take)

text \<open>
  C17: On the wire format of the token program the decoder reads the type, the amount, the decimals,
  the owner, the mint authority and the authority type of each of the thirteen instructions it
  knows, but not an optional key: the freeze authority of InitializeMint and InitializeMint2 and the
  new authority of SetAuthority, when present, come out as the presence byte 1 followed by the first
  31 bytes of the key, when absent as the zero key.
\<close>

theorem DecodeTokenProgramData_wire:
  assumes "b58_decode E s = Some (token_wire m)" "\<forall>k \<in> token_keys m. length k = 32"
  shows "DecodeTokenProgramData E s = Inr (token_decoded E m)"
  using assms
  by (cases m)
    (auto simp: DecodeTokenProgramData_def idx_def slice_from_def token_body_def determineTokenInstructionType_def
      zero_token_data_def key_wire_def misread_def take_31_butlast Let_def split: option.splits)

text \<open>Decoding the system program's wire format gives back the instruction's fields.\<close>

theorem DecodeSystemProgramData_wire:
  assumes "b58_decode E s = Some (system_wire m)" "\<forall>k \<in> set (system_keys m). length k = 32"
  shows "DecodeSystemProgramData E s = Inr (system_decoded E m)"
  using assms
  by (cases m)
    (auto simp: DecodeSystemProgramData_def zero_system_data_def idx_def slice_from_def slice_def system_body_def
      determineSystemInstructionType_def)

lemma DecodeTokenProgramData_wire_witness:
  "DecodeTokenProgramData (sample_ext\<lparr>b58_decode := (\<lambda>s. Some (token_wire (SetAuthority_ix 2 (Some (replicate 32 9)))))\<rparr>) ''x'' =
     Inr (zero_token_data\<lparr>tk_RawType := 6, tk_Type := ''SetAuthority'', tk_AuthorityType := 2, tk_NewAuthority := 1 # replicate 31 9\<rparr>)"
  by (subst DecodeTokenProgramData_wire [of _ _ "SetAuthority_ix 2 (Some (replicate 32 9))"])
    (simp_all add: zero_token_data_def sample_ext_def misread_def butlast_conv_take)

lemma DecodeSystemProgramData_wire_witness:
  "DecodeSystemProgramData (sample_ext\<lparr>b58_decode := (\<lambda>s. Some (system_wire (CreateAccount_ix 7 9 zero_key)))\<rparr>) ''x'' =
     Inr \<lparr>sd_RawType = 0, sd_Type = ''CreateAccount'', sd_Lamports = 7, sd_Space = 9, sd_ProgramID = zero_key\<rparr>"
  by (subst DecodeSystemProgramData_wire [of _ _ "CreateAccount_ix 7 9 zero_key"])
    (simp_all add: zero_key_def sample_ext_def)

section \<open>Amount strings\<close>

lemma amount_text_parses:
  assumes "z \<noteq> 0"
  shows "\<exists>s. amount_text w (Fin z) = Inr s \<and> bf_set_string s = Some (Fin (rnd 64 (of_int (uint w) / z)))"
  using assms by (auto simp: amount_text_def bf_of_int_def set_string_text_f rnd_representable)

lemma amount_text_float:
  assumes "amount_text w (pow10 d) = Inr s" "0 \<le> d" "d \<le> 22" "uint w \<le> 2 ^ 51"
  shows "\<exists>v f. bf_set_string s = Some v \<and> bf_float64 v = Fin f \<and> rhe (f * 10 ^ nat d) = uint w"
proof -
  have "bf_set_string s = Some (Fin (rnd 64 (of_int (uint w) / 10 ^ nat d)))"
    using amount_text_parses [of "10 ^ nat d" w] assms pow10_exact [of d] by auto
  moreover have "bf_float64 (Fin (rnd 64 (of_int (uint w) / 10 ^ nat d))) =
      Fin (rnd 53 (rnd 64 (of_int (uint w) / 10 ^ nat d)))"
    using assms by (intro amount_float) auto
  ultimately show ?thesis using amount_recovered [of "uint w" "nat d"] assms by auto
qed

lemma token_transfer_amount:
  assumes "processInstruction E ix km bdiffs native tx a b = Inr (t, True)"
    and "prog_of (getAllAccountKeys tx) ix = TOKEN_PROGRAM" "DecodeTokenProgramData E (ix_Data ix) = Inr d"
  shows "amount_text (tk_Amount d) (pow10 (tr_Decimals t)) = Inr (tr_Amount t)"
  using assms
  by (auto simp: processInstruction_def token_transfer_def prog_of_def Let_def ok_iff program_neq
      split: if_splits option.splits prod.splits)

lemma native_transfer_amount:
  assumes "processInstruction E ix km bdiffs native tx a b = Inr (t, True)"
    and "prog_of (getAllAccountKeys tx) ix = SYSTEM_PROGRAM" "DecodeSystemProgramData E (ix_Data ix) = Inr d"
  shows "amount_text (sd_Lamports d) (bf_of_int (10 ^ 9)) = Inr (tr_Amount t)"
  using assms
  by (auto simp: processInstruction_def system_transfer_def prog_of_def Let_def ok_iff program_neq
      split: if_splits option.splits prod.splits)

section \<open>Properties\<close>

lemma sample_token_processed:
  "processInstruction sample_ext \<lparr>ix_Accounts = [3, 7, 4, 0], ix_Data = ''in'', ix_ProgramIdIndex = 2\<rparr>
     Map.empty Map.empty Map.empty sample_tx 0 0 =
   Inr (zero_transfer\<lparr>tr_FromTokenAccount := ''userSol'', tr_ToTokenAccount := ''vaultSol'', tr_Authority := ''wallet'',
     tr_Mint := WSOL, tr_Decimals := 1, tr_Amount := ''0.2'', tr_Type := ''token''\<rparr>, True)"
  by code_simp

lemma sample_native_processed:
  "processInstruction sample_ext \<lparr>ix_Accounts = [0, 11], ix_Data = ''fee'', ix_ProgramIdIndex = 10\<rparr>
     Map.empty Map.empty Map.empty sample_tx (- 1) 1 =
   Inr (zero_transfer\<lparr>tr_InnerIndex := - 1, tr_IxIndex := 1, tr_FromUserAccount := ''wallet'', tr_ToUserAccount := ''fees'',
       tr_Amount := ''0.000000005'', tr_Mint := WSOL, tr_Type := ''native''\<rparr>, True)"
  by code_simp

text \<open>
  C21: The amount string of a token transfer, read back and rounded to a float64 as the swap handler
  does, determines the raw token amount for up to 22 decimals and raw amounts up to \<open>2 ^ 51\<close>.
\<close>

theorem token_amount_recovered:
  assumes "processInstruction E ix km bdiffs native tx a b = Inr (t, True)"
    and "prog_of (getAllAccountKeys tx) ix = TOKEN_PROGRAM" "DecodeTokenProgramData E (ix_Data ix) = Inr d"
    and "0 \<le> tr_Decimals t" "tr_Decimals t \<le> 22" "uint (tk_Amount d) \<le> 2 ^ 51"
  shows "\<exists>v f. bf_set_string (tr_Amount t) = Some v \<and> bf_float64 v = Fin f \<and>
     rhe (f * 10 ^ nat (tr_Decimals t)) = uint (tk_Amount d)"
  by (rule amount_text_float [OF token_transfer_amount [OF assms(1-3)] assms(4-6)])

lemma token_amount_recovered_witness:
  "\<exists>v f. bf_set_string ''0.2'' = Some v \<and> bf_float64 v = Fin f \<and> rhe (f * 10 ^ nat 1) = 2"
proof -
  have "DecodeTokenProgramData sample_ext ''in'' =
      Inr (zero_token_data\<lparr>tk_RawType := 12, tk_Type := ''TransferChecked'', tk_Decimals := 1, tk_Amount := 2\<rparr>)"
    by code_simp
  moreover have "prog_of (getAllAccountKeys sample_tx) \<lparr>ix_Accounts = [3, 7, 4, 0], ix_Data = ''in'', ix_ProgramIdIndex = 2\<rparr> = TOKEN_PROGRAM"
    by code_simp
  ultimately show ?thesis using token_amount_recovered [OF sample_token_processed] by simp
qed

text \<open>
  The same for a native transfer: its string determines the lamports up to \<open>2 ^ 51\<close>.\<close>

lemma native_amount_recovered:
  assumes "processInstruction E ix km bdiffs native tx a b = Inr (t, True)"
    and "prog_of (getAllAccountKeys tx) ix = SYSTEM_PROGRAM" "DecodeSystemProgramData E (ix_Data ix) = Inr d"
    and "uint (sd_Lamports d) \<le> 2 ^ 51"
  shows "\<exists>v f. bf_set_string (tr_Amount t) = Some v \<and> bf_float64 v = Fin f \<and> rhe (f * 10 ^ 9) = uint (sd_Lamports d)"
proof -
  have "amount_text (sd_Lamports d) (pow10 9) = Inr (tr_Amount t)"
    using native_transfer_amount [OF assms(1-3)] pow10_exact [of 9] by (simp add: bf_of_int_def)
  from amount_text_float [OF this _ _ assms(4)] show ?thesis by simp
qed

lemma native_amount_recovered_witness:
  "\<exists>v f. bf_set_string ''0.000000005'' = Some v \<and> bf_float64 v = Fin f \<and> rhe (f * 10 ^ 9) = 5"
proof -
  have "DecodeSystemProgramData sample_ext ''fee'' =
      Inr (zero_system_data\<lparr>sd_RawType := 2, sd_Type := ''Transfer'', sd_Lamports := 5\<rparr>)"
    by code_simp
  moreover have "prog_of (getAllAccountKeys sample_tx) \<lparr>ix_Accounts = [0, 11], ix_Data = ''fee'', ix_ProgramIdIndex = 10\<rparr> = SYSTEM_PROGRAM"
    by code_simp
  ultimately show ?thesis using native_amount_recovered [OF sample_native_processed] by simp
qed

end
