(* ===== verification/Metadata.thy ===== *)
theory Metadata
  imports Instructions
begin

text \<open>
  Metadata of a mint (internal/solana/service.go): the Metaplex account, the Token-2022 metadata
  extension with its type-length-value list, and their order. The RPC client, the key functions,
  zstd and the borsh decoders are libraries: the record \<open>chain\<close> passes them in.
\<close>

section \<open>The client and the libraries\<close>

text \<open>An account as the client returns it; \<open>None\<close> data is the nil slice of an account that does not exist.\<close>

record account_info =
  ai_Data :: "byte list option"
  ai_Owner :: pubkey

record raw_extension =
  ex_UpdateAuthority :: "byte list"
  ex_Mint :: "byte list"
  ex_Name :: string
  ex_Symbol :: string
  ex_URI :: string
  ex_AdditionalMetadata :: "(string \<times> string) list"

text \<open>
  \<open>ch_account k a\<close> is the answer to the k-th request for the account \<open>a\<close>, \<open>ch_pda\<close> is
  FindProgramAddress, \<open>ch_metadata\<close> is tokenmeta.MetadataDeserialize and \<open>ch_mint\<close> MintAccountFromData.
\<close>

record 'm chain =
  ch_account :: "nat \<Rightarrow> string \<Rightarrow> account_info option"
  ch_key :: "string \<Rightarrow> pubkey"
  ch_base58 :: "pubkey \<Rightarrow> string"
  ch_key_of_bytes :: "byte list \<Rightarrow> pubkey"
  ch_pda :: "byte list list \<Rightarrow> pubkey \<Rightarrow> pubkey option"
  ch_zstd :: "byte list \<Rightarrow> byte list option"
  ch_metadata :: "byte list \<Rightarrow> metadata option"
  ch_extension :: "byte list \<Rightarrow> raw_extension option"
  ch_mint :: "byte list \<Rightarrow> 'm option"

definition METAPLEX_PROGRAM_ID :: "'m chain \<Rightarrow> pubkey" where
  "METAPLEX_PROGRAM_ID C = ch_key C ''metaqbxxUerdq28cj1RbAWkYQm3ybzjb6a8bt518x1s''"

definition TOKEN_2022_PROGRAM_ID :: "'m chain \<Rightarrow> pubkey" where
  "TOKEN_2022_PROGRAM_ID C = ch_key C ''TokenzQdBNbLqP5VEhdkAS6EPFLC1PHnBqCXEpPxuEb''"

section \<open>The mint account\<close>

text \<open>Two attempts; a failed request or absent data is tried again, undecodable data is not.\<close>

fun mint_attempts :: "'m chain \<Rightarrow> 'm \<Rightarrow> string \<Rightarrow> nat list \<Rightarrow> 'm" where
  "mint_attempts C zero address [] = zero"
| "mint_attempts C zero address (i # is) =
     (case ch_account C i address of
        None \<Rightarrow> mint_attempts C zero address is
      | Some accountInfo \<Rightarrow>
          (case ai_Data accountInfo of
             None \<Rightarrow> mint_attempts C zero address is
           | Some data \<Rightarrow> (case ch_mint C data of None \<Rightarrow> zero | Some mintData \<Rightarrow> mintData)))"

definition GetMintData :: "'m chain \<Rightarrow> 'm \<Rightarrow> string \<Rightarrow> 'm" where
  "GetMintData C zero address = mint_attempts C zero address [0..<2]"

section \<open>The metadata extension\<close>

definition accountTypeMint :: byte where
  "accountTypeMint = 1"

definition extensionTypeTokenMetadata :: nat where
  "extensionTypeTokenMetadata = 19"

definition baseAccountLength :: nat where
  "baseAccountLength = 165"

record token_metadata_extension =
  te_UpdateAuthority :: pubkey
  te_Mint :: pubkey
  te_Name :: string
  te_Symbol :: string
  te_URI :: string
  te_AdditionalMetadata :: "string \<rightharpoonup> string"

datatype extension_error = NoExtensions | UnexpectedAccountType byte | MalformedTlv | BorshError | NoMetadata

text \<open>The borsh struct copied into the result; of pairs with the same key the last one stays.\<close>

definition decode_extension :: "'m chain \<Rightarrow> byte list \<Rightarrow> extension_error + token_metadata_extension" where
  "decode_extension C raw =
     (case ch_extension C raw of
        None \<Rightarrow> Inl BorshError
      | Some tmp \<Rightarrow> Inr \<lparr>te_UpdateAuthority = ch_key_of_bytes C (ex_UpdateAuthority tmp), te_Mint = ch_key_of_bytes C (ex_Mint tmp),
          te_Name = ex_Name tmp, te_Symbol = ex_Symbol tmp, te_URI = ex_URI tmp,
          te_AdditionalMetadata = foldl (\<lambda>m (k, v). m(k \<mapsto> v)) Map.empty (ex_AdditionalMetadata tmp)\<rparr>)"

text \<open>The loop over the entries, at index \<open>i\<close>. A uint16 length is never negative.\<close>

function tlv_scan :: "'m chain \<Rightarrow> byte list \<Rightarrow> nat \<Rightarrow> (extension_error + token_metadata_extension) go" where
  "tlv_scan C tlv i =
     (if i + 4 \<le> length tlv then
        go_bind (slice tlv (int i) (int (i + 2))) (\<lambda>t.
        go_bind (slice tlv (int (i + 2)) (int (i + 4))) (\<lambda>l.
          if length tlv < i + 4 + le_nat l then Inr (Inl MalformedTlv)
          else if le_nat t = extensionTypeTokenMetadata then
            go_bind (slice tlv (int (i + 4)) (int (i + 4 + le_nat l))) (\<lambda>raw. Inr (decode_extension C raw))
          else tlv_scan C tlv (i + (4 + le_nat l))))
      else Inr (Inl NoMetadata))"
  by pat_completeness auto
termination
  by (relation "measure (\<lambda>(C, tlv, i). length tlv - i)") auto

declare tlv_scan.simps [simp del]

definition ParseMetadataExtension :: "'m chain \<Rightarrow> byte list \<Rightarrow> (extension_error + token_metadata_extension) go" where
  "ParseMetadataExtension C data =
     (if length data \<le> baseAccountLength then Inr (Inl NoExtensions)
      else go_bind (idx data (int baseAccountLength)) (\<lambda>accountType.
        if accountType \<noteq> accountTypeMint then Inr (Inl (UnexpectedAccountType accountType))
        else go_bind (slice_from data (int (baseAccountLength + 1))) (\<lambda>tlv. tlv_scan C tlv 0)))"

section \<open>Metadata of a mint\<close>

text \<open>\<open>None\<close> is an error.\<close>

definition decompress :: "'m chain \<Rightarrow> byte list \<Rightarrow> byte list option" where
  "decompress C b =
     (if length b = 0 then None
      else if take 4 b = [0x28, 0xb5, 0x2f, 0xfd] then ch_zstd C b
      else Some b)"

definition go_bytes :: "string \<Rightarrow> byte list" where
  "go_bytes s = map of_char s"

text \<open>The metadata pointer and whether the error is set, of metaplex and of token2022.\<close>

definition metaplex_metadata :: "'m chain \<Rightarrow> pubkey \<Rightarrow> metadata option \<times> bool" where
  "metaplex_metadata C mint =
     (case ch_pda C [go_bytes ''metadata'', METAPLEX_PROGRAM_ID C, mint] (METAPLEX_PROGRAM_ID C) of
        None \<Rightarrow> (None, True)
      | Some metaPDA \<Rightarrow>
          (case ch_account C 0 (ch_base58 C metaPDA) of
             None \<Rightarrow> (None, True)
           | Some acc \<Rightarrow>
               (case ai_Data acc of
                  None \<Rightarrow> (None, False)
                | Some data \<Rightarrow>
                    (case decompress C data of
                       None \<Rightarrow> (None, True)
                     | Some raw \<Rightarrow> (case ch_metadata C raw of None \<Rightarrow> (None, True) | Some mpx \<Rightarrow> (Some mpx, False))))))"

definition token2022 :: "'m chain \<Rightarrow> pubkey \<Rightarrow> (metadata option \<times> bool) go" where
  "token2022 C mint =
     (case ch_account C 0 (ch_base58 C mint) of
        None \<Rightarrow> Inr (None, True)
      | Some acc \<Rightarrow>
          (case ai_Data acc of
             None \<Rightarrow> Inr (None, False)
           | Some data \<Rightarrow>
               if ai_Owner acc \<noteq> TOKEN_2022_PROGRAM_ID C then Inr (None, False)
               else go_bind (ParseMetadataExtension C data) (\<lambda>r. Inr
                 (case r of
                    Inl e \<Rightarrow> (None, True)
                  | Inr ext \<Rightarrow> (Some \<lparr>md_Name = te_Name ext, md_Symbol = te_Symbol ext, md_URI = te_URI ext\<rparr>, False)))))"

definition GetMetadata :: "'m chain \<Rightarrow> string \<Rightarrow> (metadata option \<times> bool) go" where
  "GetMetadata C mintStr =
     (let mint = ch_key C mintStr; (md, err) = metaplex_metadata C mint in
      if md \<noteq> None then Inr (md, err)
      else go_bind (token2022 C mint) (\<lambda>(md, err). if md \<noteq> None then Inr (md, err) else Inr (None, False)))"

section \<open>Lemmas\<close>

lemma slice_in_range: "0 \<le> i \<Longrightarrow> i \<le> j \<Longrightarrow> j \<le> int (length xs) \<Longrightarrow> slice xs i j = Inr (take (nat j - nat i) (drop (nat i) xs))"
  by (simp add: slice_def)

text \<open>No slice of the loop is out of bounds, whatever the bytes.\<close>

lemma tlv_scan_total: "ok (tlv_scan C tlv i)"
proof (induction C tlv i rule: tlv_scan.induct)
  case (1 C tlv i)
  then show ?case
    by (subst tlv_scan.simps) (auto simp: slice_in_range)
qed

lemma ParseMetadataExtension_total: "ok (ParseMetadataExtension C data)"
  using tlv_scan_total by (auto simp: ParseMetadataExtension_def idx_def slice_from_def)

text \<open>GetMetadata returns normally and its error is always nil: the errors of both look-ups are dropped.\<close>

lemma GetMetadata_total: "\<exists>md. GetMetadata C a = Inr (md, False)"
proof -
  have m: "md = None \<or> \<not> err" if "metaplex_metadata C k = (md, err)" for k md err
    using that by (auto simp: metaplex_metadata_def split: option.splits)
  obtain md err where t: "token2022 C (ch_key C a) = Inr (md, err)" "md = None \<or> \<not> err"
  proof -
    obtain r where "ParseMetadataExtension C d = Inr (r d)" for d
      using ParseMetadataExtension_total [of C] unfolding ok_conv by metis
    then show thesis
      using that by (cases "token2022 C (ch_key C a)") (auto simp: token2022_def split: option.splits sum.splits if_splits)
  qed
  show ?thesis
    using t m [of "ch_key C a"] by (cases "metaplex_metadata C (ch_key C a)") (auto simp: GetMetadata_def)
qed

section \<open>The wire format of the extensions\<close>

definition tlv_entry :: "nat \<times> byte list \<Rightarrow> byte list" where
  "tlv_entry = (\<lambda>(t, v). nat_le 2 t @ nat_le 2 (length v) @ v)"

definition entry_ok :: "nat \<times> byte list \<Rightarrow> bool" where
  "entry_ok = (\<lambda>(t, v). t < 2 ^ 16 \<and> length v < 2 ^ 16)"

text \<open>The entry the loop answers with: the first of the metadata type.\<close>

definition answer_of :: "'m chain \<Rightarrow> (nat \<times> byte list) list \<Rightarrow> extension_error + token_metadata_extension" where
  "answer_of C entries = (case filter (\<lambda>(t, v). t = 19) entries of [] \<Rightarrow> Inl NoMetadata | (t, v) # _ \<Rightarrow> decode_extension C v)"

lemma answer_of_simps:
  "answer_of C [] = Inl NoMetadata"
  "answer_of C ((t, v) # entries) = (if t = 19 then decode_extension C v else answer_of C entries)"
  by (simp_all add: answer_of_def)

lemma tlv_entry_pair: "tlv_entry (t, v) = nat_le 2 t @ nat_le 2 (length v) @ v"
  by (simp add: tlv_entry_def)

lemma tlv_scan_entries:
  assumes "\<forall>e \<in> set entries. entry_ok e" "length rest < 4"
  shows "tlv_scan C (pre @ concat (map tlv_entry entries) @ rest) (length pre) = Inr (answer_of C entries)"
  using assms(1)
proof (induction entries arbitrary: pre)
  case Nil
  then show ?case using assms(2) by (subst tlv_scan.simps) (simp add: answer_of_def)
next
  case (Cons e entries)
  obtain t v where e: "e = (t, v)" by (cases e)
  have v: "t < 256 ^ 2" "length v < 256 ^ 2" using Cons.prems by (simp_all add: e entry_ok_def)
  let ?more = "concat (map tlv_entry entries) @ rest"
  let ?tlv = "pre @ nat_le 2 t @ nat_le 2 (length v) @ v @ ?more"
  have n: "le_nat (nat_le 2 t) = t" "le_nat (nat_le 2 (length v)) = length v" using v le_nat_nat_le by blast+
  have s: "slice ?tlv (int (length pre)) (int (length pre + 2)) = Inr (nat_le 2 t)"
    "slice ?tlv (int (length pre + 2)) (int (length pre + 4)) = Inr (nat_le 2 (length v))"
    "slice ?tlv (int (length pre + 4)) (int (length pre + 4 + length v)) = Inr v"
    by (simp_all add: slice_in_range)
  have len: "length (pre @ nat_le 2 t @ nat_le 2 (length v) @ v) = length pre + (4 + length v)" by simp
  have step: "tlv_scan C ?tlv (length pre) =
      (if t = 19 then Inr (decode_extension C v) else tlv_scan C ?tlv (length pre + (4 + length v)))"
    by (subst tlv_scan.simps) (simp only: s go_bind_Inr n, simp add: extensionTypeTokenMetadata_def)
  have "tlv_scan C ?tlv (length pre + (4 + length v)) = Inr (answer_of C entries)"
    using Cons.IH [of "pre @ nat_le 2 t @ nat_le 2 (length v) @ v"] Cons.prems unfolding len by simp
  then show ?case unfolding e answer_of_simps by (simp add: tlv_entry_pair step)
qed

text \<open>
  C39: ParseMetadataExtension inverts the wire format of a mint with extensions: from the base account, the account type and
  a list of well-formed entries (with at most three bytes of padding) it decodes the first entry of
  the metadata type, and reports that there is none otherwise.
\<close>

theorem ParseMetadataExtension_wire:
  assumes "length base = baseAccountLength" "\<forall>e \<in> set entries. entry_ok e" "length padding < 4"
  shows "ParseMetadataExtension C (base @ accountTypeMint # concat (map tlv_entry entries) @ padding) = Inr (answer_of C entries)"
  using tlv_scan_entries [OF assms(2,3), of C "[]"] assms(1)
  by (simp add: ParseMetadataExtension_def idx_def slice_from_def nth_append nat_add_distrib)

section \<open>Witness\<close>

definition plain_extension :: raw_extension where
  "plain_extension = \<lparr>ex_UpdateAuthority = [], ex_Mint = [], ex_Name = ''Coin'', ex_Symbol = ''C'', ex_URI = ''u'', ex_AdditionalMetadata = []\<rparr>"

definition plain_chain :: "unit chain" where
  "plain_chain = \<lparr>ch_account = (\<lambda>k a. None), ch_key = (\<lambda>s. []), ch_base58 = (\<lambda>k. []), ch_key_of_bytes = (\<lambda>b. b), ch_pda = (\<lambda>ss p. None),
     ch_zstd = (\<lambda>b. None), ch_metadata = (\<lambda>b. None), ch_extension = (\<lambda>b. if b = [7, 7] then Some plain_extension else None), ch_mint = (\<lambda>b. None)\<rparr>"

lemma ParseMetadataExtension_wire_witness:
  "ParseMetadataExtension plain_chain (replicate 165 0 @ accountTypeMint # concat (map tlv_entry [(3, [1]), (19, [7, 7])]) @ [0]) =
     Inr (Inr \<lparr>te_UpdateAuthority = [], te_Mint = [], te_Name = ''Coin'', te_Symbol = ''C'', te_URI = ''u'', te_AdditionalMetadata = Map.empty\<rparr>)"
  by (subst ParseMetadataExtension_wire)
    (simp_all add: baseAccountLength_def entry_ok_def answer_of_def decode_extension_def plain_chain_def plain_extension_def)

end
