(* ===== verification/Repo.thy ===== *)
theory Repo
  imports SolTypes GoText
begin

text \<open>
  The repository (internal/db/timescale_repo.go): its four tables as lists of rows, in the order in
  which the server scans them, and every statement as a function on them. The server's own
  behaviour that the statements rely on is spelled out here (primary keys, ON CONFLICT DO NOTHING,
  the ranges of INT columns, NULL, ORDER BY, LIMIT and OFFSET); what depends on its configuration
  or encoding is the record \<open>pg\<close>. The flag \<open>up\<close> of each operation says whether the connection
  delivered the statement.
\<close>

section \<open>Tables\<close>

record token_row =
  rt_Address :: string
  rt_Name :: string
  rt_Symbol :: string
  rt_Decimals :: int
  rt_Supply :: gonum
  rt_CreatedBlock :: int
  rt_CreatedTimestamp :: gotime
  rt_Deployer :: "string option"
  rt_Metadata :: "string option"
  rt_Network :: string

record pair_row =
  rp_Address :: string
  rp_Token :: string
  rp_QuoteToken :: string
  rp_CreatedBlock :: int
  rp_CreatedTimestamp :: gotime
  rp_Exchange :: string
  rp_Network :: string

record database =
  db_blocks :: "int list"
  db_swaps :: "swap_log list"
  db_tokens :: "token_row list"
  db_pairs :: "pair_row list"

definition empty_db :: database where
  "empty_db = \<lparr>db_blocks = [], db_swaps = [], db_tokens = [], db_pairs = []\<rparr>"

text \<open>Which byte strings a TEXT column takes, how text becomes a float8 and back, how many parameters a statement may have.\<close>

record pg =
  pg_text_ok :: "string \<Rightarrow> bool"
  pg_float8 :: "string \<Rightarrow> gonum option"
  pg_float_text :: "gonum \<Rightarrow> string"
  pg_max_params :: nat

datatype db_error = DbDown | BadValue | DuplicateKey | NoRows | ScanError

type_synonym 'a res = "db_error + 'a"

definition int4 :: "int \<Rightarrow> bool" where
  "int4 n \<longleftrightarrow> - (2 ^ 31) \<le> n \<and> n < 2 ^ 31"

text \<open>float8 arithmetic raises an error where the result overflows.\<close>

definition pg_range :: "gonum \<Rightarrow> gonum \<Rightarrow> gonum \<Rightarrow> gonum option" where
  "pg_range a b r = (if r \<in> {PosInf, NegInf} \<and> a \<notin> {PosInf, NegInf} \<and> b \<notin> {PosInf, NegInf} then None else Some r)"

definition pg_add :: "gonum \<Rightarrow> gonum \<Rightarrow> gonum option" where
  "pg_add a b = pg_range a b (f64_add a b)"

definition pg_sub :: "gonum \<Rightarrow> gonum \<Rightarrow> gonum option" where
  "pg_sub a b = pg_range a b (f64_sub a b)"

text \<open>SUM over float8, in scan order; COALESCE makes the empty sum 0.\<close>

fun pg_sum :: "gonum \<Rightarrow> gonum list \<Rightarrow> gonum option" where
  "pg_sum s [] = Some s"
| "pg_sum s (x # xs) = (case pg_add s x of None \<Rightarrow> None | Some s' \<Rightarrow> pg_sum s' xs)"

text \<open>The order of float8 values, which puts NaN last.\<close>

fun float8_rank :: "gonum \<Rightarrow> int" where
  "float8_rank NegInf = 0"
| "float8_rank (Fin x) = 1"
| "float8_rank PosInf = 2"
| "float8_rank NaN = 3"

instantiation gonum :: linorder
begin

definition less_eq_gonum :: "gonum \<Rightarrow> gonum \<Rightarrow> bool" where
  "a \<le> b \<longleftrightarrow> (case (a, b) of (Fin x, Fin y) \<Rightarrow> x \<le> y | _ \<Rightarrow> float8_rank a \<le> float8_rank b)"

definition less_gonum :: "gonum \<Rightarrow> gonum \<Rightarrow> bool" where
  "a < b \<longleftrightarrow> (a :: gonum) \<le> b \<and> \<not> b \<le> a"

instance
proof
  fix x y z :: gonum
  show "x < y \<longleftrightarrow> x \<le> y \<and> \<not> y \<le> x" by (rule less_gonum_def)
  show "x \<le> x" by (cases x) (auto simp: less_eq_gonum_def)
  show "x \<le> y \<Longrightarrow> y \<le> z \<Longrightarrow> x \<le> z" by (cases x; cases y; cases z) (auto simp: less_eq_gonum_def)
  show "x \<le> y \<Longrightarrow> y \<le> x \<Longrightarrow> x = y" by (cases x; cases y) (auto simp: less_eq_gonum_def)
  show "x \<le> y \<or> y \<le> x" by (cases x; cases y) (auto simp: less_eq_gonum_def)
qed

end

text \<open>ORDER BY in both directions; rows that tie keep the scan order.\<close>

definition order_asc :: "('a \<Rightarrow> 'k :: linorder) \<Rightarrow> 'a list \<Rightarrow> 'a list" where
  "order_asc key rows = sort_key key rows"

definition order_desc :: "('a \<Rightarrow> 'k :: linorder) \<Rightarrow> 'a list \<Rightarrow> 'a list" where
  "order_desc key rows = rev (sort_key key (rev rows))"

text \<open>
  sqlx fills a struct only when every column of the result is a \<open>db\<close> tag of the struct; else the
  call fails, whatever the rows.
\<close>

definition sqlx_scan :: "string list \<Rightarrow> string list \<Rightarrow> 'a res \<Rightarrow> 'a res" where
  "sqlx_scan columns tags result = (if list_all (\<lambda>c. c \<in> set tags) columns then result else Inl ScanError)"

section \<open>Blocks\<close>

definition MarkBlockProcessed :: "bool \<Rightarrow> int \<Rightarrow> database \<Rightarrow> db_error option \<times> database" where
  "MarkBlockProcessed up blockNumber db =
     (if \<not> up then (Some DbDown, db)
      else if \<not> int4 blockNumber then (Some BadValue, db)
      else if blockNumber \<in> set (db_blocks db) then (None, db)
      else (None, db\<lparr>db_blocks := db_blocks db @ [blockNumber]\<rparr>))"

fun block_gaps :: "int list \<Rightarrow> int list list" where
  "block_gaps (a # b # bs) = (if b - a - 1 > 0 then [[a + 1, b - 1]] else []) @ block_gaps (b # bs)"
| "block_gaps _ = []"

definition FindMissingBlocks :: "bool \<Rightarrow> database \<Rightarrow> int list list res" where
  "FindMissingBlocks up db =
     (if \<not> up then Inl DbDown
      else
        let blockNumbers = sort (remdups (db_blocks db)) in
        if blockNumbers = [] then Inr []
        else Inr (block_gaps (if hd blockNumbers = 0 then tl blockNumbers else blockNumbers)))"

section \<open>Swaps\<close>

definition swap_columns :: "string list" where
  "swap_columns = [''id'', ''wallet'', ''source'', ''blockNumber'', ''timestamp'', ''amountOut'', ''amountIn'',
     ''action'', ''pair'', ''token'', ''processed'']"

definition swap_tags :: "string list" where
  "swap_tags = swap_columns @ [''tokenSymbol'', ''quoteTokenSymbol'']"

text \<open>The numbers of the parameters in the VALUES lists, one list per swap.\<close>

definition swap_placeholders :: "swap_log list \<Rightarrow> nat list list" where
  "swap_placeholders swaps =
     map (\<lambda>(i, swap). map (\<lambda>j. i * length swap_columns + 1 + j) [0..<length swap_columns]) (enumerate 0 swaps)"

definition swap_key :: "swap_log \<Rightarrow> string \<times> string \<times> string \<times> gonum \<times> gonum \<times> int \<times> 64 word" where
  "swap_key s = (sl_ID s, sl_Pair s, sl_Action s, sl_AmountIn s, sl_AmountOut s, sl_Timestamp s, sl_BlockNumber s)"

text \<open>The row of a swap: its eleven columns.\<close>

definition swap_row :: "swap_log \<Rightarrow> swap_log" where
  "swap_row s = s\<lparr>sl_TokenSymbol := None, sl_QuoteTokenSymbol := None\<rparr>"

definition swap_texts :: "swap_log \<Rightarrow> string list" where
  "swap_texts s = [sl_ID s, sl_Wallet s, sl_Source s, sl_Action s, sl_Pair s, sl_Token s]"

text \<open>ON CONFLICT DO NOTHING: a row whose key is taken, by the table or by an earlier row of the statement, is skipped.\<close>

definition add_swap_row :: "swap_log list \<Rightarrow> swap_log \<Rightarrow> swap_log list" where
  "add_swap_row rows s = (if swap_key s \<in> swap_key ` set rows then rows else rows @ [swap_row s])"

definition InsertSwaps :: "pg \<Rightarrow> bool \<Rightarrow> swap_log list \<Rightarrow> database \<Rightarrow> db_error option \<times> database" where
  "InsertSwaps P up swaps db =
     (if length swaps = 0 then (None, db)
      else if \<not> up then (Some DbDown, db)
      else if pg_max_params P < length (concat (swap_placeholders swaps)) then (Some BadValue, db)
      else if \<not> list_all (\<lambda>s. int4 (uint (sl_BlockNumber s)) \<and> list_all (pg_text_ok P) (swap_texts s)) swaps
      then (Some BadValue, db)
      else (None, db\<lparr>db_swaps := foldl add_swap_row (db_swaps db) swaps\<rparr>))"

text \<open>
  The signature becomes part of the statement's text: a quote in it makes another statement,
  of which nothing is said here (\<open>None\<close>).
\<close>

definition DeleteSwapsUsingTx :: "bool \<Rightarrow> string \<Rightarrow> database \<Rightarrow> (db_error option \<times> database) option" where
  "DeleteSwapsUsingTx up signature db =
     (if CHR 0x27 \<in> set signature then None
      else if \<not> up then Some (Some DbDown, db)
      else Some (None, db\<lparr>db_swaps := filter (\<lambda>s. sl_ID s \<noteq> signature) (db_swaps db)\<rparr>))"

definition token_symbols :: "database \<Rightarrow> string \<Rightarrow> string list" where
  "token_symbols db address = map rt_Symbol (filter (\<lambda>t. rt_Address t = address) (db_tokens db))"

definition limit_offset :: "int \<Rightarrow> int \<Rightarrow> 'a list \<Rightarrow> 'a list res" where
  "limit_offset limit offset rows =
     (if limit < 0 \<or> offset < 0 then Inl BadValue else Inr (take (nat limit) (drop (nat offset) rows)))"

definition GetAllWalletSwaps :: "bool \<Rightarrow> string \<Rightarrow> int \<Rightarrow> int \<Rightarrow> database \<Rightarrow> swap_log list res" where
  "GetAllWalletSwaps up wallet limit offset db =
     (if \<not> up then Inl DbDown
      else sqlx_scan (swap_columns @ [''tokenSymbol'']) swap_tags
        (limit_offset limit offset (order_desc sl_Timestamp
          [sl\<lparr>sl_TokenSymbol := Some symbol\<rparr>. sl \<leftarrow> db_swaps db, sl_Wallet sl = wallet, symbol \<leftarrow> token_symbols db (sl_Token sl)])))"

text \<open>
  The symbol of the quote token of a swap's pair: \<open>SOL\<close> when the pair or the token is not in the
  tables (COALESCE of the two left joins).
\<close>

definition quote_symbols :: "database \<Rightarrow> string \<Rightarrow> string list" where
  "quote_symbols db address =
     (let pairs = filter (\<lambda>p. rp_Address p = address) (db_pairs db) in
      if pairs = [] then [''SOL'']
      else concat (map (\<lambda>p. let symbols = token_symbols db (rp_QuoteToken p) in if symbols = [] then [''SOL''] else symbols) pairs))"

definition day :: int where
  "day = 86400 * 10 ^ 9"

definition with_symbols :: "swap_log \<Rightarrow> string \<Rightarrow> string \<Rightarrow> swap_log" where
  "with_symbols sl symbol quote = sl\<lparr>sl_TokenSymbol := Some symbol, sl_QuoteTokenSymbol := Some quote\<rparr>"

definition GetSwapsOnDate :: "bool \<Rightarrow> string \<Rightarrow> gotime \<Rightarrow> database \<Rightarrow> swap_log list res" where
  "GetSwapsOnDate up wallet startDate db =
     (if \<not> up then Inl DbDown
      else sqlx_scan (swap_columns @ [''tokenSymbol'', ''quoteTokenSymbol'']) swap_tags
        (Inr (order_asc sl_Timestamp
          [with_symbols sl symbol quote.
             sl \<leftarrow> db_swaps db, sl_Wallet sl = wallet \<and> startDate div day \<le> sl_Timestamp sl div day,
             symbol \<leftarrow> token_symbols db (sl_Token sl), quote \<leftarrow> quote_symbols db (sl_Pair sl)])))"

definition swap_matches :: "int \<Rightarrow> string \<Rightarrow> gonum \<Rightarrow> swap_log \<Rightarrow> bool" where
  "swap_matches timestamp token amount s \<longleftrightarrow>
     sl_Token s = token \<and>
     (case f64_sub (sl_AmountOut s) amount of Fin d \<Rightarrow> Fin \<bar>d\<bar> \<le> f64_round (1 / 1000) | _ \<Rightarrow> False) \<and>
     \<bar>sl_Timestamp s - timestamp * 10 ^ 9\<bar> \<le> 3 * 10 ^ 9 \<and>
     sl_Timestamp s < timestamp * 10 ^ 9"

text \<open>\<open>Inr None\<close> is the nil pointer returned with a nil error when there is no row.\<close>

definition FindSwap :: "bool \<Rightarrow> int \<Rightarrow> string \<Rightarrow> gonum \<Rightarrow> database \<Rightarrow> swap_log option res" where
  "FindSwap up timestamp token amount db =
     (if \<not> up then Inl DbDown
      else sqlx_scan swap_columns swap_tags
        (case order_desc sl_Timestamp (filter (swap_matches timestamp token amount) (db_swaps db)) of
           [] \<Rightarrow> Inr None
         | s # _ \<Rightarrow> Inr (Some s)))"

definition FindFirstTokenSwaps :: "bool \<Rightarrow> string \<Rightarrow> database \<Rightarrow> swap_log list res" where
  "FindFirstTokenSwaps up token db =
     (if \<not> up then Inl DbDown
      else sqlx_scan swap_columns swap_tags
        (Inr (take 100 (order_asc sl_Timestamp (filter (\<lambda>s. sl_Token s = token) (db_swaps db))))))"

definition FindLatestSwap :: "bool \<Rightarrow> string \<Rightarrow> database \<Rightarrow> swap_log list res" where
  "FindLatestSwap up pair db =
     (if \<not> up then Inl DbDown
      else sqlx_scan swap_columns swap_tags
        (Inr (take 1 (order_desc sl_Timestamp
          (filter (\<lambda>s. sl_Pair s = pair \<and> (sl_Action s = ''BUY'' \<or> sl_Action s = ''SELL'')) (db_swaps db))))))"

definition holding_of :: "swap_log \<Rightarrow> gonum" where
  "holding_of s =
     (if sl_Action s = ''BUY'' then sl_AmountIn s
      else if sl_Action s = ''TRANSFER'' then sl_AmountIn s
      else if sl_Action s = ''SELL'' then gneg (sl_AmountOut s)
      else if sl_Action s = ''RECEIVE'' then gneg (sl_AmountOut s)
      else Fin 0)"

definition FindWalletTokenHoldings :: "bool \<Rightarrow> string \<Rightarrow> string \<Rightarrow> database \<Rightarrow> gonum res" where
  "FindWalletTokenHoldings up token wallet db =
     (if \<not> up then Inl DbDown
      else case pg_sum (Fin 0) (map holding_of (filter (\<lambda>s. sl_Token s = token \<and> sl_Wallet s = wallet) (db_swaps db))) of
             None \<Rightarrow> Inl BadValue
           | Some totalTokens \<Rightarrow> Inr totalTokens)"

definition trader_gain :: "swap_log \<Rightarrow> gonum" where
  "trader_gain s =
     (if sl_Action s = ''BUY'' then gneg (sl_AmountOut s)
      else if sl_Action s = ''SELL'' then sl_AmountIn s
      else if sl_Action s = ''RECEIVE'' then sl_AmountIn s
      else if sl_Action s = ''TRANSFER'' then gneg (sl_AmountOut s)
      else Fin 0)"

definition trader_pnl :: "string \<Rightarrow> database \<Rightarrow> (string \<times> gonum option) list" where
  "trader_pnl token db =
     (let rows = filter (\<lambda>s. sl_Token s = token) (db_swaps db)
      in map (\<lambda>w. (w, pg_sum (Fin 0) (map trader_gain (filter (\<lambda>s. sl_Wallet s = w) rows)))) (remdups (map sl_Wallet rows)))"

definition FindTopTraders :: "bool \<Rightarrow> string \<Rightarrow> int \<Rightarrow> database \<Rightarrow> string list res" where
  "FindTopTraders up token limit db =
     (let pnl = trader_pnl token db in
      if \<not> up then Inl DbDown
      else if None \<in> snd ` set pnl then Inl BadValue
      else limit_offset limit 0 (map fst (order_desc (the \<circ> snd) pnl)))"

record query_all =
  qa_Source :: string
  qa_Wallet :: "string option"
  qa_Token :: "string option"
  qa_Name :: "string option"
  qa_Symbol :: "string option"
  qa_Pair :: "string option"

definition QueryAll :: "bool \<Rightarrow> string \<Rightarrow> database \<Rightarrow> query_all list res" where
  "QueryAll up searchQuery db =
     (if \<not> up then Inl DbDown
      else
        let pair_res = take 1 (filter (\<lambda>p. p = searchQuery) (map sl_Pair (db_swaps db)));
            wallet_res = (if pair_res = [] then take 1 (filter (\<lambda>w. w = searchQuery) (map sl_Wallet (db_swaps db))) else []);
            token_res = take 1 (filter (\<lambda>t. rt_Name t = searchQuery \<or> rt_Symbol t = searchQuery \<or> rt_Address t = searchQuery)
              (db_tokens db))
        in Inr (
          map (\<lambda>p. \<lparr>qa_Source = ''pair'', qa_Wallet = None, qa_Token = None, qa_Name = None, qa_Symbol = None, qa_Pair = Some p\<rparr>) pair_res @
          map (\<lambda>w. \<lparr>qa_Source = ''wallet'', qa_Wallet = Some w, qa_Token = None, qa_Name = None, qa_Symbol = None, qa_Pair = None\<rparr>) wallet_res @
          map (\<lambda>t. \<lparr>qa_Source = ''token'', qa_Wallet = None, qa_Token = Some (rt_Address t), qa_Name = Some (rt_Name t),
             qa_Symbol = Some (rt_Symbol t), qa_Pair = None\<rparr>) token_res))"

section \<open>Tokens\<close>

text \<open>A nil or empty string is stored as NULL.\<close>

definition nullable :: "string option \<Rightarrow> string option" where
  "nullable s = (case s of None \<Rightarrow> None | Some t \<Rightarrow> if t = [] then None else Some t)"

definition token_texts_ok :: "pg \<Rightarrow> token \<Rightarrow> bool" where
  "token_texts_ok P t \<longleftrightarrow> list_all (pg_text_ok P)
     ([to_Address t, to_Name t, to_Symbol t, to_Network t] @
      (case nullable (to_Deployer t) of None \<Rightarrow> [] | Some d \<Rightarrow> [d]) @
      (case nullable (to_Metadata t) of None \<Rightarrow> [] | Some m \<Rightarrow> [m]))"

definition InsertToken :: "pg \<Rightarrow> bool \<Rightarrow> token \<Rightarrow> database \<Rightarrow> db_error option \<times> database" where
  "InsertToken P up t db =
     (if \<not> up then (Some DbDown, db)
      else case pg_float8 P (to_Supply t) of
          None \<Rightarrow> (Some BadValue, db)
        | Some supply \<Rightarrow>
            if \<not> token_texts_ok P t \<or> \<not> int4 (to_CreatedBlock t) then (Some BadValue, db)
            else if to_Address t \<in> rt_Address ` set (db_tokens db) then (Some DuplicateKey, db)
            else (None, db\<lparr>db_tokens := db_tokens db @ [\<lparr>rt_Address = to_Address t, rt_Name = to_Name t, rt_Symbol = to_Symbol t,
              rt_Decimals = uint (to_Decimals t), rt_Supply = supply, rt_CreatedBlock = to_CreatedBlock t,
              rt_CreatedTimestamp = to_CreatedTimestamp t, rt_Deployer = nullable (to_Deployer t),
              rt_Metadata = nullable (to_Metadata t), rt_Network = to_Network t\<rparr>]\<rparr>))"

text \<open>TRIM(TRAILING '0' FROM s), and the text FindToken reads as the supply.\<close>

definition trim_zeros :: "string \<Rightarrow> string" where
  "trim_zeros s = rev (dropWhile (\<lambda>c. c = CHR ''0'') (rev s))"

definition whole :: "gonum \<Rightarrow> bool" where
  "whole a = (case a of Fin x \<Rightarrow> x = of_int \<lfloor>x\<rfloor> | _ \<Rightarrow> True)"

definition supply_text :: "pg \<Rightarrow> gonum \<Rightarrow> string" where
  "supply_text P supply = (if whole supply then pg_float_text P supply else trim_zeros (pg_float_text P supply))"

definition token_of_row :: "pg \<Rightarrow> token_row \<Rightarrow> token" where
  "token_of_row P r = \<lparr>to_Name = rt_Name r, to_Symbol = rt_Symbol r, to_Decimals = word_of_int (rt_Decimals r),
     to_Address = rt_Address r, to_Supply = supply_text P (rt_Supply r), to_CreatedBlock = rt_CreatedBlock r,
     to_Network = rt_Network r, to_CreatedTimestamp = rt_CreatedTimestamp r, to_Deployer = rt_Deployer r,
     to_Metadata = rt_Metadata r\<rparr>"

definition FindToken_row :: "pg \<Rightarrow> bool \<Rightarrow> string \<Rightarrow> database \<Rightarrow> token res" where
  "FindToken_row P up address db =
     (if \<not> up then Inl DbDown
      else case filter (\<lambda>r. rt_Address r = address) (db_tokens db) of
          [] \<Rightarrow> Inl NoRows
        | r # _ \<Rightarrow> if 0 \<le> rt_Decimals r \<and> rt_Decimals r < 256 then Inr (token_of_row P r) else Inl ScanError)"

definition update_tokens :: "string \<Rightarrow> (token_row \<Rightarrow> token_row) \<Rightarrow> database \<Rightarrow> database" where
  "update_tokens address f db = db\<lparr>db_tokens := map (\<lambda>r. if rt_Address r = address then f r else r) (db_tokens db)\<rparr>"

definition UpdateTokenInfo :: "pg \<Rightarrow> bool \<Rightarrow> string \<Rightarrow> metadata \<Rightarrow> database \<Rightarrow> db_error option \<times> database" where
  "UpdateTokenInfo P up address md db =
     (if \<not> up then (Some DbDown, db)
      else if \<not> list_all (pg_text_ok P) [md_Name md, md_Symbol md, md_URI md, address] then (Some BadValue, db)
      else (None, update_tokens address
        (\<lambda>r. r\<lparr>rt_Name := md_Name md, rt_Symbol := md_Symbol md, rt_Metadata := Some (md_URI md)\<rparr>) db))"

definition UpdateTokenDecimals :: "bool \<Rightarrow> string \<Rightarrow> int \<Rightarrow> database \<Rightarrow> db_error option \<times> database" where
  "UpdateTokenDecimals up address decimals db =
     (if \<not> up then (Some DbDown, db)
      else if \<not> int4 decimals then (Some BadValue, db)
      else (None, update_tokens address (\<lambda>r. r\<lparr>rt_Decimals := decimals\<rparr>) db))"

text \<open>
  strconv.ParseFloat: the names of the special values in any case, else a decimal; an error on a
  malformed or too large number. The hexadecimal forms are left out.
\<close>

definition lower_char :: "char \<Rightarrow> char" where
  "lower_char c = (if c \<in> set ''ABCDEFGHIJKLMNOPQRSTUVWXYZ'' then char_of (of_char c + 32 :: nat) else c)"

definition parse_float :: "string \<Rightarrow> gonum option" where
  "parse_float s =
     (let (neg, t) = scan_sign s in
      if map lower_char t = ''inf'' \<or> map lower_char t = ''infinity'' then Some (if neg then NegInf else PosInf)
      else if map lower_char s = ''nan'' then Some NaN
      else (case parse_decimal s of
          None \<Rightarrow> None
        | Some v \<Rightarrow> (case f64_round v of Fin x \<Rightarrow> Some (Fin x) | _ \<Rightarrow> None)))"

text \<open>The address is unique, so at most one row is updated and its range error is the statement's.\<close>

definition UpdateTokenSupply :: "bool \<Rightarrow> string \<Rightarrow> string \<Rightarrow> string \<Rightarrow> database \<Rightarrow> db_error option \<times> database" where
  "UpdateTokenSupply up address changeAmount action db =
     (case parse_float changeAmount of
        None \<Rightarrow> (Some BadValue, db)
      | Some amount \<Rightarrow>
          if action \<noteq> ''mint'' \<and> action \<noteq> ''burn'' then (Some BadValue, db)
          else if \<not> up then (Some DbDown, db)
          else
            (let op = (if action = ''mint'' then pg_add else pg_sub) in
             if \<exists>r \<in> set (db_tokens db). rt_Address r = address \<and> op (rt_Supply r) amount = None then (Some BadValue, db)
             else (None, update_tokens address (\<lambda>r. r\<lparr>rt_Supply := the (op (rt_Supply r) amount)\<rparr>) db)))"

section \<open>Pairs\<close>

definition pair_columns :: "string list" where
  "pair_columns = [''address'', ''token'', ''quoteToken'', ''createdBlock'', ''createdTimestamp'', ''exchange'', ''network'']"

text \<open>The \<open>db\<close> tags of the struct Pair and of its nested quote token.\<close>

definition pair_tags :: "string list" where
  "pair_tags = [''address'', ''network'', ''exchange'', ''token'', ''quoteToken'', ''quoteToken.identifier'',
     ''quoteToken.address'', ''createdblock'', ''createdtimestamp'']"

definition InsertPair :: "pg \<Rightarrow> bool \<Rightarrow> pair \<Rightarrow> database \<Rightarrow> db_error option \<times> database" where
  "InsertPair P up p db =
     (if \<not> up then (Some DbDown, db)
      else if \<not> list_all (pg_text_ok P) [pa_Address p, pa_Token p, qs_Address (pa_QuoteToken p), pa_Exchange p, pa_Network p] \<or>
         \<not> int4 (pa_CreatedBlock p) then (Some BadValue, db)
      else if pa_Address p \<in> rp_Address ` set (db_pairs db) then (Some DuplicateKey, db)
      else (None, db\<lparr>db_pairs := db_pairs db @ [\<lparr>rp_Address = pa_Address p, rp_Token = pa_Token p,
        rp_QuoteToken = qs_Address (pa_QuoteToken p), rp_CreatedBlock = pa_CreatedBlock p,
        rp_CreatedTimestamp = pa_CreatedTimestamp p, rp_Exchange = pa_Exchange p, rp_Network = pa_Network p\<rparr>]\<rparr>))"

text \<open>The value a row would give, were its columns the struct's.\<close>

definition pair_of_row :: "pair_row \<Rightarrow> pair" where
  "pair_of_row r = \<lparr>pa_Address = rp_Address r, pa_Network = rp_Network r, pa_Exchange = rp_Exchange r, pa_Token = rp_Token r,
     pa_QuoteToken = \<lparr>qs_Identifier = [], qs_Address = rp_QuoteToken r\<rparr>, pa_CreatedBlock = rp_CreatedBlock r,
     pa_CreatedTimestamp = rp_CreatedTimestamp r\<rparr>"

definition FindPair_row :: "bool \<Rightarrow> string \<Rightarrow> database \<Rightarrow> pair res" where
  "FindPair_row up address db =
     (if \<not> up then Inl DbDown
      else sqlx_scan pair_columns pair_tags
        (case filter (\<lambda>r. rp_Address r = address) (db_pairs db) of [] \<Rightarrow> Inl NoRows | r # _ \<Rightarrow> Inr (pair_of_row r)))"

definition FindPairsByToken :: "bool \<Rightarrow> string \<Rightarrow> database \<Rightarrow> pair list res" where
  "FindPairsByToken up token db =
     (if \<not> up then Inl DbDown
      else sqlx_scan pair_columns pair_tags (Inr (map pair_of_row (filter (\<lambda>r. rp_Token r = token) (db_pairs db)))))"

section \<open>Missing blocks\<close>

definition in_ranges :: "int \<Rightarrow> int list list \<Rightarrow> bool" where
  "in_ranges n rs \<longleftrightarrow> (\<exists>r \<in> set rs. r ! 0 \<le> n \<and> n \<le> r ! 1)"

lemma in_ranges_simps [simp]:
  "in_ranges n [] \<longleftrightarrow> False"
  "in_ranges n (r # rs) \<longleftrightarrow> (r ! 0 \<le> n \<and> n \<le> r ! 1) \<or> in_ranges n rs"
  by (auto simp: in_ranges_def)

lemma block_gaps_exact:
  "sorted_wrt (<) bs \<Longrightarrow> in_ranges n (block_gaps bs) \<longleftrightarrow> n \<notin> set bs \<and> (\<exists>a \<in> set bs. a < n) \<and> (\<exists>b \<in> set bs. n < b)"
proof (induction bs rule: block_gaps.induct)
  case (1 a b bs)
  have ord: "a < b" "\<And>x. x \<in> set bs \<Longrightarrow> b < x" "\<And>x. x \<in> set bs \<Longrightarrow> a < x" using "1.prems" by auto
  have IH: "in_ranges n (block_gaps (b # bs)) \<longleftrightarrow> n \<notin> set (b # bs) \<and> (\<exists>a \<in> set (b # bs). a < n) \<and> (\<exists>b \<in> set (b # bs). n < b)"
    using 1 by simp
  have low: "\<not> in_ranges n (block_gaps (b # bs))" if "n \<le> b" unfolding IH using that ord(2) by force
  consider "n \<le> a" | "a < n" "n < b" | "n = b" | "b < n" by linarith
  then show ?case
  proof cases
    case 4
    have "a \<noteq> n" "a < n" "\<not> n \<le> b - 1" using 4 ord(1) by auto
    moreover have "(\<exists>x \<in> set (b # bs). x < n)" using 4 by auto
    moreover have "\<not> n < a" "\<not> n < b" using 4 ord by auto
    ultimately show ?thesis using IH by auto
  qed (use ord low in force)+
qed auto

lemma block_gaps_shape: "r \<in> set (block_gaps bs) \<Longrightarrow> length r = 2 \<and> r ! 0 \<le> r ! 1"
  by (induction bs rule: block_gaps.induct) (auto split: if_splits)

lemma sort_remdups_strict: "sorted_wrt (<) (sort (remdups xs))" for xs :: "int list"
  by (simp add: strict_sorted_iff)

definition usable_blocks :: "database \<Rightarrow> int set" where
  "usable_blocks db = (let B = set (db_blocks db) in if \<forall>b \<in> B. 0 \<le> b then B - {0} else B)"

lemma FindMissingBlocks_ranges:
  assumes "FindMissingBlocks True db = Inr rs"
  obtains bs where "rs = block_gaps bs" "sorted_wrt (<) bs" "set bs = usable_blocks db"
proof -
  define bl where "bl = sort (remdups (db_blocks db))"
  have bl: "sorted_wrt (<) bl" "set bl = set (db_blocks db)" by (simp_all add: bl_def sort_remdups_strict)
  show ?thesis
  proof (cases bl)
    case Nil
    then have "db_blocks db = []" using bl(2) by simp
    then show ?thesis using that [of "[]"] assms by (simp add: FindMissingBlocks_def usable_blocks_def)
  next
    case (Cons b bs)
    have rs: "rs = block_gaps (if b = 0 then bs else b # bs)"
      using assms Cons by (auto simp: FindMissingBlocks_def bl_def [symmetric])
    show ?thesis
    proof (cases "b = 0")
      case True
      then have "\<forall>x \<in> set bs. 0 < x" using bl(1) Cons by simp
      moreover have "set (db_blocks db) = insert 0 (set bs)" using bl(2) Cons True by simp
      ultimately have "set bs = usable_blocks db" unfolding usable_blocks_def by (auto simp: Let_def)
      then show ?thesis using that [of bs] rs True bl(1) Cons by simp
    next
      case False
      then have "(\<forall>x \<in> set (b # bs). 0 \<le> x) \<longrightarrow> 0 \<notin> set (b # bs)" using bl(1) Cons by force
      moreover have "set (db_blocks db) = set (b # bs)" using bl(2) Cons by simp
      ultimately have "set (b # bs) = usable_blocks db" unfolding usable_blocks_def Let_def by auto
      then show ?thesis using that [of "b # bs"] rs False bl(1) Cons by simp
    qed
  qed
qed

lemma range_members:
  assumes "FindMissingBlocks True db = Inr rs"
  shows "in_ranges n rs \<longleftrightarrow> n \<notin> usable_blocks db \<and> (\<exists>a \<in> usable_blocks db. a < n) \<and> (\<exists>b \<in> usable_blocks db. n < b)"
proof -
  obtain bs where bs: "rs = block_gaps bs" "sorted_wrt (<) bs" "set bs = usable_blocks db"
    using FindMissingBlocks_ranges [OF assms] by blast
  show ?thesis using block_gaps_exact [OF bs(2), of n] bs(1,3) by simp
qed

lemma range_shape:
  assumes "FindMissingBlocks True db = Inr rs"
  shows "\<forall>r \<in> set rs. length r = 2 \<and> r ! 0 \<le> r ! 1"
proof -
  obtain bs where "rs = block_gaps bs" using FindMissingBlocks_ranges [OF assms] by blast
  then show ?thesis using block_gaps_shape by blast
qed

text \<open>
  C18: The ranges FindMissingBlocks returns are well formed and cover exactly the block numbers that are
  not processed and lie between two processed ones; a processed block 0 that is the smallest does
  not count as a bound.
\<close>

theorem FindMissingBlocks_exact:
  assumes "FindMissingBlocks True db = Inr rs"
  shows "(\<forall>r \<in> set rs. length r = 2 \<and> r ! 0 \<le> r ! 1) \<and>
     (in_ranges n rs \<longleftrightarrow> n \<notin> usable_blocks db \<and> (\<exists>a \<in> usable_blocks db. a < n) \<and> (\<exists>b \<in> usable_blocks db. n < b))"
  using range_members [OF assms] range_shape [OF assms] by blast

definition blocks_db :: database where
  "blocks_db = empty_db\<lparr>db_blocks := [9, 0, 3, 5, 4]\<rparr>"

lemma FindMissingBlocks_exact_witness: "FindMissingBlocks True blocks_db = Inr [[6, 8]] \<and> in_ranges 7 [[6, 8]]"
proof -
  have r: "FindMissingBlocks True blocks_db = Inr [[6, 8]]" by code_simp
  from FindMissingBlocks_exact [OF r, of 7] show ?thesis using r
    by (simp add: usable_blocks_def blocks_db_def empty_db_def)
qed

section \<open>Swap rows\<close>

lemma swap_key_row [simp]: "swap_key (swap_row s) = swap_key s"
  by (simp add: swap_key_def swap_row_def)

lemma swap_row_wallet: "sl_Wallet (swap_row s) = sl_Wallet s"
  by (simp add: swap_row_def)

lemma add_rows_keys: "swap_key ` set (foldl add_swap_row rows ss) = swap_key ` set rows \<union> swap_key ` set ss"
  by (induction ss arbitrary: rows) (auto simp: add_swap_row_def)

lemma add_rows_distinct: "distinct (map swap_key rows) \<Longrightarrow> distinct (map swap_key (foldl add_swap_row rows ss))"
  by (induction ss arbitrary: rows) (auto simp: add_swap_row_def)

lemma add_rows_extend: "\<exists>extra. foldl add_swap_row rows ss = rows @ extra \<and> set extra \<subseteq> swap_row ` set ss"
proof (induction ss arbitrary: rows)
  case (Cons s ss)
  obtain extra where e: "foldl add_swap_row (add_swap_row rows s) ss = add_swap_row rows s @ extra" "set extra \<subseteq> swap_row ` set ss"
    using Cons by blast
  have "foldl add_swap_row rows (s # ss) = rows @ extra \<or> foldl add_swap_row rows (s # ss) = rows @ (swap_row s # extra)"
    using e(1) by (simp add: add_swap_row_def [of rows s] split: if_splits)
  moreover have "set (swap_row s # extra) \<subseteq> swap_row ` set (s # ss)" "set extra \<subseteq> swap_row ` set (s # ss)" using e(2) by auto
  ultimately show ?case by blast
qed simp

lemma add_rows_idem: "swap_key ` set ss \<subseteq> swap_key ` set rows \<Longrightarrow> foldl add_swap_row rows ss = rows"
  by (induction ss) (auto simp: add_swap_row_def)

text \<open>
  The promise of the interface SwapsRepo that its clients use: an insertion either fails and changes
  nothing, or stores a row for the key of every swap, keeps every stored row, adds only rows of the
  batch, and never two rows of one key.
\<close>

locale swap_store =
  fixes insert_swaps :: "bool \<Rightarrow> swap_log list \<Rightarrow> 's \<Rightarrow> db_error option \<times> 's"
    and stored :: "'s \<Rightarrow> swap_log list"
  assumes failed: "insert_swaps up swaps s = (Some e, s') \<Longrightarrow> s' = s"
    and keys: "insert_swaps up swaps s = (None, s') \<Longrightarrow>
      swap_key ` set (stored s') = swap_key ` set (stored s) \<union> swap_key ` set swaps"
    and kept: "insert_swaps up swaps s = (None, s') \<Longrightarrow>
      \<exists>extra. stored s' = stored s @ extra \<and> set extra \<subseteq> swap_row ` set swaps"
    and distinct_keys: "insert_swaps up swaps s = (None, s') \<Longrightarrow>
      distinct (map swap_key (stored s)) \<Longrightarrow> distinct (map swap_key (stored s'))"
    and nothing_to_do: "insert_swaps up [] s = (None, s)"
begin

lemma stored_key:
  assumes "insert_swaps up swaps s = (None, s')" "x \<in> set swaps"
  shows "\<exists>r \<in> set (stored s'). swap_key r = swap_key x"
proof -
  have "swap_key x \<in> swap_key ` set (stored s')" using keys [OF assms(1)] assms(2) by blast
  then show ?thesis by (auto simp: image_iff)
qed

lemma again_adds_nothing:
  assumes "insert_swaps up swaps s = (None, s')" "insert_swaps up' swaps s' = (None, s'')"
    and "distinct (map swap_key (stored s))"
  shows "stored s'' = stored s'"
proof -
  obtain extra where e: "stored s'' = stored s' @ extra" using kept [OF assms(2)] by blast
  have d: "distinct (map swap_key (stored s' @ extra))"
    using distinct_keys [OF assms(2) distinct_keys [OF assms(1,3)]] e by simp
  have "swap_key ` set (stored s' @ extra) = swap_key ` set (stored s')"
    using keys [OF assms(1)] keys [OF assms(2)] e by auto
  then have "swap_key ` set extra \<subseteq> swap_key ` set (stored s')" by auto
  then have "extra = []" using d by (cases extra) auto
  then show ?thesis using e by simp
qed

lemma any_outcome:
  "insert_swaps up swaps s = (r, s') \<Longrightarrow> distinct (map swap_key (stored s)) \<Longrightarrow> distinct (map swap_key (stored s'))"
  by (cases r) (auto dest: failed distinct_keys)

end

lemma InsertSwaps_cases:
  assumes "InsertSwaps P up swaps db = (r, db')"
  shows "(r \<noteq> None \<and> db' = db) \<or>
         (r = None \<and> db' = db\<lparr>db_swaps := foldl add_swap_row (db_swaps db) swaps\<rparr>)"
  using assms by (auto simp: InsertSwaps_def split: if_splits)

interpretation timescale: swap_store "InsertSwaps P" db_swaps for P
proof (unfold_locales, goal_cases)
  case (1 up swaps s e s')
  then show ?case using InsertSwaps_cases by fastforce
next
  case (2 up swaps s s')
  then show ?case using InsertSwaps_cases [OF 2] add_rows_keys by auto
next
  case (3 up swaps s s')
  then show ?case using InsertSwaps_cases [OF 3] add_rows_extend by auto
next
  case (4 up swaps s s')
  then show ?case using InsertSwaps_cases [OF 4(1)] add_rows_distinct by auto
qed (simp add: InsertSwaps_def)

section \<open>Reachable databases\<close>

inductive db_reach :: "pg \<Rightarrow> database \<Rightarrow> bool" for P where
  db_empty: "db_reach P empty_db"
| db_block: "db_reach P db \<Longrightarrow> MarkBlockProcessed up b db = (r, db') \<Longrightarrow> db_reach P db'"
| db_insert: "db_reach P db \<Longrightarrow> InsertSwaps P up swaps db = (r, db') \<Longrightarrow> db_reach P db'"
| db_delete: "db_reach P db \<Longrightarrow> DeleteSwapsUsingTx up sig db = Some (r, db') \<Longrightarrow> db_reach P db'"
| db_token: "db_reach P db \<Longrightarrow> InsertToken P up t db = (r, db') \<Longrightarrow> db_reach P db'"
| db_info: "db_reach P db \<Longrightarrow> UpdateTokenInfo P up a md db = (r, db') \<Longrightarrow> db_reach P db'"
| db_decimals: "db_reach P db \<Longrightarrow> UpdateTokenDecimals up a d db = (r, db') \<Longrightarrow> db_reach P db'"
| db_supply: "db_reach P db \<Longrightarrow> UpdateTokenSupply up a c act db = (r, db') \<Longrightarrow> db_reach P db'"
| db_pair: "db_reach P db \<Longrightarrow> InsertPair P up p db = (r, db') \<Longrightarrow> db_reach P db'"

definition db_ok :: "database \<Rightarrow> bool" where
  "db_ok db \<longleftrightarrow> distinct (db_blocks db) \<and> distinct (map swap_key (db_swaps db)) \<and>
     distinct (map rt_Address (db_tokens db)) \<and> distinct (map rp_Address (db_pairs db))"

lemma update_tokens_keys:
  "(\<And>r. rt_Address (f r) = rt_Address r) \<Longrightarrow> map rt_Address (db_tokens (update_tokens a f db)) = map rt_Address (db_tokens db)"
  by (simp add: update_tokens_def comp_def if_distrib cong: if_cong)

lemma update_tokens_rest [simp]:
  "db_blocks (update_tokens a f db) = db_blocks db" "db_swaps (update_tokens a f db) = db_swaps db"
  "db_pairs (update_tokens a f db) = db_pairs db"
  by (simp_all add: update_tokens_def)

lemma update_tokens_ok: "(\<And>r. rt_Address (f r) = rt_Address r) \<Longrightarrow> db_ok db \<Longrightarrow> db_ok (update_tokens a f db)"
  using update_tokens_keys [of f a db] by (simp add: db_ok_def update_tokens_rest)

lemmas db_ops_defs = MarkBlockProcessed_def DeleteSwapsUsingTx_def InsertToken_def UpdateTokenInfo_def
  UpdateTokenDecimals_def UpdateTokenSupply_def InsertPair_def

text \<open>
  Every reachable database respects its primary keys: no block twice, no two swaps with the same
  signature, pair, action, amounts, time and block, one row per token and per pair address.
\<close>

theorem db_reach_ok: "db_reach P db \<Longrightarrow> db_ok db"
proof (induction rule: db_reach.induct)
  case db_empty
  show ?case by (simp add: db_ok_def empty_db_def)
next
  case (db_insert db up swaps r db')
  then show ?case using InsertSwaps_cases [OF db_insert.hyps(2)] add_rows_distinct by (auto simp: db_ok_def)
next
  case (db_delete db up sig r db')
  then show ?case by (auto simp: db_ok_def db_ops_defs distinct_map_filter split: if_splits)
next
  case (db_token db up t r db')
  then show ?case by (auto simp: db_ok_def db_ops_defs image_iff split: if_splits option.splits)
next
  case (db_info db up a md r db')
  then show ?case by (auto simp: db_ops_defs split: if_splits intro!: update_tokens_ok)
next
  case (db_decimals db up a d r db')
  then show ?case by (auto simp: db_ops_defs split: if_splits intro!: update_tokens_ok)
next
  case (db_supply db up a c act r db')
  then show ?case by (auto simp: db_ops_defs Let_def split: if_splits option.splits intro!: update_tokens_ok)
qed (auto simp: db_ok_def db_ops_defs image_iff split: if_splits)

definition plain_pg :: pg where
  "plain_pg = \<lparr>pg_text_ok = (\<lambda>s. CHR 0x00 \<notin> set s), pg_float8 = (\<lambda>s. if s = ''0'' then Some (Fin 0) else None), pg_float_text = (\<lambda>_. ''0''), pg_max_params = 65535\<rparr>"

lemma db_reach_ok_witness: "db_ok (snd (MarkBlockProcessed True 7 (snd (MarkBlockProcessed True 7 empty_db)))) \<and>
    db_blocks (snd (MarkBlockProcessed True 7 (snd (MarkBlockProcessed True 7 empty_db)))) = [7]"
proof -
  have "db_reach plain_pg (snd (MarkBlockProcessed True 7 (snd (MarkBlockProcessed True 7 empty_db))))"
    by (rule db_block [OF db_block [OF db_empty surjective_pairing] surjective_pairing])
  from db_reach_ok [OF this] show ?thesis by (simp add: MarkBlockProcessed_def empty_db_def int4_def)
qed

section \<open>What insertions store\<close>

text \<open>
  C13: An insertion that succeeds stores, for every swap of the batch, a row with its key, keeps every
  row that was there, and repeating it (a retry, or a message delivered twice) changes nothing.
\<close>

theorem InsertSwaps_idempotent:
  assumes "InsertSwaps P up swaps db = (None, db')" "db_ok db"
  shows "(\<forall>s \<in> set swaps. \<exists>r \<in> set (db_swaps db'). swap_key r = swap_key s) \<and> set (db_swaps db) \<subseteq> set (db_swaps db') \<and>
     (InsertSwaps P up' swaps db' = (None, db'') \<longrightarrow> db'' = db')"
proof -
  have "db'' = db'" if again: "InsertSwaps P up' swaps db' = (None, db'')"
    using timescale.again_adds_nothing [OF assms(1) again] assms(2) InsertSwaps_cases [OF again]
    by (auto simp: db_ok_def)
  then show ?thesis using timescale.stored_key [OF assms(1)] timescale.kept [OF assms(1)] by auto
qed

text \<open>
  C27: Two swaps of one transaction that agree in pair, action and amounts but not in wallet (such as two
  equal transfers to two receivers) are one row to the table: the second is dropped without an error.
\<close>

theorem InsertSwaps_drops_other_wallet:
  assumes "InsertSwaps P up (xs @ a # ys @ b # zs) db = (None, db')" "db_ok db"
    and "swap_key a = swap_key b" "sl_Wallet a \<noteq> sl_Wallet b"
    and "swap_key a \<notin> swap_key ` (set (db_swaps db) \<union> set xs)"
  shows "swap_row a \<in> set (db_swaps db') \<and> swap_row b \<notin> set (db_swaps db')"
proof -
  let ?rows = "foldl add_swap_row (db_swaps db) xs"
  have db': "db_swaps db' = foldl add_swap_row (add_swap_row ?rows a) (ys @ b # zs)"
    using InsertSwaps_cases [OF assms(1)] by simp
  have "swap_key a \<notin> swap_key ` set ?rows" using assms(5) by (simp add: add_rows_keys image_Un)
  then have a: "swap_row a \<in> set (add_swap_row ?rows a)" by (simp add: add_swap_row_def)
  then have mem: "swap_row a \<in> set (db_swaps db')" unfolding db' using add_rows_extend [of "add_swap_row ?rows a" "ys @ b # zs"] by auto
  have "distinct (map swap_key (db_swaps db'))"
    using timescale.distinct_keys [OF assms(1)] assms(2) by (simp add: db_ok_def)
  then have "swap_row b = swap_row a" if "swap_row b \<in> set (db_swaps db')"
    using that mem assms(3) by (simp add: distinct_map inj_on_def)
  then show ?thesis using mem assms(4) swap_row_wallet [of a] swap_row_wallet [of b] by metis
qed

definition plain_log :: "string \<Rightarrow> string \<Rightarrow> gonum \<Rightarrow> gonum \<Rightarrow> gotime \<Rightarrow> swap_log" where
  "plain_log wallet action amountOut amountIn time = \<lparr>sl_ID = ''sig'', sl_Wallet = wallet, sl_Source = [],
     sl_BlockNumber = 7, sl_Timestamp = time, sl_AmountOut = amountOut, sl_AmountIn = amountIn, sl_Action = action,
     sl_Pair = ''pool'', sl_Token = ''mint'', sl_Processed = False, sl_TokenSymbol = None, sl_QuoteTokenSymbol = None\<rparr>"

lemma swap_row_plain [simp]: "swap_row (plain_log w a x y t) = plain_log w a x y t"
  by (simp add: swap_row_def plain_log_def)

lemma plain_insert:
  "InsertSwaps plain_pg True [plain_log ''a'' ''RECEIVE'' (Fin 0) (Fin 5) 0, plain_log ''b'' ''RECEIVE'' (Fin 0) (Fin 5) 0] empty_db =
     (None, empty_db\<lparr>db_swaps := [plain_log ''a'' ''RECEIVE'' (Fin 0) (Fin 5) 0]\<rparr>)"
  by (simp add: InsertSwaps_def plain_pg_def swap_placeholders_def swap_columns_def int4_def swap_texts_def
      add_swap_row_def swap_key_def empty_db_def plain_log_def)
    (simp add: swap_row_def)

lemma empty_db_ok [simp]: "db_ok empty_db"
  by (simp add: db_ok_def empty_db_def)

lemma InsertSwaps_idempotent_witness:
  "\<exists>r \<in> set (db_swaps (empty_db\<lparr>db_swaps := [plain_log ''a'' ''RECEIVE'' (Fin 0) (Fin 5) 0]\<rparr>)).
     swap_key r = swap_key (plain_log ''b'' ''RECEIVE'' (Fin 0) (Fin 5) 0)"
  using InsertSwaps_idempotent [OF plain_insert] by simp

lemma InsertSwaps_drops_other_wallet_witness:
  "plain_log ''a'' ''RECEIVE'' (Fin 0) (Fin 5) 0 \<in> set (db_swaps (empty_db\<lparr>db_swaps := [plain_log ''a'' ''RECEIVE'' (Fin 0) (Fin 5) 0]\<rparr>)) \<and>
   plain_log ''b'' ''RECEIVE'' (Fin 0) (Fin 5) 0 \<notin> set (db_swaps (empty_db\<lparr>db_swaps := [plain_log ''a'' ''RECEIVE'' (Fin 0) (Fin 5) 0]\<rparr>))"
  using InsertSwaps_drops_other_wallet [of plain_pg True "[]" "plain_log ''a'' ''RECEIVE'' (Fin 0) (Fin 5) 0" "[]"
      "plain_log ''b'' ''RECEIVE'' (Fin 0) (Fin 5) 0" "[]", simplified, OF plain_insert]
  by (simp add: swap_key_def plain_log_def empty_db_def)

lemma placeholders_from:
  "concat (map (\<lambda>(i, swap). map (\<lambda>j. i * c + 1 + j) [0..<c]) (enumerate n swaps)) = [n * c + 1..<(n + length swaps) * c + 1]"
proof (induction swaps arbitrary: n)
  case (Cons s swaps)
  have "map (\<lambda>j. n * c + 1 + j) [0..<c] = [n * c + 1..<Suc n * c + 1]"
    using map_add_upt [of "n * c + 1" c] by (simp add: add_ac)
  then show ?case using Cons [of "Suc n"] upt_add_eq_append [of "n * c + 1" "Suc n * c + 1" "length swaps * c"]
    by (simp add: algebra_simps)
qed simp

text \<open>
  The statement of InsertSwaps numbers its parameters 1, 2, 3, \<open>...\<close> without a gap, eleven for each
  swap, in the order of the arguments.
\<close>

lemma swap_placeholders_sequential:
  "concat (swap_placeholders swaps) = [1..<11 * length swaps + 1] \<and> map length (swap_placeholders swaps) = replicate (length swaps) 11"
proof -
  have "length swap_columns = 11" by (simp add: swap_columns_def)
  then have "concat (swap_placeholders swaps) = [0 * 11 + 1..<(0 + length swaps) * 11 + 1]"
    "map length (swap_placeholders swaps) = map (\<lambda>_. 11) (enumerate 0 swaps)"
    unfolding swap_placeholders_def by (simp_all only: placeholders_from) auto
  then show ?thesis by (simp only: add_0 mult_0 mult.commute map_replicate_const length_enumerate)
qed

section \<open>Queries\<close>

lemma order_desc_set [simp]: "set (order_desc key xs) = set xs"
  by (simp add: order_desc_def)

lemma order_desc_sorted: "sorted_wrt (\<lambda>x y. key y \<le> key x) (order_desc key xs)"
proof -
  have "sorted_wrt (\<lambda>x y. key x \<le> key y) (sort_key key (rev xs))"
    using sorted_sort_key [of key "rev xs"] by (simp add: sorted_map)
  then show ?thesis by (simp add: order_desc_def sorted_wrt_rev)
qed

lemma order_desc_distinct: "distinct (map f (order_desc key xs)) \<longleftrightarrow> distinct (map f xs)"
  by (simp add: distinct_map order_desc_def)

lemma swap_scans [simp]:
  "sqlx_scan swap_columns swap_tags r = r"
  "sqlx_scan (swap_columns @ [''tokenSymbol'']) swap_tags r = r"
  "sqlx_scan (swap_columns @ [''tokenSymbol'', ''quoteTokenSymbol'']) swap_tags r = r"
  by (simp_all add: sqlx_scan_def swap_columns_def swap_tags_def)

text \<open>
  C28: FindSwap finds a swap whenever there is one: it answers with a latest swap of the token whose time
  is at most three seconds before the given one and whose amount out is within a thousandth, and
  with nil exactly when no swap matches.
\<close>

theorem FindSwap_exact:
  assumes "FindSwap True timestamp token amount db = Inr r"
  shows "case r of
      None \<Rightarrow> \<forall>s \<in> set (db_swaps db). \<not> swap_matches timestamp token amount s
    | Some s \<Rightarrow> s \<in> set (db_swaps db) \<and> swap_matches timestamp token amount s \<and>
        (\<forall>s' \<in> set (db_swaps db). swap_matches timestamp token amount s' \<longrightarrow> sl_Timestamp s' \<le> sl_Timestamp s)"
proof -
  let ?found = "order_desc sl_Timestamp (filter (swap_matches timestamp token amount) (db_swaps db))"
  have set: "set ?found = {s \<in> set (db_swaps db). swap_matches timestamp token amount s}" by auto
  have sorted: "sorted_wrt (\<lambda>x y. sl_Timestamp y \<le> sl_Timestamp x) ?found" by (rule order_desc_sorted)
  show ?thesis
  proof (cases ?found)
    case Nil
    then have "r = None" using assms by (simp add: FindSwap_def)
    then show ?thesis using Nil set by auto
  next
    case (Cons s ss)
    then have "r = Some s" using assms by (simp add: FindSwap_def)
    moreover have "\<forall>s' \<in> set ?found. sl_Timestamp s' \<le> sl_Timestamp s" using sorted Cons by auto
    moreover have "s \<in> set ?found" using Cons by simp
    ultimately show ?thesis using set by auto
  qed
qed

definition swaps_db :: database where
  "swaps_db = empty_db\<lparr>db_swaps := [plain_log ''a'' ''BUY'' (Fin 5) (Fin 7) (98 * 10 ^ 9),
     plain_log ''b'' ''SELL'' (Fin 5) (Fin 4) (99 * 10 ^ 9), plain_log ''a'' ''SELL'' (Fin 5) (Fin 9) (100 * 10 ^ 9)]\<rparr>"

lemma FindSwap_exact_witness:
  "FindSwap True 100 ''mint'' (Fin 5) swaps_db = Inr (Some (plain_log ''b'' ''SELL'' (Fin 5) (Fin 4) (99 * 10 ^ 9))) \<and>
   swap_matches 100 ''mint'' (Fin 5) (plain_log ''b'' ''SELL'' (Fin 5) (Fin 4) (99 * 10 ^ 9))"
proof -
  have r: "FindSwap True 100 ''mint'' (Fin 5) swaps_db = Inr (Some (plain_log ''b'' ''SELL'' (Fin 5) (Fin 4) (99 * 10 ^ 9)))"
    by code_simp
  from FindSwap_exact [OF r] r show ?thesis by simp
qed

text \<open>
  C29: FindTopTraders lists distinct wallets with a swap of the token, at most as many as the limit and by
  non-increasing gain; a wallet left out gains no more than any wallet listed, and is left out only
  when the limit is reached.
\<close>

theorem FindTopTraders_top:
  assumes "FindTopTraders True token limit db = Inr ws"
  defines "pnl \<equiv> map_of (trader_pnl token db)"
  shows "distinct ws \<and> length ws \<le> nat limit \<and> sorted_wrt (\<lambda>v w. the (the (pnl w)) \<le> the (the (pnl v))) ws \<and>
     set ws \<subseteq> dom pnl \<and>
     (\<forall>w \<in> dom pnl - set ws. length ws = nat limit \<and> (\<forall>v \<in> set ws. the (the (pnl w)) \<le> the (the (pnl v))))"
proof -
  let ?pnl = "trader_pnl token db"
  let ?sorted = "order_desc (the \<circ> snd) ?pnl"
  have ws: "ws = take (nat limit) (map fst ?sorted)"
    using assms(1) by (simp add: FindTopTraders_def limit_offset_def Let_def split: if_splits)
  have keys: "distinct (map fst ?pnl)" by (simp add: trader_pnl_def Let_def comp_def)
  have val: "pnl (fst x) = Some (snd x)" if "x \<in> set ?sorted" for x
  proof -
    have "x \<in> set ?pnl" using that by (simp only: order_desc_set)
    then show ?thesis using keys by (simp add: pnl_def map_of_is_SomeI)
  qed
  have all: "sorted_wrt (\<lambda>v w. the (the (pnl w)) \<le> the (the (pnl v))) (map fst ?sorted)"
    unfolding sorted_wrt_map using order_desc_sorted [of "the \<circ> snd" ?pnl]
    by (rule sorted_wrt_mono_rel [rotated]) (simp add: val)
  have dom: "dom pnl = set (map fst ?sorted)" by (simp add: pnl_def dom_map_of_conv_image_fst)
  have split: "map fst ?sorted = ws @ drop (nat limit) (map fst ?sorted)" using ws by simp
  have d: "distinct (map fst ?sorted)" using keys by (simp add: order_desc_distinct)
  have rest: "length ws = nat limit" if "w \<in> set (drop (nat limit) (map fst ?sorted))" for w
    using that ws by (cases "nat limit \<le> length (map fst ?sorted)") auto
  have sw: "sorted_wrt (\<lambda>v w. the (the (pnl w)) \<le> the (the (pnl v))) (ws @ drop (nat limit) (map fst ?sorted))"
    using all split by simp
  have part: "dom pnl = set ws \<union> set (drop (nat limit) (map fst ?sorted))" unfolding dom by (subst split) simp
  have "distinct ws \<and> length ws \<le> nat limit" using d ws by (simp add: distinct_take)
  then show ?thesis using sw part rest unfolding sorted_wrt_append by blast
qed

lemma FindTopTraders_top_witness: "FindTopTraders True ''mint'' 1 swaps_db = Inr [''b''] \<and> length [''b''] \<le> nat 1"
proof -
  have r: "FindTopTraders True ''mint'' 1 swaps_db = Inr [''b'']" by code_simp
  from FindTopTraders_top [OF r] r show ?thesis by simp
qed

text \<open>
  A pair can never be read back: the columns of the table are not the tags of the struct, so FindPair
  and FindPairsByToken fail on every database, also for a pair just inserted.
\<close>

lemma FindPair_never:
  "(\<exists>e. FindPair_row up address db = Inl e) \<and> (\<exists>e. FindPairsByToken up token db = Inl e)"
  by (simp add: FindPair_row_def FindPairsByToken_def sqlx_scan_def pair_columns_def pair_tags_def)

text \<open>
  While no pair is stored (and no code of the program stores one), every swap that GetSwapsOnDate returns
  has the quote symbol SOL, whatever the quote token of its pool; it returns swaps of the wallet
  only, none before the day asked for, in order of time.
\<close>

lemma GetSwapsOnDate_sol:
  assumes "GetSwapsOnDate True wallet startDate db = Inr swaps" "db_pairs db = []"
  shows "sorted_wrt (\<lambda>s t. sl_Timestamp s \<le> sl_Timestamp t) swaps \<and>
    (\<forall>s \<in> set swaps. sl_QuoteTokenSymbol s = Some ''SOL'' \<and> sl_Wallet s = wallet \<and> startDate div day \<le> sl_Timestamp s div day)"
proof -
  let ?rows = "[with_symbols sl symbol quote.
      sl \<leftarrow> db_swaps db, sl_Wallet sl = wallet \<and> startDate div day \<le> sl_Timestamp sl div day,
      symbol \<leftarrow> token_symbols db (sl_Token sl), quote \<leftarrow> quote_symbols db (sl_Pair sl)]"
  have swaps: "swaps = sort_key sl_Timestamp ?rows" using assms(1) by (simp add: GetSwapsOnDate_def order_asc_def)
  have quote: "quote_symbols db a = [''SOL'']" for a using assms(2) by (simp add: quote_symbols_def)
  have "sorted_wrt (\<lambda>s t. sl_Timestamp s \<le> sl_Timestamp t) swaps"
    unfolding swaps by (rule sorted_sort_key [unfolded sorted_map])
  moreover have "sl_QuoteTokenSymbol s = Some ''SOL'' \<and> sl_Wallet s = wallet \<and> startDate div day \<le> sl_Timestamp s div day"
    if s: "s \<in> set ?rows" for s
  proof -
    obtain sl symbol where "sl_Wallet sl = wallet \<and> startDate div day \<le> sl_Timestamp sl div day"
      "s = with_symbols sl symbol ''SOL''"
      using s unfolding quote by (auto split: if_splits)
    then show ?thesis by (simp add: with_symbols_def)
  qed
  moreover have "set swaps = set ?rows" unfolding swaps by (rule set_sort)
  ultimately show ?thesis by blast
qed

definition priced_db :: database where
  "priced_db = swaps_db\<lparr>db_tokens := [\<lparr>rt_Address = ''mint'', rt_Name = ''Mint'', rt_Symbol = ''MT'', rt_Decimals = 6,
     rt_Supply = Fin 0, rt_CreatedBlock = 1, rt_CreatedTimestamp = 0, rt_Deployer = None, rt_Metadata = None,
     rt_Network = ''solana''\<rparr>]\<rparr>"

lemma GetSwapsOnDate_sol_witness:
  "GetSwapsOnDate True ''b'' 0 priced_db = Inr [with_symbols (plain_log ''b'' ''SELL'' (Fin 5) (Fin 4) (99 * 10 ^ 9)) ''MT'' ''SOL''] \<and>
   sl_QuoteTokenSymbol (with_symbols (plain_log ''b'' ''SELL'' (Fin 5) (Fin 4) (99 * 10 ^ 9)) ''MT'' ''SOL'') = Some ''SOL''"
proof -
  have r: "GetSwapsOnDate True ''b'' 0 priced_db = Inr [with_symbols (plain_log ''b'' ''SELL'' (Fin 5) (Fin 4) (99 * 10 ^ 9)) ''MT'' ''SOL'']"
    by code_simp
  have "db_pairs priced_db = []" by code_simp
  from GetSwapsOnDate_sol [OF r this] r show ?thesis by simp
qed

section \<open>Token rows\<close>

text \<open>
  A token that InsertToken stored is what FindToken reads back: all its fields, with empty deployer and
  metadata read as absent and the supply as the server prints it; and a second insertion of the
  address fails and changes nothing.
\<close>

theorem InsertToken_FindToken:
  assumes "InsertToken P up t db = (None, db')" "pg_float8 P (to_Supply t) = Some supply"
  shows "FindToken_row P True (to_Address t) db' =
       Inr (t\<lparr>to_Supply := supply_text P supply, to_Deployer := nullable (to_Deployer t), to_Metadata := nullable (to_Metadata t)\<rparr>) \<and>
     (to_Address t' = to_Address t \<longrightarrow> fst (InsertToken P up' t' db') \<noteq> None \<and> snd (InsertToken P up' t' db') = db')"
proof -
  have new: "to_Address t \<notin> rt_Address ` set (db_tokens db)"
    using assms by (auto simp: InsertToken_def split: if_splits)
  then have none: "filter (\<lambda>r. rt_Address r = to_Address t) (db_tokens db) = []" by (force simp: filter_empty_conv)
  have db': "db_tokens db' = db_tokens db @ [\<lparr>rt_Address = to_Address t, rt_Name = to_Name t, rt_Symbol = to_Symbol t,
              rt_Decimals = uint (to_Decimals t), rt_Supply = supply, rt_CreatedBlock = to_CreatedBlock t,
              rt_CreatedTimestamp = to_CreatedTimestamp t, rt_Deployer = nullable (to_Deployer t),
              rt_Metadata = nullable (to_Metadata t), rt_Network = to_Network t\<rparr>]"
    using assms by (auto simp: InsertToken_def split: if_splits)
  have u: "uint (to_Decimals t) < 256" using uint_bounded [of "to_Decimals t"] by simp
  have found: "FindToken_row P True (to_Address t) db' =
       Inr (t\<lparr>to_Supply := supply_text P supply, to_Deployer := nullable (to_Deployer t), to_Metadata := nullable (to_Metadata t)\<rparr>)"
    using u none by (simp add: FindToken_row_def db' token_of_row_def)
  have "to_Address t \<in> rt_Address ` set (db_tokens db')" by (simp add: db')
  then have "fst (InsertToken P up' t' db') \<noteq> None \<and> snd (InsertToken P up' t' db') = db'" if "to_Address t' = to_Address t"
    using that by (auto simp: InsertToken_def split: option.split)
  then show ?thesis using found by blast
qed

definition plain_token :: token where
  "plain_token = \<lparr>to_Name = ''Mint'', to_Symbol = ''MT'', to_Decimals = 6, to_Address = ''mint'', to_Supply = ''0'', to_CreatedBlock = 7,
     to_Network = ''solana'', to_CreatedTimestamp = 0, to_Deployer = Some [], to_Metadata = None\<rparr>"

lemma InsertToken_FindToken_witness:
  "FindToken_row plain_pg True ''mint'' (snd (InsertToken plain_pg True plain_token empty_db)) = Inr (plain_token\<lparr>to_Deployer := None\<rparr>)"
proof -
  have "InsertToken plain_pg True plain_token empty_db = (None, snd (InsertToken plain_pg True plain_token empty_db))"
    "pg_float8 plain_pg (to_Supply plain_token) = Some (Fin 0)"
    by (simp_all add: InsertToken_def plain_pg_def plain_token_def token_texts_ok_def nullable_def int4_def empty_db_def)
  from InsertToken_FindToken [OF this, THEN conjunct1] show ?thesis
    by (simp add: plain_token_def supply_text_def whole_def plain_pg_def nullable_def)
qed

end
