(* ===== verification/Finder.thy ===== *)
theory Finder
  imports Metadata Repo
begin

text \<open>
  The cache (internal/cache/main.go), the look-up of tokens (internal/solana/tokenFind.go) and of
  pairs (pairFind.go), and the queues through which the swap handler asks for them. The repository
  is reached through its interface (interfaces.go), as in the code.
\<close>

section \<open>Cache\<close>

text \<open>
  One key space holds tokens and pairs, with a time to live of 60 seconds; a type assertion that
  fails is a miss. Removing expired entries does not change what Get answers.
\<close>

datatype cached = CachedToken token | CachedPair pair

type_synonym cache = "string \<rightharpoonup> cached \<times> gotime"

definition time_to_live :: int where
  "time_to_live = 60 * 10 ^ 9"

definition PutToken :: "gotime \<Rightarrow> string \<Rightarrow> token \<Rightarrow> cache \<Rightarrow> cache" where
  "PutToken now tokenAddress tokenData c = c(tokenAddress \<mapsto> (CachedToken tokenData, now + time_to_live))"

definition PutPair :: "gotime \<Rightarrow> string \<Rightarrow> pair \<Rightarrow> cache \<Rightarrow> cache" where
  "PutPair now pairAddress pairData c = c(pairAddress \<mapsto> (CachedPair pairData, now + time_to_live))"

definition GetToken :: "gotime \<Rightarrow> string \<Rightarrow> cache \<Rightarrow> token option" where
  "GetToken now tokenAddress c =
     (case c tokenAddress of
        Some (CachedToken t, expires) \<Rightarrow> if now \<le> expires then Some t else None
      | _ \<Rightarrow> None)"

definition GetPair :: "gotime \<Rightarrow> string \<Rightarrow> cache \<Rightarrow> pair option" where
  "GetPair now pairAddress c =
     (case c pairAddress of
        Some (CachedPair p, expires) \<Rightarrow> if now \<le> expires then Some p else None
      | _ \<Rightarrow> None)"

section \<open>Tokens\<close>

text \<open>The part of the interface TokensRepo that the finder calls; the flag is whether the connection is up.\<close>

record 'd tokens_repo =
  re_find :: "bool \<Rightarrow> string \<Rightarrow> 'd \<Rightarrow> token res"
  re_supply :: "bool \<Rightarrow> string \<Rightarrow> string \<Rightarrow> string \<Rightarrow> 'd \<Rightarrow> db_error option \<times> 'd"
  re_info :: "bool \<Rightarrow> string \<Rightarrow> metadata \<Rightarrow> 'd \<Rightarrow> db_error option \<times> 'd"

definition timescale_tokens :: "pg \<Rightarrow> database tokens_repo" where
  "timescale_tokens P = \<lparr>re_find = FindToken_row P, re_supply = UpdateTokenSupply, re_info = UpdateTokenInfo P\<rparr>"

text \<open>
  What one call meets: the time, the connection at its first, second, third and fourth statement, and the answer
  to GetTokenSupplyAndContext.
\<close>

record finder_env =
  fe_now :: gotime
  fe_up :: "nat \<Rightarrow> bool"
  fe_supply :: "string \<Rightarrow> 64 word option"

text \<open>An empty or zero supply is filled from the chain; true is an error.\<close>

definition fill_supply :: "'d tokens_repo \<Rightarrow> finder_env \<Rightarrow> string \<Rightarrow> token \<Rightarrow> 'd \<Rightarrow> bool \<times> 'd" where
  "fill_supply R env address token db =
     (if to_Supply token = [] \<or> to_Supply token = ''0'' then
        (case fe_supply env address of
           None \<Rightarrow> (True, db)
         | Some tokenSupply \<Rightarrow>
             (case re_supply R (fe_up env 1) address (dec (uint tokenSupply)) ''mint'' db of
                (Some e, db) \<Rightarrow> (True, db)
              | (None, db) \<Rightarrow> (False, db)))
      else (False, db))"

text \<open>The look-up behind the cache; the returned list of pairs is always empty and left out.\<close>

definition fetch_token ::
  "'d tokens_repo \<Rightarrow> 'm chain \<Rightarrow> finder_env \<Rightarrow> string \<Rightarrow> cache \<times> 'd \<Rightarrow> (token option \<times> cache \<times> 'd) go" where
  "fetch_token R C env address = (\<lambda>(c, db).
     case re_find R (fe_up env 0) address db of
       Inl e \<Rightarrow> Inr (None, c, db)
     | Inr token \<Rightarrow>
         if to_Address token \<noteq> [] \<and> to_Name token \<noteq> [] \<and> to_Symbol token \<noteq> [] then
           Inr (Some token, PutToken (fe_now env) (to_Address token) token c, db)
         else go_bind (GetMetadata C address) (\<lambda>(md, err).
           if err then Inr (None, c, db)
           else (case fill_supply R env address token db of
               (True, db) \<Rightarrow> Inr (None, c, db)
             | (False, db) \<Rightarrow>
                 (case md of
                    None \<Rightarrow> Inr (None, c, db)
                  | Some m \<Rightarrow>
                      if md_Name m = [] \<or> md_Symbol m = [] then Inr (None, c, db)
                      else (case re_info R (fe_up env 2) address m db of
                          (Some e, db) \<Rightarrow> Inr (None, c, db)
                        | (None, db) \<Rightarrow>
                            (case re_find R (fe_up env 3) address db of
                               Inl e \<Rightarrow> Inr (None, c, db)
                             | Inr token \<Rightarrow> Inr (Some token, PutToken (fe_now env) (to_Address token) token c, db)))))))"

definition FindToken ::
  "'d tokens_repo \<Rightarrow> 'm chain \<Rightarrow> finder_env \<Rightarrow> string \<Rightarrow> bool \<Rightarrow> cache \<times> 'd \<Rightarrow> (token option \<times> cache \<times> 'd) go" where
  "FindToken R C env address miss = (\<lambda>(c, db).
     case GetToken (fe_now env) address c of
       Some cachedToken \<Rightarrow> if \<not> miss then Inr (Some cachedToken, c, db) else fetch_token R C env address (c, db)
     | None \<Rightarrow> fetch_token R C env address (c, db))"

section \<open>Pairs\<close>

text \<open>The look-up of a pair, whose quote token is found with its own statements (\<open>env\<close>); \<open>up\<close> is the connection for the pair.\<close>

definition FindPair ::
  "pg \<Rightarrow> 'm chain \<Rightarrow> finder_env \<Rightarrow> bool \<Rightarrow> string \<Rightarrow> cache \<times> database \<Rightarrow> ((pair \<times> quote_token) option \<times> cache \<times> database) go" where
  "FindPair P C env up address = (\<lambda>(c, db).
     case (GetPair (fe_now env) address c, GetToken (fe_now env) address c) of
       (Some cachedPair, Some cachedQT) \<Rightarrow>
         Inr (Some (cachedPair, \<lparr>qt_Identifier = qs_Identifier (pa_QuoteToken cachedPair), qt_Name = to_Name cachedQT,
           qt_Symbol = to_Symbol cachedQT, qt_Address = qs_Address (pa_QuoteToken cachedPair), qt_Decimals = to_Decimals cachedQT\<rparr>), c, db)
     | _ \<Rightarrow>
         (case FindPair_row up address db of
            Inl e \<Rightarrow> Inr (None, c, db)
          | Inr pair \<Rightarrow>
              if pa_Address pair = [] \<or> pa_Token pair = [] \<or> qs_Address (pa_QuoteToken pair) = [] then Inr (None, c, db)
              else go_bind (FindToken (timescale_tokens P) C env (qs_Address (pa_QuoteToken pair)) False (c, db)) (\<lambda>(quoteToken, c, db).
                case quoteToken of
                  None \<Rightarrow> Inr (None, c, db)
                | Some qt \<Rightarrow> Inr (Some (pair, \<lparr>qt_Identifier = qs_Identifier (pa_QuoteToken pair), qt_Name = to_Name qt,
                    qt_Symbol = to_Symbol qt, qt_Address = to_Address qt, qt_Decimals = to_Decimals qt\<rparr>), c, db))))"

text \<open>
  The account layouts of the exchanges, decoded by a library: the two mints of each that are read.
  The one of FluxBeam is used as it is after a decoding error.
\<close>

record layouts =
  ly_meteora :: "byte list \<Rightarrow> (pubkey \<times> pubkey) option"
  ly_meteora_pools :: "byte list \<Rightarrow> (pubkey \<times> pubkey) option"
  ly_orca :: "byte list \<Rightarrow> (pubkey \<times> pubkey) option"
  ly_raydium_v4 :: "byte list \<Rightarrow> (pubkey \<times> pubkey) option"
  ly_fluxbeam :: "byte list \<Rightarrow> pubkey \<times> pubkey"

text \<open>Exchange, base mint, token mint and identifier as the branches set them; \<open>None\<close> is an error.\<close>

definition pair_mints ::
  "ext \<Rightarrow> layouts \<Rightarrow> string \<Rightarrow> byte list \<Rightarrow> string option \<Rightarrow> (string \<times> string \<times> string \<times> string) option" where
  "pair_mints E L owner accData token =
     (let str = key_string E in
      if owner = METEORA_DLMM_PROGRAM then map_option (\<lambda>(x, y). (''METEORA'', str y, str x, ''tokenY'')) (ly_meteora L accData)
      else if owner = METEORA_POOLS_PROGRAM then map_option (\<lambda>(a, b). (''METEORA'', str b, str a, ''tokenBMint'')) (ly_meteora_pools L accData)
      else if owner = ORCA_WHIRL_PROGRAM_ID then map_option (\<lambda>(a, b). (''ORCA'', str a, str b, ''mintA'')) (ly_orca L accData)
      else if owner = RAYDIUM_LIQ_POOL_V4 then map_option (\<lambda>(base, quote). (''RAYDIUM'', str base, str quote, ''baseMint'')) (ly_raydium_v4 L accData)
      else if owner = FLUXBEAM_PROGRAM then (case ly_fluxbeam L accData of (a, b) \<Rightarrow> Some (''FLUXBEAM'', str a, str b, ''mintA''))
      else if owner = PUMPFUN then
        Some (''PUMPFUN'', ''So11111111111111111111111111111111111111112'', (case token of None \<Rightarrow> [] | Some t \<Rightarrow> t), ''N/A'')
      else None)"

definition identifyPair ::
  "ext \<Rightarrow> layouts \<Rightarrow> string \<Rightarrow> byte list \<Rightarrow> string option \<Rightarrow> (string \<times> string \<times> string \<times> string) option" where
  "identifyPair E L owner accData token =
     map_option (\<lambda>(exchange, baseMint, tokenMint, identifier).
       if QuoteTokens baseMint = None \<and> QuoteTokens tokenMint \<noteq> None then (exchange, tokenMint, baseMint, ''mintB'')
       else (exchange, baseMint, tokenMint, identifier)) (pair_mints E L owner accData token)"

definition lookupPair ::
  "ext \<Rightarrow> layouts \<Rightarrow> 'm chain \<Rightarrow> string \<Rightarrow> string option \<Rightarrow> pair option" where
  "lookupPair E L C address token =
     (case ch_account C 0 address of
        None \<Rightarrow> None
      | Some accInfo \<Rightarrow>
          map_option (\<lambda>(exchange, quoteToken, tok, identifier).
            \<lparr>pa_Address = address, pa_Network = ''solana'', pa_Exchange = exchange, pa_Token = tok,
             pa_QuoteToken = \<lparr>qs_Identifier = identifier, qs_Address = quoteToken\<rparr>, pa_CreatedBlock = 0, pa_CreatedTimestamp = time_unix 0\<rparr>)
            (identifyPair E L (ch_base58 C (ai_Owner accInfo)) (case ai_Data accInfo of None \<Rightarrow> [] | Some d \<Rightarrow> d) token))"

section \<open>The queues\<close>

text \<open>
  The state of a processor: the channel, the map \<open>seen\<close>, the items whose AddToQueue has entered them
  into \<open>seen\<close> and not yet sent them, and those the workers are looking up. \<open>key\<close> is what an item is
  entered under (the token itself; the address of a pair).
\<close>

record 'a processor =
  pr_queue :: "'a list"
  pr_seen :: "string set"
  pr_adding :: "'a list"
  pr_busy :: "'a list"

definition new_processor :: "'a processor" where
  "new_processor = \<lparr>pr_queue = [], pr_seen = {}, pr_adding = [], pr_busy = []\<rparr>"

definition queue_capacity :: nat where
  "queue_capacity = 5000"

definition finder_workers :: nat where
  "finder_workers = 10"

text \<open>LoadOrStore, then the two outcomes of the select, as the steps of AddToQueue.\<close>

definition claim_item :: "('a \<Rightarrow> string) \<Rightarrow> 'a \<Rightarrow> 'a processor \<Rightarrow> 'a processor" where
  "claim_item key x p = (if key x \<in> pr_seen p then p
     else p\<lparr>pr_seen := insert (key x) (pr_seen p), pr_adding := pr_adding p @ [x]\<rparr>)"

definition send_item :: "'a \<Rightarrow> 'a processor \<Rightarrow> 'a processor" where
  "send_item x p = p\<lparr>pr_adding := remove1 x (pr_adding p), pr_queue := pr_queue p @ [x]\<rparr>"

text \<open>The token finder deletes the token; the pair finder deletes the struct, a key that is not in the map.\<close>

definition discard_token :: "string \<Rightarrow> string processor \<Rightarrow> string processor" where
  "discard_token x p = p\<lparr>pr_adding := remove1 x (pr_adding p), pr_seen := pr_seen p - {x}\<rparr>"

definition discard_pair :: "string \<times> string option \<Rightarrow> (string \<times> string option) processor \<Rightarrow> (string \<times> string option) processor" where
  "discard_pair x p = p\<lparr>pr_adding := remove1 x (pr_adding p)\<rparr>"

text \<open>A worker receives the first item, and deletes its key when the look-up has returned.\<close>

definition take_item :: "'a processor \<Rightarrow> 'a processor" where
  "take_item p = (case pr_queue p of [] \<Rightarrow> p | x # q \<Rightarrow> p\<lparr>pr_queue := q, pr_busy := pr_busy p @ [x]\<rparr>)"

definition finish_item :: "('a \<Rightarrow> string) \<Rightarrow> 'a \<Rightarrow> 'a processor \<Rightarrow> 'a processor" where
  "finish_item key x p = p\<lparr>pr_busy := remove1 x (pr_busy p), pr_seen := pr_seen p - {key x}\<rparr>"

inductive processor_step :: "('a \<Rightarrow> string) \<Rightarrow> ('a \<Rightarrow> 'a processor \<Rightarrow> 'a processor) \<Rightarrow> nat \<Rightarrow> 'a processor \<Rightarrow> 'a processor \<Rightarrow> bool"
  for key discard cap where
  claim: "processor_step key discard cap p (claim_item key x p)"
| send: "x \<in> set (pr_adding p) \<Longrightarrow> length (pr_queue p) < cap \<Longrightarrow> processor_step key discard cap p (send_item x p)"
| discard: "x \<in> set (pr_adding p) \<Longrightarrow> length (pr_queue p) = cap \<Longrightarrow> processor_step key discard cap p (discard x p)"
| take: "length (pr_busy p) < finder_workers \<Longrightarrow> processor_step key discard cap p (take_item p)"
| finish: "x \<in> set (pr_busy p) \<Longrightarrow> processor_step key discard cap p (finish_item key x p)"

inductive processor_run :: "('a \<Rightarrow> string) \<Rightarrow> ('a \<Rightarrow> 'a processor \<Rightarrow> 'a processor) \<Rightarrow> nat \<Rightarrow> 'a processor \<Rightarrow> 'a processor \<Rightarrow> bool"
  for key discard cap where
  start: "processor_run key discard cap p p"
| step: "processor_run key discard cap p q \<Longrightarrow> processor_step key discard cap q r \<Longrightarrow> processor_run key discard cap p r"

section \<open>Lemmas: tokens\<close>

text \<open>
  What the finder relies on: a token is found under the address asked for, and after its metadata was
  stored it is found with that name and symbol.
\<close>

locale token_repo =
  fixes R :: "'d tokens_repo"
  assumes find_address: "re_find R up a d = Inr t \<Longrightarrow> to_Address t = a"
    and find_up: "re_find R up a d = Inr t \<Longrightarrow> re_find R True a d = Inr t"
    and info_named: "re_info R up a md d = (None, d') \<Longrightarrow> re_find R up' a d' = Inr t \<Longrightarrow> to_Name t = md_Name md \<and> to_Symbol t = md_Symbol md"
begin

text \<open>A token that was fetched has a name and a symbol, is what the repository now holds, and was put into the cache.\<close>

lemma fetched:
  assumes "fetch_token R C env address (c, d) = Inr (Some t, c', d')" "address \<noteq> []"
  shows "re_find R True address d' = Inr t \<and> to_Address t = address \<and> to_Name t \<noteq> [] \<and> to_Symbol t \<noteq> [] \<and>
     c' = PutToken (fe_now env) address t c"
proof -
  obtain t0 where t0: "re_find R (fe_up env 0) address d = Inr t0"
    using assms(1) by (cases "re_find R (fe_up env 0) address d") (simp_all add: fetch_token_def)
  note a0 = find_address [OF t0]
  show ?thesis
  proof (cases "to_Name t0 \<noteq> [] \<and> to_Symbol t0 \<noteq> []")
    case True
    then show ?thesis using assms t0 a0 find_up [OF t0] by (auto simp: fetch_token_def)
  next
    case False
    obtain md where md: "GetMetadata C address = Inr (md, False)" using GetMetadata_total by blast
    obtain b d1 where fill: "fill_supply R env address t0 d = (b, d1)" by (cases "fill_supply R env address t0 d")
    have "\<not> b" using assms(1) False by (auto simp: fetch_token_def t0 md fill split: bool.splits if_splits)
    then obtain m where m: "md = Some m" "md_Name m \<noteq> []" "md_Symbol m \<noteq> []"
      using assms(1) False by (auto simp: fetch_token_def t0 md fill split: option.splits if_splits)
    obtain e d2 where info: "re_info R (fe_up env 2) address m d1 = (e, d2)" by (cases "re_info R (fe_up env 2) address m d1")
    have e: "e = None" using assms(1) False m \<open>\<not> b\<close> by (cases e) (auto simp: fetch_token_def t0 md fill info)
    obtain t1 where t1: "re_find R (fe_up env 3) address d2 = Inr t1"
      using assms(1) False m \<open>\<not> b\<close> by (cases "re_find R (fe_up env 3) address d2") (auto simp: fetch_token_def t0 md fill info e)
    have "t = t1 \<and> d' = d2 \<and> c' = PutToken (fe_now env) (to_Address t1) t1 c"
      using assms(1) False m \<open>\<not> b\<close> by (auto simp: fetch_token_def t0 md fill info e t1)
    then show ?thesis
      using find_address [OF t1] find_up [OF t1] info_named [OF info [unfolded e] t1] m by simp
  qed
qed

end

lemma FindToken_row_some:
  "FindToken_row P up a db = Inr t \<longleftrightarrow> up \<and> (\<exists>r rs. filter (\<lambda>r. rt_Address r = a) (db_tokens db) = r # rs \<and>
     0 \<le> rt_Decimals r \<and> rt_Decimals r < 256 \<and> t = token_of_row P r)"
  by (auto simp: FindToken_row_def split: list.splits)

lemma filter_update:
  assumes "\<And>r. rt_Address (f r) = rt_Address r"
  shows "filter (\<lambda>r. rt_Address r = a) (map (\<lambda>r. if rt_Address r = a then f r else r) rs) = map f (filter (\<lambda>r. rt_Address r = a) rs)"
  by (induction rs) (auto simp: assms)

interpretation timescale_repo: token_repo "timescale_tokens P" for P
proof (unfold_locales, goal_cases)
  case (1 up a d t)
  then have f: "FindToken_row P up a d = Inr t" by (simp add: timescale_tokens_def)
  then obtain r rs where r: "filter (\<lambda>r. rt_Address r = a) (db_tokens d) = r # rs" "t = token_of_row P r"
    unfolding FindToken_row_some by blast
  have "r \<in> set (filter (\<lambda>r. rt_Address r = a) (db_tokens d))" unfolding r(1) by simp
  then show ?case by (simp add: r(2) token_of_row_def)
next
  case (2 up a d t)
  then show ?case by (simp add: timescale_tokens_def FindToken_row_some)
next
  case (3 up a md d d' up' t)
  then have d': "d' = update_tokens a (\<lambda>r. r\<lparr>rt_Name := md_Name md, rt_Symbol := md_Symbol md, rt_Metadata := Some (md_URI md)\<rparr>) d"
    by (auto simp: timescale_tokens_def UpdateTokenInfo_def split: if_splits)
  have "FindToken_row P up' a d' = Inr t" using 3(2) by (simp add: timescale_tokens_def)
  then show ?case
    by (auto simp: FindToken_row_some d' update_tokens_def filter_update map_eq_Cons_conv token_of_row_def)
qed

text \<open>What the cache may hold: tokens under their own address, with a name and a symbol.\<close>

definition cache_ok :: "cache \<Rightarrow> bool" where
  "cache_ok c \<longleftrightarrow> (\<forall>k t e. c k = Some (CachedToken t, e) \<longrightarrow> to_Address t = k \<and> to_Name t \<noteq> [] \<and> to_Symbol t \<noteq> [])"

lemma GetToken_some: "GetToken now a c = Some t \<longleftrightarrow> (\<exists>e. c a = Some (CachedToken t, e) \<and> now \<le> e)"
  by (auto simp: GetToken_def split: option.splits cached.splits)

text \<open>
  C38: FindToken answers with a named token of the address asked for, which is either the unexpired cache
  entry or what the database then holds and the cache gets; it keeps the cache an index of named tokens.
\<close>

theorem FindToken_found:
  assumes "FindToken (timescale_tokens P) C env address miss (c, db) = Inr (Some t, c', db')" "cache_ok c" "address \<noteq> []"
  shows "to_Address t = address \<and> to_Name t \<noteq> [] \<and> to_Symbol t \<noteq> [] \<and> cache_ok c' \<and>
     (GetToken (fe_now env) address c = Some t \<and> \<not> miss \<and> c' = c \<and> db' = db \<or>
      FindToken_row P True address db' = Inr t \<and> GetToken (fe_now env) address c' = Some t)"
proof (cases "GetToken (fe_now env) address c \<noteq> None \<and> \<not> miss")
  case True
  then obtain t0 where t0: "GetToken (fe_now env) address c = Some t0" by blast
  then have "t = t0" "c' = c" "db' = db" using assms(1) True by (auto simp: FindToken_def)
  moreover have "to_Address t0 = address \<and> to_Name t0 \<noteq> [] \<and> to_Symbol t0 \<noteq> []"
    using t0 assms(2) by (auto simp: GetToken_some cache_ok_def)
  ultimately show ?thesis using t0 True assms(2) by simp
next
  case False
  then have f: "fetch_token (timescale_tokens P) C env address (c, db) = Inr (Some t, c', db')"
    using assms(1) by (auto simp: FindToken_def split: option.splits if_splits)
  note r = timescale_repo.fetched [OF f assms(3)]
  have "GetToken (fe_now env) address c' = Some t" using r by (simp add: PutToken_def GetToken_def time_to_live_def)
  moreover have "cache_ok c'" using r assms(2) by (auto simp: PutToken_def cache_ok_def)
  moreover have "FindToken_row P True address db' = Inr t" using r by (simp add: timescale_tokens_def)
  ultimately show ?thesis using r by auto
qed

text \<open>FindToken never panics.\<close>

lemma FindToken_total: "ok (FindToken R C env address miss st)"
proof -
  obtain md where "GetMetadata C address = Inr (md, False)" using GetMetadata_total by blast
  then show ?thesis
    by (auto simp: FindToken_def fetch_token_def split: prod.splits option.splits sum.splits bool.splits)
qed

section \<open>Lemmas: pairs\<close>

text \<open>
  The cache never answers FindPair: pair and token are looked up under one key, which holds one of
  them. The repository cannot read a pair back either, so that no pair is ever found.
\<close>

lemma FindPair_not_cached: "GetPair now a c = None \<or> GetToken now a c = None"
  by (auto simp: GetPair_def GetToken_def split: option.splits cached.splits)

lemma FindPair_fails: "FindPair P C env up address (c, db) = Inr (None, c, db)"
proof -
  obtain e where "FindPair_row up address db = Inl e" using FindPair_never by blast
  then show ?thesis
    using FindPair_not_cached [of "fe_now env" address c] by (auto simp: FindPair_def split: option.splits)
qed

text \<open>identifyPair puts the quote token first whenever one of the two mints is one.\<close>

lemma identifyPair_quote:
  assumes "identifyPair E L owner accData token = Some (exchange, quote, tok, identifier)" "QuoteTokens tok \<noteq> None"
  shows "QuoteTokens quote \<noteq> None"
  using assms by (auto simp: identifyPair_def split: if_splits)

section \<open>Lemmas: queues\<close>

abbreviation pending :: "'a processor \<Rightarrow> 'a list" where
  "pending p \<equiv> pr_queue p @ pr_adding p @ pr_busy p"

text \<open>A key is in \<open>seen\<close> exactly while one item with it is on its way.\<close>

definition processor_ok :: "('a \<Rightarrow> string) \<Rightarrow> nat \<Rightarrow> 'a processor \<Rightarrow> bool" where
  "processor_ok key cap p \<longleftrightarrow> distinct (map key (pending p)) \<and> key ` set (pending p) = pr_seen p \<and>
     length (pr_queue p) \<le> cap \<and> length (pr_busy p) \<le> finder_workers"

lemma remove1_keys:
  assumes "distinct (map key xs)" "x \<in> set xs"
  shows "distinct (map key (remove1 x xs))" "key ` set (remove1 x xs) = key ` set xs - {key x}"
proof -
  have d: "distinct xs" using assms(1) by (simp add: distinct_map)
  have r: "remove1 x xs = filter (\<lambda>y. y \<noteq> x) xs" using distinct_remove1_removeAll [OF d] by (simp add: removeAll_filter_not_eq eq_commute)
  show "distinct (map key (remove1 x xs))" unfolding r using assms(1) by (rule distinct_map_filter)
  have "y = x" if "y \<in> set xs" "key y = key x" for y
    using assms that by (auto simp: distinct_map dest: inj_onD)
  then show "key ` set (remove1 x xs) = key ` set xs - {key x}" unfolding r by auto
qed

text \<open>Moving an item keeps the keys on their way; removing one removes its key.\<close>

lemma pending_simps:
  assumes "processor_ok key cap p"
  shows "x \<in> set (pr_adding p) \<Longrightarrow> distinct (map key (pending (send_item x p))) \<and> key ` set (pending (send_item x p)) = pr_seen p"
    and "x \<in> set (pr_adding p) \<Longrightarrow> distinct (map key (pr_queue p @ remove1 x (pr_adding p) @ pr_busy p)) \<and>
      key ` set (pr_queue p @ remove1 x (pr_adding p) @ pr_busy p) = pr_seen p - {key x}"
    and "x \<in> set (pr_busy p) \<Longrightarrow> distinct (map key (pr_queue p @ pr_adding p @ remove1 x (pr_busy p))) \<and>
      key ` set (pr_queue p @ pr_adding p @ remove1 x (pr_busy p)) = pr_seen p - {key x}"
proof -
  note p = assms [unfolded processor_ok_def, THEN conjunct1] assms [unfolded processor_ok_def, THEN conjunct2, THEN conjunct1]
  have a: "distinct (map key (remove1 x (pr_adding p)))" "key ` set (remove1 x (pr_adding p)) = key ` set (pr_adding p) - {key x}"
    if "x \<in> set (pr_adding p)" using remove1_keys [of key "pr_adding p" x] p that by simp_all
  have b: "distinct (map key (remove1 x (pr_busy p)))" "key ` set (remove1 x (pr_busy p)) = key ` set (pr_busy p) - {key x}"
    if "x \<in> set (pr_busy p)" using remove1_keys [of key "pr_busy p" x] p that by simp_all
  show "distinct (map key (pending (send_item x p))) \<and> key ` set (pending (send_item x p)) = pr_seen p" if x: "x \<in> set (pr_adding p)"
    using p x a [OF x] by (auto simp: send_item_def image_Un simp del: set_remove1_eq)
  show "distinct (map key (pr_queue p @ remove1 x (pr_adding p) @ pr_busy p)) \<and>
      key ` set (pr_queue p @ remove1 x (pr_adding p) @ pr_busy p) = pr_seen p - {key x}" if x: "x \<in> set (pr_adding p)"
    using p x a [OF x] by (auto simp: image_Un simp del: set_remove1_eq)
  show "distinct (map key (pr_queue p @ pr_adding p @ remove1 x (pr_busy p))) \<and>
      key ` set (pr_queue p @ pr_adding p @ remove1 x (pr_busy p)) = pr_seen p - {key x}" if x: "x \<in> set (pr_busy p)"
    using p x b [OF x] by (auto simp: image_Un simp del: set_remove1_eq)
qed

lemma claim_ok: "processor_ok key cap p \<Longrightarrow> processor_ok key cap (claim_item key x p)"
  by (auto simp: processor_ok_def claim_item_def image_Un)

lemma take_ok: "processor_ok key cap p \<Longrightarrow> length (pr_busy p) < finder_workers \<Longrightarrow> processor_ok key cap (take_item p)"
  by (cases "pr_queue p") (auto simp: processor_ok_def take_item_def image_Un)

lemma processor_bounds: "processor_ok key cap p \<Longrightarrow> length (pr_queue p) \<le> cap \<and> length (pr_busy p) \<le> finder_workers"
  by (simp add: processor_ok_def)

lemma processor_okI:
  "distinct (map key (pending p)) \<and> key ` set (pending p) = pr_seen p \<Longrightarrow> length (pr_queue p) \<le> cap \<Longrightarrow>
     length (pr_busy p) \<le> finder_workers \<Longrightarrow> processor_ok key cap p"
  by (simp add: processor_ok_def)

lemma token_step_ok:
  assumes "processor_step id discard_token cap p q" "processor_ok id cap p"
  shows "processor_ok id cap q"
  using assms(1)
proof cases
  case (claim x)
  show ?thesis unfolding claim by (rule claim_ok [OF assms(2)])
next
  case (send x)
  have e: "pr_seen q = pr_seen p" "length (pr_queue q) \<le> cap" "pr_busy q = pr_busy p" unfolding send(1) using send(3) by (simp_all add: send_item_def)
  show ?thesis
  proof (rule processor_okI)
    show "distinct (map id (pending q)) \<and> id ` set (pending q) = pr_seen q"
      unfolding e(1) unfolding send(1) by (rule pending_simps(1) [OF assms(2) send(2)])
  qed (use e processor_bounds [OF assms(2)] in simp_all)
next
  case (discard x)
  have e: "pending q = pr_queue p @ remove1 x (pr_adding p) @ pr_busy p" "pr_seen q = pr_seen p - {id x}"
    "pr_queue q = pr_queue p" "pr_busy q = pr_busy p" unfolding discard(1) by (simp_all add: discard_token_def)
  show ?thesis
  proof (rule processor_okI)
    show "distinct (map id (pending q)) \<and> id ` set (pending q) = pr_seen q"
      unfolding e(1,2) by (rule pending_simps(2) [OF assms(2) discard(2)])
  qed (use e(3,4) processor_bounds [OF assms(2)] in simp_all)
next
  case take
  show ?thesis unfolding take(1) by (rule take_ok [OF assms(2) take(2)])
next
  case (finish x)
  have e: "pending q = pr_queue p @ pr_adding p @ remove1 x (pr_busy p)" "pr_seen q = pr_seen p - {id x}"
    "pr_queue q = pr_queue p" "length (pr_busy q) \<le> length (pr_busy p)" unfolding finish(1) by (simp_all add: finish_item_def length_remove1)
  show ?thesis
  proof (rule processor_okI)
    show "distinct (map id (pending q)) \<and> id ` set (pending q) = pr_seen q"
      unfolding e(1,2) by (rule pending_simps(3) [OF assms(2) finish(2)])
  qed (use e(3,4) processor_bounds [OF assms(2)] in auto)
qed

lemma token_run_ok: "processor_run id discard_token cap p q \<Longrightarrow> processor_ok id cap p \<Longrightarrow> processor_ok id cap q"
proof (induction rule: processor_run.induct)
  case (step q r)
  show ?case by (rule token_step_ok [OF step.hyps(2) step.IH [OF step.prems]])
qed

text \<open>
  C9: Whatever way the swap handlers, the channel and the ten workers of the token finder interleave, a
  token is on its way at most once (so no two workers look up the same token), exactly the tokens on
  their way are in \<open>seen\<close>, so that a token that was looked up or discarded can be queued again, and the channel holds at most 5,000.
\<close>

theorem token_processor_ok:
  assumes "processor_run id discard_token queue_capacity new_processor p"
  shows "distinct (pr_queue p @ pr_adding p @ pr_busy p) \<and> set (pr_queue p @ pr_adding p @ pr_busy p) = pr_seen p \<and>
     length (pr_queue p) \<le> 5000 \<and> length (pr_busy p) \<le> 10"
proof -
  have "processor_ok id queue_capacity p" by (rule token_run_ok [OF assms]) (simp add: processor_ok_def new_processor_def)
  then show ?thesis by (simp add: processor_ok_def queue_capacity_def finder_workers_def)
qed

text \<open>
  The pair finder forgets to forget: once a full channel has discarded a pair, its address stays in
  \<open>seen\<close>, and no later call queues it again.
\<close>

lemma stuck_step:
  assumes "processor_step fst discard_pair cap p q" "a \<in> pr_seen p" "a \<notin> fst ` set (pending p)"
  shows "a \<in> pr_seen q \<and> a \<notin> fst ` set (pending q)"
  using assms(1)
proof cases
  case (claim x)
  then show ?thesis using assms(2,3) by (auto simp: claim_item_def)
next
  case (send x)
  then show ?thesis using assms(2,3) by (force simp: send_item_def dest: set_remove1_subset [THEN subsetD])
next
  case (discard x)
  then show ?thesis using assms(2,3) by (auto simp: discard_pair_def dest: set_remove1_subset [THEN subsetD])
next
  case take
  then show ?thesis using assms(2,3) by (cases "pr_queue p") (auto simp: take_item_def)
next
  case (finish x)
  then have "fst x \<noteq> a" using assms(3) by auto
  then show ?thesis using finish assms(2,3) by (auto simp: finish_item_def dest: set_remove1_subset [THEN subsetD])
qed

lemma stuck_run:
  "processor_run fst discard_pair cap p q \<Longrightarrow> a \<in> pr_seen p \<and> a \<notin> fst ` set (pending p) \<Longrightarrow> a \<in> pr_seen q \<and> a \<notin> fst ` set (pending q)"
proof (induction rule: processor_run.induct)
  case (step q r)
  show ?case using stuck_step [OF step.hyps(2)] step.IH [OF step.prems] by blast
qed

lemma pair_discarded_forever:
  assumes "processor_run fst discard_pair cap (discard_pair (a, t) p) q"
    and "processor_ok fst cap p" "(a, t) \<in> set (pr_adding p)"
  shows "a \<in> pr_seen q \<and> a \<notin> fst ` set (pending q)"
proof (rule stuck_run [OF assms(1)])
  have e: "pending (discard_pair (a, t) p) = pr_queue p @ remove1 (a, t) (pr_adding p) @ pr_busy p" "pr_seen (discard_pair (a, t) p) = pr_seen p"
    by (simp_all add: discard_pair_def)
  have "fst ` set (pending (discard_pair (a, t) p)) = pr_seen p - {a}"
    unfolding e(1) using pending_simps(2) [OF assms(2,3)] by simp
  moreover have "fst (a, t) \<in> pr_seen p"
    using assms(2,3) unfolding processor_ok_def set_append by blast
  ultimately show "a \<in> pr_seen (discard_pair (a, t) p) \<and> a \<notin> fst ` set (pending (discard_pair (a, t) p))" unfolding e(2) by simp
qed

section \<open>Witnesses\<close>

definition finder_now :: finder_env where
  "finder_now = \<lparr>fe_now = 1, fe_up = (\<lambda>k. True), fe_supply = (\<lambda>a. None)\<rparr>"

definition cached_token :: token where
  "cached_token = \<lparr>to_Name = ''Coin'', to_Symbol = ''C'', to_Decimals = 6, to_Address = ''mint'', to_Supply = ''5'', to_CreatedBlock = 1,
     to_Network = ''solana'', to_CreatedTimestamp = 0, to_Deployer = None, to_Metadata = None\<rparr>"

lemma FindToken_found_witness:
  "FindToken (timescale_tokens plain_pg) plain_chain finder_now ''mint'' False ([''mint'' \<mapsto> (CachedToken cached_token, 2)], empty_db) =
     Inr (Some cached_token, [''mint'' \<mapsto> (CachedToken cached_token, 2)], empty_db) \<and> to_Name cached_token \<noteq> []"
proof
  let ?c = "[''mint'' \<mapsto> (CachedToken cached_token, 2)] :: cache"
  show f: "FindToken (timescale_tokens plain_pg) plain_chain finder_now ''mint'' False (?c, empty_db) = Inr (Some cached_token, ?c, empty_db)"
    by (simp add: FindToken_def GetToken_def finder_now_def)
  have "cache_ok ?c" by (simp add: cache_ok_def cached_token_def)
  then show "to_Name cached_token \<noteq> []" using FindToken_found [OF f] by simp
qed

lemma token_processor_ok_witness:
  "distinct (pr_queue (take_item (send_item ''a'' (claim_item id ''a'' new_processor))) @
     pr_adding (take_item (send_item ''a'' (claim_item id ''a'' new_processor))) @
     pr_busy (take_item (send_item ''a'' (claim_item id ''a'' new_processor))))"
proof -
  let ?run = "processor_run id discard_token queue_capacity new_processor"
  have "?run (claim_item id ''a'' new_processor)" by (rule processor_run.step [OF processor_run.start processor_step.claim])
  then have "?run (send_item ''a'' (claim_item id ''a'' new_processor))"
    by (rule processor_run.step [OF _ processor_step.send]) (simp_all add: claim_item_def new_processor_def queue_capacity_def)
  then have "?run (take_item (send_item ''a'' (claim_item id ''a'' new_processor)))"
    by (rule processor_run.step [OF _ processor_step.take]) (simp add: claim_item_def send_item_def new_processor_def finder_workers_def)
  then show ?thesis using token_processor_ok by blast
qed

end
