(* ===== verification/Dex.thy ===== *)
theory Dex
  imports Samples
begin

text \<open>
  The swap handlers of internal/solana/dex: from two neighbouring transfers of the same program
  (or, for PumpFun, from the event data of one) to a swap, and by how many transfers the caller
  advances. \<open>dex_handler\<close> is the contract the swap handler relies on; it is discharged for every
  handler the program table names.
\<close>

section \<open>What the handlers share\<close>

text \<open>\<open>acc_key keys accounts n\<close> is \<open>accountKeys[accounts[n]]\<close>.\<close>

definition acc_key :: "string list \<Rightarrow> int list \<Rightarrow> int \<Rightarrow> string go" where
  "acc_key keys accounts n = go_bind (idx accounts n) (idx keys)"

text \<open>\<open>len(accounts) < n || len(accountKeys) < accounts[n - 1]\<close>, for \<open>n > 0\<close>.\<close>

definition short_accounts :: "nat \<Rightarrow> int list \<Rightarrow> string list \<Rightarrow> bool" where
  "short_accounts n accounts keys \<longleftrightarrow> length accounts < n \<or> int (length keys) < accounts ! (n - 1)"

text \<open>The swap whose outgoing leg is \<open>cur\<close> and whose incoming leg is \<open>nxt\<close>.\<close>

definition swap_of :: "string \<Rightarrow> string \<Rightarrow> string \<Rightarrow> sol_transfer \<Rightarrow> sol_transfer \<Rightarrow> sol_swap" where
  "swap_of exchange pair wallet cur nxt = \<lparr>sw_Pair = pair, sw_Exchange = exchange, sw_TokenOut = tr_Mint cur,
     sw_TokenIn = tr_Mint nxt, sw_AmountOut = tr_Amount cur, sw_AmountIn = tr_Amount nxt, sw_Wallet = wallet, sw_Source = []\<rparr>"

text \<open>Handlers that know the wallet swap the legs when the first one is not authorised by it.\<close>

definition by_authority :: "string \<Rightarrow> string \<Rightarrow> string \<Rightarrow> sol_transfer \<Rightarrow> sol_transfer \<Rightarrow> sol_swap" where
  "by_authority exchange pair wallet cur nxt =
     (if tr_Authority cur \<noteq> wallet then swap_of exchange pair wallet nxt cur else swap_of exchange pair wallet cur nxt)"

text \<open>The opening every two-leg handler has: the next transfer exists and belongs to the same program.\<close>

definition two_legs ::
  "nat \<Rightarrow> (sol_transfer \<Rightarrow> sol_transfer \<Rightarrow> (sol_swap \<times> int) go) \<Rightarrow> int \<Rightarrow> sol_transfer list \<Rightarrow> string list
     \<Rightarrow> (sol_swap \<times> int) go" where
  "two_legs n body index transfers keys =
     (if int (length transfers) \<le> index + 1 then Inr (zero_swap, 0)
      else
        go_bind (idx transfers index) (\<lambda>cur.
        go_bind (idx transfers (index + 1)) (\<lambda>nxt.
          if tr_ParentProgramId cur \<noteq> tr_ParentProgramId nxt then Inr (zero_swap, 0)
          else if short_accounts n (tr_IxAccounts cur) keys then Inr (zero_swap, 0)
          else body cur nxt)))"

section \<open>The two-leg handlers\<close>

definition HandleRaydiumSwaps :: "int \<Rightarrow> sol_transfer list \<Rightarrow> string list \<Rightarrow> (sol_swap \<times> int) go" where
  "HandleRaydiumSwaps index transfers keys = two_legs 2 (\<lambda>cur nxt.
     go_bind (acc_key keys (tr_IxAccounts cur) 1) (\<lambda>pair.
     go_bind (acc_key keys (tr_IxAccounts cur) 16) (\<lambda>wallet16.
     go_bind (if length (tr_IxAccounts cur) = 18 then acc_key keys (tr_IxAccounts cur) 17 else Inr wallet16) (\<lambda>wallet.
       Inr (by_authority ''RAYDIUM'' pair wallet cur nxt, 1))))) index transfers keys"

definition HandleRaydiumConcentratedSwaps :: "int \<Rightarrow> sol_transfer list \<Rightarrow> string list \<Rightarrow> (sol_swap \<times> int) go" where
  "HandleRaydiumConcentratedSwaps index transfers keys = two_legs 2 (\<lambda>cur nxt.
     go_bind (acc_key keys (tr_IxAccounts cur) 2) (\<lambda>pair.
     go_bind (acc_key keys (tr_IxAccounts cur) 0) (\<lambda>wallet.
       Inr (by_authority ''RAYDIUM_CONCENTRATED_LIQ'' pair wallet cur nxt, 1)))) index transfers keys"

definition HandleRaydiumCPMMSwaps :: "int \<Rightarrow> sol_transfer list \<Rightarrow> string list \<Rightarrow> (sol_swap \<times> int) go" where
  "HandleRaydiumCPMMSwaps index transfers keys = two_legs 2 (\<lambda>cur nxt.
     go_bind (acc_key keys (tr_IxAccounts cur) 3) (\<lambda>pair.
     go_bind (acc_key keys (tr_IxAccounts cur) 0) (\<lambda>wallet.
       Inr (by_authority ''RAYDIUM_CPMM'' pair wallet cur nxt, 1)))) index transfers keys"

definition HandleRaydiumLaunchpadSwaps :: "int \<Rightarrow> sol_transfer list \<Rightarrow> string list \<Rightarrow> (sol_swap \<times> int) go" where
  "HandleRaydiumLaunchpadSwaps index transfers keys = two_legs 2 (\<lambda>cur nxt.
     go_bind (acc_key keys (tr_IxAccounts cur) 4) (\<lambda>pair.
     go_bind (acc_key keys (tr_IxAccounts cur) 0) (\<lambda>wallet.
       Inr (by_authority ''RAYDIUM_LAUNCHPAD'' pair wallet cur nxt, 1)))) index transfers keys"

definition HandlePumpFunAmmSwaps :: "int \<Rightarrow> sol_transfer list \<Rightarrow> string list \<Rightarrow> (sol_swap \<times> int) go" where
  "HandlePumpFunAmmSwaps index transfers keys = two_legs 2 (\<lambda>cur nxt.
     go_bind (acc_key keys (tr_IxAccounts cur) 0) (\<lambda>pair.
     go_bind (acc_key keys (tr_IxAccounts cur) 1) (\<lambda>wallet.
       Inr (by_authority ''PUMPFUN_AMM'' pair wallet cur nxt, 1)))) index transfers keys"

definition HandleMeteoraSwaps :: "int \<Rightarrow> sol_transfer list \<Rightarrow> string list \<Rightarrow> (sol_swap \<times> int) go" where
  "HandleMeteoraSwaps index transfers keys = two_legs 1 (\<lambda>cur nxt.
     go_bind (acc_key keys (tr_IxAccounts cur) 10) (\<lambda>wallet.
     go_bind (acc_key keys (tr_IxAccounts cur) 0) (\<lambda>pair.
       Inr (swap_of ''METEORA'' pair wallet cur nxt, 1)))) index transfers keys"

definition HandleOrcaSwaps :: "int \<Rightarrow> sol_transfer list \<Rightarrow> string list \<Rightarrow> (sol_swap \<times> int) go" where
  "HandleOrcaSwaps index transfers keys = two_legs 3 (\<lambda>cur nxt.
     go_bind (if length (tr_IxAccounts cur) = 15 then acc_key keys (tr_IxAccounts cur) 4
              else acc_key keys (tr_IxAccounts cur) 2) (\<lambda>pair.
       Inr (swap_of ''ORCA'' pair (tr_FromUserAccount cur) cur nxt, 1))) index transfers keys"

section \<open>PumpFun\<close>

text \<open>hex.EncodeToString and hex.DecodeString.\<close>

definition hex_digits :: string where
  "hex_digits = ''0123456789abcdef''"

definition hex_of :: "nat \<Rightarrow> char" where
  "hex_of n = hex_digits ! n"

fun hex_encode :: "byte list \<Rightarrow> string" where
  "hex_encode [] = []"
| "hex_encode (b # bs) = hex_of (unat b div 16) # hex_of (unat b mod 16) # hex_encode bs"

definition hex_val :: "char \<Rightarrow> nat option" where
  "hex_val c = (let n = (of_char c :: nat) in
     if 48 \<le> n \<and> n \<le> 57 then Some (n - 48)
     else if 97 \<le> n \<and> n \<le> 102 then Some (n - 87)
     else if 65 \<le> n \<and> n \<le> 70 then Some (n - 55) else None)"

fun hex_decode :: "string \<Rightarrow> byte list option" where
  "hex_decode [] = Some []"
| "hex_decode [c] = None"
| "hex_decode (c # d # s) =
     (case (hex_val c, hex_val d, hex_decode s) of
        (Some x, Some y, Some bs) \<Rightarrow> Some (of_nat (16 * x + y) # bs)
      | _ \<Rightarrow> None)"

definition TRADE_EVENT_DISCRIMINATOR :: string where
  "TRADE_EVENT_DISCRIMINATOR = ''bddb7fd34ee661ee''"

text \<open>The legs of a trade event, with their decimals: (tokenOut, amountOut, its decimals, tokenIn, ...).\<close>

definition pumpfun_legs :: "ext \<Rightarrow> pumpfun_swap \<Rightarrow> (string \<times> 64 word \<times> int) \<times> (string \<times> 64 word \<times> int)" where
  "pumpfun_legs E sw =
     (if pf_IsBuy sw
      then ((WSOL, pf_SolAmount sw, 9), (key_string E (pf_Mint sw), pf_TokenAmount sw, 6))
      else ((key_string E (pf_Mint sw), pf_TokenAmount sw, 6), (WSOL, pf_SolAmount sw, 9)))"

text \<open>FormatUint, SetString, the zero test, Quo and String of one amount; \<open>None\<close> is the zero amount.\<close>

definition pumpfun_amount :: "64 word \<Rightarrow> int \<Rightarrow> string option go" where
  "pumpfun_amount w decimals =
     (case bf_set_string (dec (uint w)) of
        None \<Rightarrow> Inr None
      | Some v \<Rightarrow>
          if v = Fin 0 then Inr None
          else go_bind (bf_quo 64 v (pow10 decimals)) (\<lambda>q. Inr (Some (bf_text_g10 q))))"

definition HandlePumpFunSwapData :: "ext \<Rightarrow> string \<Rightarrow> sol_swap go" where
  "HandlePumpFunSwapData E ixData =
     (case b58_decode E ixData of
        None \<Rightarrow> Inr zero_swap
      | Some bytesData \<Rightarrow>
          let hexData = hex_encode bytesData in
          (case str_index hexData TRADE_EVENT_DISCRIMINATOR of
             None \<Rightarrow> Inr zero_swap
           | Some pos \<Rightarrow>
               (case hex_decode (drop (pos + length TRADE_EVENT_DISCRIMINATOR) hexData) of
                  None \<Rightarrow> Inr zero_swap
                | Some decodedBytes \<Rightarrow>
                    (case bin_pumpfun_swap E decodedBytes of
                       None \<Rightarrow> Inr zero_swap
                     | Some sw \<Rightarrow>
                         if key_string E (pf_Mint sw) = [] then Inr zero_swap
                         else
                           let ((tokenOut, rawOut, decOut), (tokenIn, rawIn, decIn)) = pumpfun_legs E sw in
                           go_bind (pumpfun_amount rawOut decOut) (\<lambda>out.
                           go_bind (pumpfun_amount rawIn decIn) (\<lambda>inn.
                             Inr (case (out, inn) of
                                    (Some amountOut, Some amountIn) \<Rightarrow>
                                      \<lparr>sw_Pair = [], sw_Exchange = ''PUMPFUN'', sw_TokenOut = tokenOut, sw_TokenIn = tokenIn,
                                        sw_AmountOut = amountOut, sw_AmountIn = amountIn,
                                        sw_Wallet = key_string E (pf_User sw), sw_Source = []\<rparr>
                                  | _ \<Rightarrow> zero_swap)))))))"

definition HandlePumpFunSwaps :: "ext \<Rightarrow> int \<Rightarrow> sol_transfer list \<Rightarrow> string list \<Rightarrow> (sol_swap \<times> int) go" where
  "HandlePumpFunSwaps E index transfers keys =
     go_bind (idx transfers index) (\<lambda>cur.
       if short_accounts 4 (tr_IxAccounts cur) keys then Inr (zero_swap, 0)
       else
         go_bind
           (if index + 1 < int (length transfers)
            then go_bind (idx transfers (index + 1)) (\<lambda>nxt. Inr (if tr_ParentProgramId cur = tr_ParentProgramId nxt then 1 else 0))
            else Inr 0)
           (\<lambda>incr.
             if tr_ToUserAccount cur = PUMPFUN_FEE_ACCOUNT then Inr (zero_swap, incr)
             else
               go_bind (HandlePumpFunSwapData E (tr_EventData cur)) (\<lambda>s.
               go_bind (acc_key keys (tr_IxAccounts cur) 3) (\<lambda>pair.
                 Inr (s\<lparr>sw_Pair := pair\<rparr>, incr)))))"

section \<open>The contract\<close>

text \<open>
  What the swap handler relies on. \<open>returns\<close>: on an instruction that passed the shape check the
  handler does not panic. \<open>advance\<close>: it skips no more transfers than there are.
\<close>

locale dex_handler =
  fixes handle :: "int \<Rightarrow> sol_transfer list \<Rightarrow> string list \<Rightarrow> (sol_swap \<times> int) go"
    and program :: string
  assumes returns: "valid_ix transfers i \<Longrightarrow> accounts_ok keys (tr_IxAccounts (transfers ! nat i)) \<Longrightarrow>
      validateDexInstruction program (tr_IxAccounts (transfers ! nat i)) keys = Inr True \<Longrightarrow> ok (handle i transfers keys)"
    and advance: "handle i transfers keys = Inr (s, inc) \<Longrightarrow> valid_ix transfers i \<Longrightarrow>
      0 \<le> inc \<and> i + inc < int (length transfers)"
begin

lemma step:
  assumes "valid_ix transfers i" "accounts_ok keys (tr_IxAccounts (transfers ! nat i))"
    and "validateDexInstruction program (tr_IxAccounts (transfers ! nat i)) keys = Inr True"
  shows "\<exists>s inc. handle i transfers keys = Inr (s, inc) \<and> 0 \<le> inc \<and> valid_ix transfers (i + inc)"
proof -
  obtain s inc where h: "handle i transfers keys = Inr (s, inc)"
    using returns [OF assms] unfolding ok_conv by force
  then show ?thesis using advance [OF h assms(1)] assms(1) by (auto simp: valid_ix_def)
qed

end

text \<open>A two-leg handler makes its swap of exactly the two neighbouring transfers, in one order or the other.\<close>

locale two_leg_handler = dex_handler +
  fixes exchange :: string
  assumes legs: "handle i transfers keys = Inr (s, inc) \<Longrightarrow> valid_ix transfers i \<Longrightarrow> s \<noteq> zero_swap \<Longrightarrow>
      inc = 1 \<and> (\<exists>pair wallet a b. s = swap_of exchange pair wallet (transfers ! nat a) (transfers ! nat b) \<and>
        (a, b) \<in> {(i, i + 1), (i + 1, i)})"
begin

lemma leg_values:
  assumes "handle i transfers keys = Inr (s, inc)" "valid_ix transfers i" "s \<noteq> zero_swap"
  shows "sw_Exchange s = exchange"
    and "{(sw_TokenOut s, sw_AmountOut s), (sw_TokenIn s, sw_AmountIn s)} =
         {(tr_Mint t, tr_Amount t) | t. t \<in> {transfers ! nat i, transfers ! nat (i + 1)}}"
  using legs [OF assms] by (auto simp: swap_of_def)

end

section \<open>The handlers meet it\<close>

lemma acc_key_ok:
  "accounts_ok keys accounts \<Longrightarrow> n < length accounts \<Longrightarrow> acc_key keys accounts (int n) = Inr (acct keys accounts n)"
  using accounts_ok_nth [of keys accounts n] by (simp add: acc_key_def acct_def idx_def valid_ix_def)

lemma ok_acc_key: "accounts_ok keys accounts \<Longrightarrow> 0 \<le> n \<Longrightarrow> n < int (length accounts) \<Longrightarrow> ok (acc_key keys accounts n)"
  using acc_key_ok [of keys accounts "nat n"] by simp

lemma not_short: "accounts_ok keys accounts \<Longrightarrow> 0 < n \<Longrightarrow> n \<le> length accounts \<Longrightarrow> \<not> short_accounts n accounts keys"
proof -
  assume a: "accounts_ok keys accounts" "0 < n" "n \<le> length accounts"
  then have "valid_ix keys (accounts ! (n - 1))" by (intro accounts_ok_nth) auto
  then show ?thesis using a by (simp add: short_accounts_def valid_ix_def)
qed

lemma two_legs_ok:
  assumes "valid_ix transfers i" "\<And>nxt. ok (body (transfers ! nat i) nxt)"
  shows "ok (two_legs n body i transfers keys)"
  using assms by (auto simp: two_legs_def idx_def valid_ix_def)

lemma two_legs_result:
  assumes "two_legs n body i transfers keys = Inr (s, inc)" "valid_ix transfers i"
  shows "s = zero_swap \<and> inc = 0 \<or>
     i + 1 < int (length transfers) \<and> body (transfers ! nat i) (transfers ! nat (i + 1)) = Inr (s, inc)"
  using assms by (auto simp: two_legs_def idx_def valid_ix_def split: if_splits)

lemma two_legs_contract:
  assumes ok_body: "\<And>keys cur nxt. accounts_ok keys (tr_IxAccounts cur) \<Longrightarrow>
        validateDexInstruction program (tr_IxAccounts cur) keys = Inr True \<Longrightarrow> ok (body keys cur nxt)"
    and body_legs: "\<And>keys cur nxt s inc. body keys cur nxt = Inr (s, inc) \<Longrightarrow>
        inc = 1 \<and> (\<exists>pair wallet. s = swap_of exchange pair wallet cur nxt \<or> s = swap_of exchange pair wallet nxt cur)"
    and handle: "\<And>i transfers keys. handle i transfers keys = two_legs n (body keys) i transfers keys"
  shows "two_leg_handler handle program exchange"
proof
  fix transfers :: "sol_transfer list" and i :: int and keys :: "string list"
  assume "valid_ix transfers i" "accounts_ok keys (tr_IxAccounts (transfers ! nat i))"
    "validateDexInstruction program (tr_IxAccounts (transfers ! nat i)) keys = Inr True"
  then show "ok (handle i transfers keys)" unfolding handle by (intro two_legs_ok ok_body)
next
  fix transfers :: "sol_transfer list" and i inc :: int and keys :: "string list" and s
  assume h: "handle i transfers keys = Inr (s, inc)" and i: "valid_ix transfers i"
  note r = two_legs_result [OF h [unfolded handle] i]
  show "0 \<le> inc \<and> i + inc < int (length transfers)"
    using r i body_legs by (fastforce simp: valid_ix_def)
  show "inc = 1 \<and> (\<exists>pair wallet a b. s = swap_of exchange pair wallet (transfers ! nat a) (transfers ! nat b) \<and>
        (a, b) \<in> {(i, i + 1), (i + 1, i)})" if "s \<noteq> zero_swap"
  proof -
    have "body keys (transfers ! nat i) (transfers ! nat (i + 1)) = Inr (s, inc)" using r that by blast
    then have "inc = 1" and "\<exists>pair wallet. s = swap_of exchange pair wallet (transfers ! nat i) (transfers ! nat (i + 1)) \<or>
        s = swap_of exchange pair wallet (transfers ! nat (i + 1)) (transfers ! nat i)"
      using body_legs by blast+
    then show ?thesis by blast
  qed
qed

lemmas handler_simps = dex_min_accounts_def program_neq by_authority_def ok_iff

interpretation raydium: two_leg_handler HandleRaydiumSwaps RAYDIUM_LIQ_POOL_V4 "''RAYDIUM''"
  by (rule two_legs_contract [OF _ _ HandleRaydiumSwaps_def])
    (auto dest!: validateDexInstruction_min simp: handler_simps intro!: ok_bindI ok_acc_key split: if_splits)

interpretation concentrated: two_leg_handler HandleRaydiumConcentratedSwaps RAYDIUM_CONCENTRATED_LIQ "''RAYDIUM_CONCENTRATED_LIQ''"
  by (rule two_legs_contract [OF _ _ HandleRaydiumConcentratedSwaps_def])
    (auto dest!: validateDexInstruction_min simp: handler_simps intro!: ok_bindI ok_acc_key split: if_splits)

interpretation cpmm: two_leg_handler HandleRaydiumCPMMSwaps RAYDIUM_CPMM "''RAYDIUM_CPMM''"
  by (rule two_legs_contract [OF _ _ HandleRaydiumCPMMSwaps_def])
    (auto dest!: validateDexInstruction_min simp: handler_simps intro!: ok_bindI ok_acc_key split: if_splits)

interpretation launchpad: two_leg_handler HandleRaydiumLaunchpadSwaps RAYDIUM_LAUNCHPAD "''RAYDIUM_LAUNCHPAD''"
  by (rule two_legs_contract [OF _ _ HandleRaydiumLaunchpadSwaps_def])
    (auto dest!: validateDexInstruction_min simp: handler_simps intro!: ok_bindI ok_acc_key split: if_splits)

interpretation pumpfun_amm: two_leg_handler HandlePumpFunAmmSwaps PUMPFUN_AMM "''PUMPFUN_AMM''"
  by (rule two_legs_contract [OF _ _ HandlePumpFunAmmSwaps_def])
    (auto dest!: validateDexInstruction_min simp: handler_simps intro!: ok_bindI ok_acc_key split: if_splits)

interpretation meteora: two_leg_handler HandleMeteoraSwaps METEORA_DLMM_PROGRAM "''METEORA''"
  by (rule two_legs_contract [OF _ _ HandleMeteoraSwaps_def])
    (auto dest!: validateDexInstruction_min simp: handler_simps intro!: ok_bindI ok_acc_key split: if_splits)

interpretation orca: two_leg_handler HandleOrcaSwaps ORCA_WHIRL_PROGRAM_ID "''ORCA''"
  by (rule two_legs_contract [OF _ _ HandleOrcaSwaps_def])
    (auto dest!: validateDexInstruction_min simp: handler_simps intro!: ok_bindI ok_acc_key split: if_splits)

section \<open>PumpFun meets it\<close>

definition plain_decimal :: "string \<Rightarrow> bool" where
  "plain_decimal s \<longleftrightarrow> s \<notin> {''Inf'', ''inf'', ''+Inf'', ''+inf''} \<and> s \<notin> {''-Inf'', ''-inf''}"

lemma dec_plain: "0 \<le> n \<Longrightarrow> plain_decimal (dec n)"
  using dec_props [of n] by (cases "dec n") (auto simp: plain_decimal_def is_digit_def)

lemma set_string_dec: "bf_set_string (dec (uint (w :: 64 word))) = Some (Fin (of_int (uint w)))"
proof -
  have n: "0 \<le> uint w" "uint w \<le> 2 ^ 64" using uint_lt2p [of w] by simp_all
  have "rnd 64 (of_int (uint w)) = of_int (uint w)" by (rule rnd_of_int) (use n in simp_all)
  then show ?thesis using dec_plain [OF n(1)] parse_decimal_dec [OF n(1)]
    unfolding bf_set_string_def plain_decimal_def by (simp only: if_False simp_thms option.map)
qed

lemma pumpfun_amount_value: "0 \<le> d \<Longrightarrow> \<exists>r. pumpfun_amount w d = Inr r"
proof -
  assume "0 \<le> d"
  then obtain q where "bf_quo 64 (Fin (of_int (uint w))) (pow10 d) = Inr (Fin q)"
    using bf_quo_usable [OF pow10_usable, of d] by force
  then show ?thesis by (simp only: pumpfun_amount_def set_string_dec option.case if_distrib) simp
qed

lemma pumpfun_legs_decimals:
  "pumpfun_legs E sw = ((t, w, d), (t', w', d')) \<Longrightarrow> 0 \<le> d \<and> 0 \<le> d'"
  by (auto simp: pumpfun_legs_def split: if_splits)

lemma ok_HandlePumpFunSwapData: "ok (HandlePumpFunSwapData E s)"
proof -
  have legs: "ok (let ((t, w, d), (t', w', d')) = pumpfun_legs E sw in
      go_bind (pumpfun_amount w d) (\<lambda>x. go_bind (pumpfun_amount w' d') (\<lambda>y. Inr (f t t' x y))))" for sw and f :: "string \<Rightarrow> string \<Rightarrow> string option \<Rightarrow> string option \<Rightarrow> sol_swap"
  proof -
    obtain t w d t' w' d' where l: "pumpfun_legs E sw = ((t, w, d), (t', w', d'))" by (metis prod_cases3 surj_pair)
    obtain x y where "pumpfun_amount w d = Inr x" "pumpfun_amount w' d' = Inr y"
      using pumpfun_legs_decimals [OF l] pumpfun_amount_value by blast
    then show ?thesis using l by simp
  qed
  show ?thesis unfolding HandlePumpFunSwapData_def Let_def [of "hex_encode _"]
    by (simp only: ok_simps legs split: option.split if_split) simp
qed

interpretation pumpfun: dex_handler "HandlePumpFunSwaps E" PUMPFUN for E
proof
  fix transfers :: "sol_transfer list" and i :: int and keys :: "string list"
  assume a: "valid_ix transfers i" "accounts_ok keys (tr_IxAccounts (transfers ! nat i))"
    "validateDexInstruction PUMPFUN (tr_IxAccounts (transfers ! nat i)) keys = Inr True"
  have "12 \<le> length (tr_IxAccounts (transfers ! nat i))"
    using validateDexInstruction_min [OF a(3)] by (simp add: dex_min_accounts_def program_neq)
  then show "ok (HandlePumpFunSwaps E i transfers keys)" using a(1,2)
    by (auto simp: HandlePumpFunSwaps_def idx_valid idx_def valid_ix_def
        intro!: ok_bindI ok_acc_key ok_HandlePumpFunSwapData)
next
  fix transfers :: "sol_transfer list" and i inc :: int and keys :: "string list" and s
  assume "HandlePumpFunSwaps E i transfers keys = Inr (s, inc)" "valid_ix transfers i"
  then show "0 \<le> inc \<and> i + inc < int (length transfers)"
    by (auto simp: HandlePumpFunSwaps_def valid_ix_def ok_iff split: if_splits)
qed

section \<open>The PumpFun event\<close>

lemma hex_digit_val: "n < 16 \<Longrightarrow> hex_val (hex_of n) = Some n"
proof -
  assume "n < 16"
  then have "n \<in> {0, 1, 2, 3, 4, 5, 6, 7, 8, 9, 10, 11, 12, 13, 14, 15}" unfolding insert_iff empty_iff by presburger
  then show ?thesis unfolding insert_iff empty_iff
    by (elim disjE; simp add: hex_of_def hex_digits_def hex_val_def)
qed

lemma hex_decode_encode: "hex_decode (hex_encode bs) = Some bs"
proof (induction bs)
  case (Cons b bs)
  have "unat b < 256" by (rule unat_lt2p_byte)
  then have "unat b div 16 < 16" "unat b mod 16 < 16" by auto
  moreover have "(of_nat (16 * (unat b div 16) + unat b mod 16) :: byte) = b"
    by (simp only: mult_div_mod_eq) simp
  ultimately show ?case using Cons hex_digit_val by simp
qed simp

lemma hex_encode_append: "hex_encode (a @ b) = hex_encode a @ hex_encode b"
  by (induction a) simp_all

lemma length_hex_encode [simp]: "length (hex_encode bs) = 2 * length bs"
  by (induction bs) simp_all

text \<open>Anchor writes an event as its event tag, the discriminator of the event type, the payload.\<close>

definition anchor_event_tag :: "byte list" where
  "anchor_event_tag = [0xe4, 0x45, 0xa5, 0x2e, 0x51, 0xcb, 0x9a, 0x1d]"

definition trade_discriminator :: "byte list" where
  "trade_discriminator = [0xbd, 0xdb, 0x7f, 0xd3, 0x4e, 0xe6, 0x61, 0xee]"

lemma event_hex:
  "hex_encode (anchor_event_tag @ trade_discriminator @ payload) =
     ''e445a52e51cb9a1d'' @ TRADE_EVENT_DISCRIMINATOR @ hex_encode payload"
  by (simp add: hex_encode_append anchor_event_tag_def trade_discriminator_def hex_of_def hex_digits_def TRADE_EVENT_DISCRIMINATOR_def)

lemma event_index:
  "str_index (''e445a52e51cb9a1d'' @ TRADE_EVENT_DISCRIMINATOR @ rest) TRADE_EVENT_DISCRIMINATOR = Some 16"
  by (simp add: TRADE_EVENT_DISCRIMINATOR_def)

lemma pumpfun_amount_nonzero:
  assumes "w \<noteq> 0" "0 \<le> d" "d \<le> 22"
  shows "pumpfun_amount w d = Inr (Some (bf_text_g10 (Fin (rnd 64 (of_int (uint w) / 10 ^ nat d)))))"
proof -
  have "of_int (uint w) \<noteq> (0 :: rat)" using assms(1) by (simp only: of_int_eq_0_iff uint_0_iff simp_thms)
  then show ?thesis using assms pow10_exact [of d] by (simp add: pumpfun_amount_def set_string_dec)
qed

text \<open>A PumpFun trade event, as Anchor writes it, becomes the swap its payload describes.\<close>

theorem HandlePumpFunSwapData_event:
  assumes "b58_decode E s = Some (anchor_event_tag @ trade_discriminator @ payload)"
    and "bin_pumpfun_swap E payload = Some sw" "key_string E (pf_Mint sw) \<noteq> []"
    and "pf_SolAmount sw \<noteq> 0" "pf_TokenAmount sw \<noteq> 0"
  shows "HandlePumpFunSwapData E s = Inr
     (let sol = bf_text_g10 (Fin (rnd 64 (of_int (uint (pf_SolAmount sw)) / 10 ^ 9)));
          tok = bf_text_g10 (Fin (rnd 64 (of_int (uint (pf_TokenAmount sw)) / 10 ^ 6)));
          mint = key_string E (pf_Mint sw)
      in zero_swap\<lparr>sw_Exchange := ''PUMPFUN'', sw_Wallet := key_string E (pf_User sw),
           sw_TokenOut := (if pf_IsBuy sw then WSOL else mint), sw_AmountOut := (if pf_IsBuy sw then sol else tok),
           sw_TokenIn := (if pf_IsBuy sw then mint else WSOL), sw_AmountIn := (if pf_IsBuy sw then tok else sol)\<rparr>)"
proof -
  have d: "drop (16 + length TRADE_EVENT_DISCRIMINATOR) (''e445a52e51cb9a1d'' @ TRADE_EVENT_DISCRIMINATOR @ hex_encode payload)
      = hex_encode payload" by (simp add: TRADE_EVENT_DISCRIMINATOR_def)
  have "pumpfun_amount (pf_SolAmount sw) 9 = Inr (Some (bf_text_g10 (Fin (rnd 64 (of_int (uint (pf_SolAmount sw)) / 10 ^ 9)))))"
    "pumpfun_amount (pf_TokenAmount sw) 6 = Inr (Some (bf_text_g10 (Fin (rnd 64 (of_int (uint (pf_TokenAmount sw)) / 10 ^ 6)))))"
    using pumpfun_amount_nonzero [of "pf_SolAmount sw" 9] pumpfun_amount_nonzero [of "pf_TokenAmount sw" 6] assms by simp_all
  then show ?thesis
    unfolding HandlePumpFunSwapData_def assms(1) option.case Let_def event_hex event_index d hex_decode_encode assms(2)
    using assms(3) by (cases "pf_IsBuy sw") (simp_all add: pumpfun_legs_def zero_swap_def)
qed

definition sample_trade :: pumpfun_swap where
  "sample_trade = \<lparr>pf_Mint = zero_key, pf_SolAmount = 5, pf_TokenAmount = 7, pf_IsBuy = True, pf_User = zero_key\<rparr>"

definition trade_ext :: ext where
  "trade_ext = sample_ext\<lparr>b58_decode := (\<lambda>s. Some (anchor_event_tag @ trade_discriminator @ [1])),
     bin_pumpfun_swap := (\<lambda>bs. Some sample_trade)\<rparr>"

lemma HandlePumpFunSwapData_event_witness:
  "HandlePumpFunSwapData trade_ext ''event'' = Inr
     (zero_swap\<lparr>sw_Exchange := ''PUMPFUN'', sw_Wallet := ''key'', sw_TokenOut := WSOL,
        sw_AmountOut := bf_text_g10 (Fin (rnd 64 (5 / 10 ^ 9))), sw_TokenIn := ''key'',
        sw_AmountIn := bf_text_g10 (Fin (rnd 64 (7 / 10 ^ 6)))\<rparr>)"
  by (subst HandlePumpFunSwapData_event [where payload = "[1]" and sw = sample_trade])
    (simp_all add: trade_ext_def sample_trade_def sample_ext_def)

end
