(* ===== verification/DexOther.thy ===== *)
theory DexOther
  imports Dex
begin

text \<open>
  The handlers of internal/solana/dex that the program table does not name (phoenix.go, lifinity.go,
  fluxbeam.go, tokenProgram.go) and the search they share (utils.go). Two of them scan forward over
  the mints between the legs; the scan ends because the indexes of the transfers are finite.
\<close>

section \<open>Search\<close>

fun FindTransfer :: "sol_transfer list \<Rightarrow> int \<Rightarrow> int \<Rightarrow> sol_transfer option" where
  "FindTransfer [] innerIndex ixIndex = None"
| "FindTransfer (t # ts) innerIndex ixIndex =
     (if tr_IxIndex t = ixIndex \<and> tr_InnerIndex t = innerIndex then Some t else FindTransfer ts innerIndex ixIndex)"

lemma FindTransfer_set: "FindTransfer ts i k = Some t \<Longrightarrow> t \<in> set ts \<and> tr_IxIndex t = k \<and> tr_InnerIndex t = i"
  by (induction ts) (auto split: if_splits)

lemma FindTransfer_none: "FindTransfer ts i k = None \<longleftrightarrow> (\<forall>t \<in> set ts. \<not> (tr_IxIndex t = k \<and> tr_InnerIndex t = i))"
  by (induction ts) auto

text \<open>The scans go up through the indexes of the list: this many are left from \<open>k\<close> on.\<close>

definition indexes_from :: "sol_transfer list \<Rightarrow> int \<Rightarrow> int set" where
  "indexes_from ts k = {i \<in> tr_IxIndex ` set ts. k \<le> i}"

lemma indexes_shrink: "FindTransfer ts i k = Some t \<Longrightarrow> card (indexes_from ts (k + 1)) < card (indexes_from ts k)"
proof (rule psubset_card_mono)
  show "finite (indexes_from ts k)" by (simp add: indexes_from_def)
next
  assume "FindTransfer ts i k = Some t"
  then have "k \<in> indexes_from ts k" using FindTransfer_set by (force simp: indexes_from_def)
  moreover have "k \<notin> indexes_from ts (k + 1)" by (simp add: indexes_from_def)
  moreover have "indexes_from ts (k + 1) \<subseteq> indexes_from ts k" by (auto simp: indexes_from_def)
  ultimately show "indexes_from ts (k + 1) \<subset> indexes_from ts k" by blast
qed

section \<open>Handlers\<close>

definition found_swap :: "string \<Rightarrow> string \<Rightarrow> sol_transfer \<Rightarrow> sol_transfer \<Rightarrow> sol_swap" where
  "found_swap exchange wallet out inc = swap_of exchange [] wallet out inc"

definition HandlePhoenixSwaps :: "int \<Rightarrow> int \<Rightarrow> sol_transfer list \<Rightarrow> sol_swap \<times> int" where
  "HandlePhoenixSwaps innerIndex ixIndex transfers =
     (case FindTransfer transfers innerIndex (ixIndex + 1) of
        None \<Rightarrow> (zero_swap, 0)
      | Some transfer1 \<Rightarrow>
          (case FindTransfer transfers innerIndex (ixIndex + 2) of
             None \<Rightarrow> (zero_swap, 0)
           | Some transfer2 \<Rightarrow> (found_swap ''PHOENIX'' (tr_FromUserAccount transfer2) transfer2 transfer1, 3)))"

text \<open>The loops: the transfer of the second leg is at \<open>tf2Index\<close>; the index and the transfer they end with.\<close>

function lifinity_scan :: "sol_transfer list \<Rightarrow> int \<Rightarrow> int \<Rightarrow> sol_transfer \<Rightarrow> (int \<times> sol_transfer) option" where
  "lifinity_scan transfers innerIndex tf2Index transfer2 =
     (if tr_Type transfer2 = ''Mint'' then
        (case FindTransfer transfers innerIndex (tf2Index + 1) of
           None \<Rightarrow> None
         | Some t \<Rightarrow> lifinity_scan transfers innerIndex (tf2Index + 1) t)
      else Some (tf2Index, transfer2))"
  by pat_completeness auto
termination
  by (relation "measure (\<lambda>(ts, i, k, t). card (indexes_from ts (k + 1)))") (auto dest: indexes_shrink)

function fluxbeam_scan :: "sol_transfer list \<Rightarrow> int \<Rightarrow> int \<Rightarrow> sol_transfer \<Rightarrow> (int \<times> sol_transfer) option" where
  "fluxbeam_scan transfers innerIndex tf2Index transfer2 =
     (if tr_Type transfer2 = ''mint'' then
        (case FindTransfer transfers innerIndex (tf2Index + 1) of
           None \<Rightarrow> None
         | Some t \<Rightarrow> if tr_Mint t = [] then Some (tf2Index + 1, t) else fluxbeam_scan transfers innerIndex (tf2Index + 1) t)
      else Some (tf2Index, transfer2))"
  by pat_completeness auto
termination
  by (relation "measure (\<lambda>(ts, i, k, t). card (indexes_from ts (k + 1)))") (auto dest: indexes_shrink)

declare lifinity_scan.simps [simp del] fluxbeam_scan.simps [simp del]

definition HandleLifinitySwaps :: "int \<Rightarrow> int \<Rightarrow> sol_transfer list \<Rightarrow> sol_swap \<times> int" where
  "HandleLifinitySwaps innerIndex ixIndex transfers =
     (case FindTransfer transfers innerIndex (ixIndex + 1) of
        None \<Rightarrow> (zero_swap, 0)
      | Some transfer1 \<Rightarrow>
          (case FindTransfer transfers innerIndex (ixIndex + 2) of
             None \<Rightarrow> (zero_swap, 0)
           | Some transfer2 \<Rightarrow>
               (case (if tr_Mint transfer2 \<noteq> [] then lifinity_scan transfers innerIndex (ixIndex + 2) transfer2
                      else Some (ixIndex + 2, transfer2)) of
                  None \<Rightarrow> (zero_swap, 0)
                | Some (tf2Index, transfer2) \<Rightarrow>
                    (found_swap ''LIFINITY'' (tr_FromUserAccount transfer1) transfer1 transfer2, tf2Index - ixIndex))))"

definition HandleFluxbeamSwaps :: "int \<Rightarrow> int \<Rightarrow> sol_transfer list \<Rightarrow> sol_swap \<times> int" where
  "HandleFluxbeamSwaps innerIndex ixIndex transfers =
     (case FindTransfer transfers innerIndex (ixIndex + 1) of
        None \<Rightarrow> (zero_swap, 0)
      | Some transfer1 \<Rightarrow>
          (case FindTransfer transfers innerIndex (ixIndex + 2) of
             None \<Rightarrow> (zero_swap, 0)
           | Some transfer2 \<Rightarrow>
               (case fluxbeam_scan transfers innerIndex (ixIndex + 2) transfer2 of
                  None \<Rightarrow> (zero_swap, 0)
                | Some (tf2Index, transfer2) \<Rightarrow>
                    (found_swap ''FLUXBEAM'' (tr_FromUserAccount transfer1) transfer1 transfer2, tf2Index - ixIndex))))"

text \<open>The guard looks at the second account; the code reads the third and the fourth.\<close>

definition HandleTokenSwaps :: "int list \<Rightarrow> string list \<Rightarrow> sol_transfer list \<Rightarrow> int \<Rightarrow> int \<Rightarrow> sol_swap go" where
  "HandleTokenSwaps accounts accountKeys transfers innerIndex innerInstructionIndex =
     (if short_accounts 2 accounts accountKeys then Inr zero_swap
      else (case FindTransfer transfers innerIndex (innerInstructionIndex + 1) of
          None \<Rightarrow> Inr zero_swap
        | Some transfer1 \<Rightarrow>
            go_bind (acc_key accountKeys accounts 2) (\<lambda>wallet.
            go_bind (acc_key accountKeys accounts 3) (\<lambda>tokenIn.
              Inr (zero_swap\<lparr>sw_Wallet := wallet, sw_TokenIn := tokenIn, sw_AmountIn := tr_Amount transfer1\<rparr>)))))"

section \<open>Lemmas\<close>

text \<open>The scan for Lifinity ends with the first transfer after the mints, all of which it passed.\<close>

lemma lifinity_scan_found:
  assumes "lifinity_scan ts i k t = Some (k', t')" "FindTransfer ts i k = Some t"
  shows "k \<le> k' \<and> FindTransfer ts i k' = Some t' \<and> tr_Type t' \<noteq> ''Mint'' \<and>
     (\<forall>m. k \<le> m \<and> m < k' \<longrightarrow> (\<exists>u. FindTransfer ts i m = Some u \<and> tr_Type u = ''Mint''))"
  using assms
proof (induction ts i k t rule: lifinity_scan.induct)
  case (1 ts i k t)
  show ?case
  proof (cases "tr_Type t = ''Mint''")
    case False
    then show ?thesis using "1.prems" by (auto simp: lifinity_scan.simps [of ts i k t])
  next
    case True
    then obtain u where u: "FindTransfer ts i (k + 1) = Some u" "lifinity_scan ts i (k + 1) u = Some (k', t')"
      using "1.prems"(1) by (auto simp: lifinity_scan.simps [of ts i k t] split: option.splits)
    note IH = "1.IH" [OF True u]
    have "\<exists>u. FindTransfer ts i m = Some u \<and> tr_Type u = ''Mint''" if "k \<le> m" "m < k'" for m
      using IH[OF u(1)] that True "1.prems"(2) by (cases "m = k") auto
    then show ?thesis using IH[OF u(1)] by auto
  qed
qed

text \<open>
  The parser writes the type of a mint as "mint": on its transfers the scan for Lifinity never passes
  anything, unlike the one for FluxBeam.
\<close>

lemma lifinity_never_scans: "tr_Type t \<noteq> ''Mint'' \<Longrightarrow> lifinity_scan ts i k t = Some (k, t)"
  by (simp add: lifinity_scan.simps)

lemma HandleTokenSwaps_panic:
  assumes "length accounts = 2" "int (length keys) \<ge> accounts ! 1" "FindTransfer ts i (k + 1) = Some t"
  shows "\<exists>e. HandleTokenSwaps accounts keys ts i k = Inl e"
  using assms by (simp add: HandleTokenSwaps_def short_accounts_def acc_key_def idx_def)

end
