(* ===== verification/Json.thy ===== *)
theory Json
  imports SolTypes GoText
begin

text \<open>
  What the generated JSON code (internal/types/sol_easyjson.go) is made of: the values the lexer and the writer
  exchange with it, the loop over the members of an object, and slices. The text of a message
  (delimiters, escapes of strings) is the library's; a number is kept as its text, because the
  lexer converts it by the field it is read into.
\<close>

section \<open>Numbers\<close>

text \<open>out.Int64 and out.Uint64 write decimal digits, out.Float64 the shortest text of strconv's format 'g'.\<close>

definition int_text :: "int \<Rightarrow> string" where
  "int_text n = (if n < 0 then CHR ''-'' # dec (- n) else dec n)"

definition pos_text_g :: "rat \<Rightarrow> string" where
  "pos_text_g x = (case shortest 53 x 54 (- ilog 10 x) of
     None \<Rightarrow> []
   | Some (c, s) \<Rightarrow>
       let e = int (length (dec c)) - 1 - s in
       if e < - 4 \<or> 6 \<le> e
       then (case rev (dropWhile (\<lambda>d. d = CHR ''0'') (rev (dec c))) of
           [] \<Rightarrow> []
         | d # ds \<Rightarrow> d # (if ds = [] then [] else CHR ''.'' # ds) @ exp_text e)
       else scaled_text c s)"

definition float_text :: "gonum \<Rightarrow> string" where
  "float_text a = (case a of
     Fin x \<Rightarrow> if x = 0 then ''0'' else if x < 0 then CHR ''-'' # pos_text_g (- x) else pos_text_g x
   | PosInf \<Rightarrow> ''+Inf'' | NegInf \<Rightarrow> ''-Inf'' | NaN \<Rightarrow> ''NaN'')"

text \<open>What the lexer takes for a number.\<close>

definition number_token :: "string \<Rightarrow> bool" where
  "number_token t \<longleftrightarrow> (case t of [] \<Rightarrow> False | c # _ \<Rightarrow> is_digit c \<or> c = CHR ''-'') \<and>
     list_all (\<lambda>c. is_digit c \<or> c \<in> set ''.eE+-'') t"

definition ParseUint :: "string \<Rightarrow> 64 word option" where
  "ParseUint s = (if s = [] \<or> \<not> list_all is_digit s \<or> 2 ^ 64 \<le> parse_digits s then None else Some (word_of_int (parse_digits s)))"

section \<open>The lexer's values\<close>

text \<open>\<open>None\<close> is an error of the lexer, which ends the decoding.\<close>

definition lex_string :: "json \<Rightarrow> string option" where
  "lex_string j = (case j of JStr s \<Rightarrow> Some s | _ \<Rightarrow> None)"

definition lex_bool :: "json \<Rightarrow> bool option" where
  "lex_bool j = (case j of JBool b \<Rightarrow> Some b | _ \<Rightarrow> None)"

definition lex_int :: "json \<Rightarrow> int option" where
  "lex_int j = (case j of
     JNum t \<Rightarrow> if number_token t \<and> snd (ParseInt 64 t) then Some (fst (ParseInt 64 t)) else None
   | _ \<Rightarrow> None)"

definition lex_uint :: "json \<Rightarrow> 64 word option" where
  "lex_uint j = (case j of JNum t \<Rightarrow> if number_token t then ParseUint t else None | _ \<Rightarrow> None)"

definition parse_finite :: "string \<Rightarrow> gonum option" where
  "parse_finite t = (case parse_decimal t of
     None \<Rightarrow> None
   | Some v \<Rightarrow> (case f64_round v of Fin x \<Rightarrow> Some (Fin x) | _ \<Rightarrow> None))"

definition lex_float :: "json \<Rightarrow> gonum option" where
  "lex_float j = (case j of JNum t \<Rightarrow> if number_token t then parse_finite t else None | _ \<Rightarrow> None)"

section \<open>Objects and slices\<close>

text \<open>
  The loop over the members: a null is skipped, the switch (\<open>f\<close>) decodes the value of a known key
  into the struct and skips an unknown one; null in place of an object leaves the struct.
\<close>

fun decode_fields :: "(string \<Rightarrow> json \<Rightarrow> 'a \<Rightarrow> 'a option) \<Rightarrow> (string \<times> json) list \<Rightarrow> 'a \<Rightarrow> 'a option" where
  "decode_fields f [] out = Some out"
| "decode_fields f ((key, v) # members) out =
     (if v = JNull then decode_fields f members out
      else (case f key v out of None \<Rightarrow> None | Some out' \<Rightarrow> decode_fields f members out'))"

definition decode_object :: "(string \<Rightarrow> json \<Rightarrow> 'a \<Rightarrow> 'a option) \<Rightarrow> json \<Rightarrow> 'a \<Rightarrow> 'a option" where
  "decode_object f j out = (case j of JNull \<Rightarrow> Some out | JObj members \<Rightarrow> decode_fields f members out | _ \<Rightarrow> None)"

definition decode_slice :: "(json \<Rightarrow> 'a option) \<Rightarrow> json \<Rightarrow> 'a list option" where
  "decode_slice d j = (case j of JArr js \<Rightarrow> those (map d js) | _ \<Rightarrow> None)"

definition encode_slice :: "('a \<Rightarrow> json) \<Rightarrow> 'a list \<Rightarrow> json" where
  "encode_slice e xs = JArr (map e xs)"

text \<open>A member that omitempty leaves out.\<close>

definition optional_slice :: "string \<Rightarrow> ('a \<Rightarrow> json) \<Rightarrow> 'a list \<Rightarrow> (string \<times> json) list" where
  "optional_slice key e xs = (if xs = [] then [] else [(key, encode_slice e xs)])"

section \<open>Lemmas\<close>

lemma slice_round_trip: "(\<And>x. x \<in> set xs \<Longrightarrow> d (e x) = Some x) \<Longrightarrow> decode_slice d (encode_slice e xs) = Some xs"
proof -
  assume "\<And>x. x \<in> set xs \<Longrightarrow> d (e x) = Some x"
  then have "those (map (\<lambda>x. d (e x)) xs) = Some xs" by (induction xs) simp_all
  then show ?thesis by (simp add: decode_slice_def encode_slice_def o_def)
qed

lemma encode_slice_not_null [simp]: "encode_slice e xs \<noteq> JNull"
  by (simp add: encode_slice_def)

lemma lex_string_JStr [simp]: "lex_string (JStr s) = Some s"
  by (simp add: lex_string_def)

lemma lex_bool_JBool [simp]: "lex_bool (JBool b) = Some b"
  by (simp add: lex_bool_def)

lemma int_text_token: "number_token (int_text n)"
  using dec_props [of "\<bar>n\<bar>"] by (cases "dec \<bar>n\<bar>") (auto simp: int_text_def number_token_def list_all_iff abs_if split: if_splits)

lemma ParseInt_int_text:
  assumes "- (2 ^ 63) \<le> n" "n < 2 ^ 63"
  shows "ParseInt 64 (int_text n) = (n, True)"
proof -
  have d: "parse_digits (dec \<bar>n\<bar>) = \<bar>n\<bar>" "\<forall>c \<in> set (dec \<bar>n\<bar>). is_digit c" "dec \<bar>n\<bar> \<noteq> []" using dec_props [of "\<bar>n\<bar>"] by simp_all
  have s: "scan_sign (int_text n) = (n < 0, dec \<bar>n\<bar>)"
    using scan_sign_digits [OF d(2,3), of "[]"] by (cases "n < 0") (simp_all add: int_text_def, simp add: scan_sign_def)
  show ?thesis using d assms unfolding ParseInt_def s by (auto simp: list_all_iff Let_def)
qed

lemma lex_int_text: "- (2 ^ 63) \<le> n \<Longrightarrow> n < 2 ^ 63 \<Longrightarrow> lex_int (JNum (int_text n)) = Some n"
  by (simp add: lex_int_def int_text_token ParseInt_int_text)

lemma lex_uint_text [simp]: "lex_uint (JNum (int_text (uint w))) = Some w"
proof -
  have d: "parse_digits (dec (uint w)) = uint w" "\<forall>c \<in> set (dec (uint w)). is_digit c" "dec (uint w) \<noteq> []"
    using dec_props [of "uint w"] by simp_all
  have "int_text (uint w) = dec (uint w)" by (simp add: int_text_def not_less)
  moreover have "uint w < 2 ^ 64" using uint_lt2p [of w] by simp
  ultimately show ?thesis using d int_text_token [of "uint w"]
    by (simp add: lex_uint_def ParseUint_def list_all_iff not_le)
qed

section \<open>Floats\<close>

text \<open>The zeros at the end of a digit string count as a power of ten.\<close>

lemma zeros_value: "parse_digits (s @ replicate k (CHR ''0'')) = parse_digits s * 10 ^ k"
proof (induction k)
  case (Suc k)
  have "parse_digits (s @ replicate (Suc k) (CHR ''0'')) = parse_digits ((s @ replicate k (CHR ''0'')) @ [CHR ''0''])"
    by (simp add: replicate_append_same)
  also have "\<dots> = 10 * (parse_digits s * 10 ^ k)" unfolding parse_digits_snoc Suc by (simp add: digit_val_def)
  finally show ?case by simp
qed simp

lemma strip_zeros:
  assumes "\<forall>c \<in> set s. is_digit c" "parse_digits s \<noteq> 0"
  obtains d ds z where "rev (dropWhile (\<lambda>d. d = CHR ''0'') (rev s)) = d # ds" "length s = Suc (length ds) + z"
    "is_digit d" "\<forall>c \<in> set ds. is_digit c" "parse_digits s = parse_digits (d # ds) * 10 ^ z"
proof -
  define t where "t = rev (dropWhile (\<lambda>d. d = CHR ''0'') (rev s))"
  define z where "z = length (takeWhile (\<lambda>d. d = CHR ''0'') (rev s))"
  have "takeWhile (\<lambda>d. d = CHR ''0'') (rev s) = replicate z (CHR ''0'')"
    unfolding z_def by (rule replicate_length_same [symmetric]) (meson set_takeWhileD)
  then have "rev s = replicate z (CHR ''0'') @ rev t"
    unfolding t_def rev_rev_ident by (metis takeWhile_dropWhile_id)
  then have s: "s = t @ replicate z (CHR ''0'')" by (metis rev_append rev_replicate rev_rev_ident)
  have p: "parse_digits s = parse_digits t * 10 ^ z" unfolding s by (rule zeros_value)
  have "t \<noteq> []" using p assms(2) by (cases t) simp_all
  then obtain d ds where t: "t = d # ds" by (cases t) blast+
  have all: "\<forall>c \<in> set (d # ds). is_digit c" using assms(1) unfolding s t set_append by blast
  show thesis
  proof (rule that)
    show "rev (dropWhile (\<lambda>d. d = CHR ''0'') (rev s)) = d # ds" using t unfolding t_def .
    show "length s = Suc (length ds) + z" unfolding s t by simp
    show "is_digit d" "\<forall>c \<in> set ds. is_digit c" using all by simp_all
    show "parse_digits s = parse_digits (d # ds) * 10 ^ z" using p unfolding t .
  qed
qed

lemma scan_exp_text: "scan_exp (exp_text e) = Some e"
proof -
  have d: "parse_digits (dec \<bar>e\<bar>) = \<bar>e\<bar>" "\<forall>c \<in> set (dec \<bar>e\<bar>). is_digit c" "dec \<bar>e\<bar> \<noteq> []" using dec_props [of "\<bar>e\<bar>"] by simp_all
  define ds where "ds = (if \<bar>e\<bar> < 10 then ''0'' else []) @ dec \<bar>e\<bar>"
  have z: "is_digit (CHR ''0'')" "digit_val (CHR ''0'') = 0" by (simp_all add: is_digit_def digit_val_def)
  have ds: "\<forall>c \<in> set ds. is_digit c" "ds \<noteq> []" "parse_digits ds = \<bar>e\<bar>"
    using d z by (auto simp: ds_def parse_digits_append)
  have t: "exp_text e = (if e < 0 then CHR ''e'' # CHR ''-'' # ds else CHR ''e'' # CHR ''+'' # ds)"
    by (simp add: exp_text_def ds_def)
  have "scan_sign (CHR ''-'' # ds) = (True, ds)" "scan_sign (CHR ''+'' # ds) = (False, ds)" by (simp_all add: scan_sign_def)
  then show ?thesis using scan_digits_all [OF ds(1)] ds(2,3) by (cases "e < 0") (simp_all add: t scan_exp_def)
qed

lemma parse_exp_form:
  assumes "is_digit d" "\<forall>c \<in> set ds. is_digit c"
  shows "parse_decimal (d # (if ds = [] then [] else CHR ''.'' # ds) @ exp_text e) =
     Some (of_int (parse_digits (d # ds)) * 10 powi (e - int (length ds)))"
proof -
  obtain t where x: "exp_text e = CHR ''e'' # t" by (cases "e < 0") (auto simp: exp_text_def)
  have sign: "scan_sign (d # r) = (False, d # r)" for r using scan_sign_digits [of "[d]" r] assms(1) by simp
  have ip: "scan_digits (d # (if ds = [] then [] else CHR ''.'' # ds) @ exp_text e) =
      ([d], (if ds = [] then [] else CHR ''.'' # ds) @ exp_text e)"
    using assms(1) by (auto simp: scan_digits_def x)
  have fp: "scan_frac ((if ds = [] then [] else CHR ''.'' # ds) @ exp_text e) = (ds, exp_text e)"
    using assms(2) scan_digits_stop [OF assms(2), of "CHR ''e''" t] by (auto simp: scan_frac_def x)
  show ?thesis unfolding parse_decimal_def sign prod.case Let_def ip fp scan_exp_text by simp
qed

definition number_char :: "char \<Rightarrow> bool" where
  "number_char c \<longleftrightarrow> is_digit c \<or> c \<in> set ''.eE+-''"

lemma number_token_iff: "number_token t \<longleftrightarrow> (\<exists>c u. t = c # u \<and> (is_digit c \<or> c = CHR ''-'') \<and> list_all number_char t)"
  unfolding number_token_def number_char_def by (cases t) auto

lemma digits_chars: "\<forall>c \<in> set s. is_digit c \<Longrightarrow> list_all number_char s"
  by (simp add: list_all_iff number_char_def)

lemma exp_form_token:
  assumes "is_digit d" "\<forall>c \<in> set ds. is_digit c"
  shows "number_token (d # (if ds = [] then [] else CHR ''.'' # ds) @ exp_text e)"
proof -
  have n: "number_char (CHR ''.'')" "number_char (CHR ''e'')" "number_char (CHR ''-'')" "number_char (CHR ''+'')" "number_char (CHR ''0'')"
    by (simp_all add: number_char_def is_digit_def)
  have "list_all number_char (dec \<bar>e\<bar>)" by (rule digits_chars) (use dec_props [of "\<bar>e\<bar>"] in simp)
  then have "list_all number_char (exp_text e)" using n by (simp add: exp_text_def)
  moreover have "list_all number_char ds" by (rule digits_chars [OF assms(2)])
  moreover have "number_char d" using assms(1) by (simp add: number_char_def)
  ultimately show ?thesis using n assms(1) by (auto simp: number_token_iff)
qed

lemma shift_value: "of_int (m * 10 ^ z) / 10 powi s = (of_int m * 10 powi (int z - s) :: rat)"
  by (simp add: power_int_diff)

lemma pos_text_g_props:
  assumes "representable 53 x" "0 < x"
  shows "\<exists>v. parse_decimal (pos_text_g x) = Some v \<and> 0 < v \<and> rnd 53 v = x" (is ?parses)
    and "number_token (pos_text_g x)" (is ?token)
    and "\<exists>d t. pos_text_g x = d # t \<and> is_digit d" (is ?first)
proof -
  obtain c s where cs: "shortest 53 x 54 (- ilog 10 x) = Some (c, s)"
    using shortest_enough [OF assms] by auto
  have v: "rnd 53 (of_int c / 10 powi s) = x" "0 \<le> c" using shortest_sound [OF cs] assms(2) by simp_all
  then have c: "0 < c" using assms(2) by (cases "c = 0") auto
  have p: "0 < (of_int c / 10 powi s :: rat)" using c by simp
  define e where "e = int (length (dec c)) - 1 - s"
  note d = dec_props [of c]
  have "?parses \<and> ?token \<and> ?first"
  proof (cases "e < - 4 \<or> 6 \<le> e")
    case True
    have pd: "parse_digits (dec c) \<noteq> 0" "\<forall>c \<in> set (dec c). is_digit c" using d c by auto
    obtain d0 ds z where z: "rev (dropWhile (\<lambda>d. d = CHR ''0'') (rev (dec c))) = d0 # ds" "length (dec c) = Suc (length ds) + z"
      "is_digit d0" "\<forall>c \<in> set ds. is_digit c" "parse_digits (dec c) = parse_digits (d0 # ds) * 10 ^ z"
      using strip_zeros [OF pd(2,1)] by metis
    have t: "pos_text_g x = d0 # (if ds = [] then [] else CHR ''.'' # ds) @ exp_text e"
      unfolding pos_text_g_def cs option.case prod.case Let_def e_def [symmetric] z(1) list.case using True by (simp only: if_True)
    have "parse_digits (dec c) = c" using d c by auto
    then have cc: "c = parse_digits (d0 # ds) * 10 ^ z" using z(5) by (simp only:)
    have "parse_decimal (pos_text_g x) = Some (of_int (parse_digits (d0 # ds)) * 10 powi (e - int (length ds)))"
      unfolding t by (rule parse_exp_form [OF z(3,4)])
    moreover have "e - int (length ds) = int z - s" using z(2) by (simp add: e_def)
    moreover have "of_int (parse_digits (d0 # ds)) * 10 powi (int z - s) = (of_int c / 10 powi s :: rat)"
      unfolding shift_value [symmetric] cc [symmetric] ..
    ultimately have v': "parse_decimal (pos_text_g x) = Some (of_int c / 10 powi s)" by (simp only:)
    have "number_token (pos_text_g x)" unfolding t by (rule exp_form_token [OF z(3,4)])
    moreover have ?parses by (intro exI [of _ "of_int c / 10 powi s"] conjI) (rule v' p v(1))+
    moreover have ?first unfolding t using z(3) by blast
    ultimately show ?thesis by blast
  next
    case False
    have t: "pos_text_g x = scaled_text c s" unfolding pos_text_g_def cs using False by (simp add: e_def)
    have f: "\<exists>d r. scaled_text c s = d # r \<and> is_digit d"
      using dec_text_hd [of c "nat s"] dec_text_hd [of "c * 10 ^ nat (- s)" 0] c by (auto simp: scaled_text_def dec_text_dec)
    have chars: "\<forall>d \<in> set (dec_text c n). is_digit d \<or> d = CHR ''.''" for n
    proof -
      obtain c' s' where st: "strip0 c n = (c', s')" by fastforce
      then have "0 \<le> c'" using strip0_value [OF st] c by simp
      then show ?thesis
        using dec_props [of "c' div 10 ^ s'"] frac_digits_props [of "c' mod 10 ^ s'" s']
        by (auto simp: dec_text_def st pos_imp_zdiv_nonneg_iff)
    qed
    have "\<forall>d \<in> set (scaled_text c s). is_digit d \<or> d = CHR ''.''"
      using chars [of "nat s"] dec_props [of "c * 10 ^ nat (- s)"] c by (auto simp: scaled_text_def)
    then have "number_token (scaled_text c s)" using f by (auto simp: number_token_def list_all_iff)
    moreover have "parse_decimal (scaled_text c s) = Some (of_int c / 10 powi s)" by (rule parse_scaled_text [OF v(2)])
    ultimately show ?thesis unfolding t using v(1) p f by blast
  qed
  then show ?parses ?token ?first by blast+
qed

text \<open>The floats whose text reads back: zero and the normal range (away from its ends).\<close>

definition float_ok :: "gonum \<Rightarrow> bool" where
  "float_ok a = (case a of Fin x \<Rightarrow> x = 0 \<or> representable 53 x \<and> - 1000 \<le> ilog 2 \<bar>x\<bar> \<and> ilog 2 \<bar>x\<bar> \<le> 1000 | _ \<Rightarrow> False)"

lemma f64_round_near:
  assumes "rnd 53 v = x" "0 < v" "- 1000 \<le> ilog 2 x" "ilog 2 x \<le> 1000"
  shows "f64_round v = Fin x" "f64_round (- v) = Fin (- x)"
proof -
  have x: "0 < x" using rnd_pos [OF assms(2), of 53] assms(1) by simp
  have "\<bar>x - v\<bar> \<le> v / 2 ^ 53" using rnd_error [of 53 v] assms(1,2) by simp
  moreover have "v / 2 ^ 53 \<le> v" using assms(2) by (simp add: divide_le_eq)
  ultimately have h: "x / 2 \<le> v" by linarith
  have "2 powi ilog 2 x \<le> x" using ilog_bounds [OF x, of 2] by simp
  then have "2 powi (ilog 2 x - 1) \<le> v" using h by (simp add: power_int_diff)
  moreover have "v < 2 powi (ilog 2 v + 1)" using ilog_bounds [OF assms(2), of 2] by simp
  ultimately have l: "(2 :: rat) powi (ilog 2 x - 1) < 2 powi (ilog 2 v + 1)" by linarith
  have v: "- 1022 \<le> ilog 2 v"
  proof (rule ccontr)
    assume "\<not> - 1022 \<le> ilog 2 v"
    then have "(2 :: rat) powi (ilog 2 v + 1) \<le> 2 powi (ilog 2 x - 1)" using assms(3) by (intro power_int_increasing) simp_all
    then show False using l by simp
  qed
  have "x < 2 powi (ilog 2 x + 1)" using ilog_bounds [OF x, of 2] by simp
  moreover have "(2 :: rat) powi (ilog 2 x + 1) \<le> 2 powi 1024" using assms(4) by (intro power_int_increasing) simp_all
  moreover have "(2 :: rat) powi 1024 = 2 ^ 1024" by (simp add: power_int_def)
  ultimately have b: "\<bar>x\<bar> < 2 ^ 1024" using x by linarith
  show "f64_round v = Fin x" using f64_round_rnd [of v] v b unfolding assms(1) using assms(2) by simp
  show "f64_round (- v) = Fin (- x)" using f64_round_rnd [of "- v"] v b unfolding rnd_minus assms(1) using assms(2) by simp
qed

lemma parse_finite_text:
  assumes "representable 53 x" "0 < x" "- 1000 \<le> ilog 2 x" "ilog 2 x \<le> 1000"
  shows "parse_finite (pos_text_g x) = Some (Fin x)" "parse_finite (CHR ''-'' # pos_text_g x) = Some (Fin (- x))"
proof -
  obtain v where v: "parse_decimal (pos_text_g x) = Some v" "0 < v" "rnd 53 v = x" using pos_text_g_props(1) [OF assms(1,2)] by blast
  obtain d t where t: "pos_text_g x = d # t" "is_digit d" using pos_text_g_props(3) [OF assms(1,2)] by blast
  note f = f64_round_near [OF v(3,2) assms(3,4)]
  show "parse_finite (pos_text_g x) = Some (Fin x)" unfolding parse_finite_def v(1) option.case f by (rule gonum.case)
  have "parse_decimal (CHR ''-'' # pos_text_g x) = Some (- v)" unfolding parse_decimal_minus [OF t] v(1) by simp
  then show "parse_finite (CHR ''-'' # pos_text_g x) = Some (Fin (- x))"
    unfolding parse_finite_def by (simp only: option.case f gonum.case)
qed

lemma lex_float_text: "float_ok a \<Longrightarrow> lex_float (JNum (float_text a)) = Some a"
proof -
  assume "float_ok a"
  then obtain x where a: "a = Fin x" "x = 0 \<or> representable 53 x \<and> - 1000 \<le> ilog 2 \<bar>x\<bar> \<and> ilog 2 \<bar>x\<bar> \<le> 1000"
    by (auto simp: float_ok_def split: gonum.splits)
  consider "x = 0" | "0 < x" | "x < 0" by linarith
  then show ?thesis
  proof cases
    case 1
    have "number_token ''0''" by (simp add: number_token_def is_digit_def)
    then show ?thesis by (simp add: a(1) 1 float_text_def lex_float_def parse_finite_def parse_decimal_0 f64_round_def)
  next
    case 2
    then show ?thesis using a(2) parse_finite_text(1) [of x] pos_text_g_props(2) [of x] by (simp add: a(1) float_text_def lex_float_def)
  next
    case 3
    have "representable 53 (- x)" using a(2) 3 unfolding representable_def by (metis abs_minus_cancel less_irrefl mult_minus_left of_int_minus)
    moreover have "number_token (CHR ''-'' # t)" if "number_token t" for t using that by (cases t) (auto simp: number_token_def)
    ultimately show ?thesis using 3 a(2) parse_finite_text(2) [of "- x"] pos_text_g_props(2) [of "- x"]
      by (simp add: a(1) float_text_def lex_float_def)
  qed
qed

end
