(* ===== verification/SwapHandler.thy ===== *)
theory SwapHandler
  imports Dex TransferAmounts
begin

text \<open>
  internal/solana/swapHandler.go: dispatch to the DEX handlers, the scan over the transfers of a
  transaction, the classification of each raw swap, and the balance sheet that drops a wallet's
  swaps of a token when they cancel out. Calls of the token and pair finders' AddToQueue are
  recorded in order.
\<close>

section \<open>processTransfer\<close>

type_synonym handler = "int \<Rightarrow> sol_transfer list \<Rightarrow> string list \<Rightarrow> (sol_swap \<times> int) go"

definition handlers :: "ext \<Rightarrow> string \<rightharpoonup> handler" where
  "handlers E = map_of [
     (RAYDIUM_LIQ_POOL_V4, HandleRaydiumSwaps),
     (RAYDIUM_CONCENTRATED_LIQ, HandleRaydiumConcentratedSwaps),
     (RAYDIUM_CPMM, HandleRaydiumCPMMSwaps),
     (RAYDIUM_LAUNCHPAD, HandleRaydiumLaunchpadSwaps),
     (ORCA_WHIRL_PROGRAM_ID, HandleOrcaSwaps),
     (METEORA_DLMM_PROGRAM, HandleMeteoraSwaps),
     (PUMPFUN, HandlePumpFunSwaps E),
     (PUMPFUN_AMM, HandlePumpFunAmmSwaps)]"

definition processTransfer :: "ext \<Rightarrow> int \<Rightarrow> sol_transfer list \<Rightarrow> string list \<Rightarrow> (sol_swap \<times> int) go" where
  "processTransfer E index transfers accountKeys =
     go_bind (idx transfers index) (\<lambda>transfer.
       case handlers E (tr_ParentProgramId transfer) of
         None \<Rightarrow> Inr (zero_swap, 0)
       | Some handler \<Rightarrow>
           go_bind (validateDexInstruction (tr_ParentProgramId transfer) (tr_IxAccounts transfer) accountKeys) (\<lambda>valid.
             if valid then handler index transfers accountKeys else Inr (zero_swap, 0)))"

section \<open>The scan\<close>

text \<open>A plain token transfer counts as a receipt of the receiver and a transfer of the sender.\<close>

definition transfer_swaps :: "sol_transfer \<Rightarrow> sol_swap list" where
  "transfer_swaps t =
     [zero_swap\<lparr>sw_TokenIn := tr_Mint t, sw_Wallet := tr_ToUserAccount t, sw_AmountIn := tr_Amount t, sw_AmountOut := ''0''\<rparr>,
      zero_swap\<lparr>sw_TokenOut := tr_Mint t, sw_Wallet := tr_FromUserAccount t, sw_AmountIn := ''0'', sw_AmountOut := tr_Amount t\<rparr>]"

text \<open>
  The loop body at index \<open>i\<close>: the swaps it appends and how many further transfers it skips; a
  \<open>continue\<close> of the source skips none.
\<close>

definition swap_step :: "ext \<Rightarrow> sol_transfer list \<Rightarrow> string list \<Rightarrow> nat \<Rightarrow> (sol_swap list \<times> nat) go" where
  "swap_step E transfers accountKeys i =
     go_bind (idx transfers (int i)) (\<lambda>transfer.
       let parent = tr_ParentProgramId transfer in
       if map_get False IgnorePrograms parent then Inr ([], 0)
       else
         go_bind (processTransfer E (int i) transfers accountKeys) (\<lambda>(swap, inc).
           let source = map_get [] Programs parent;
               swap = (if source \<noteq> [] then swap\<lparr>sw_Source := source\<rparr> else swap)
           in Inr (
             if sw_Wallet swap \<noteq> [] \<and> sw_Pair swap \<noteq> [] \<and> validateSupportedDex parent then
               (if sw_TokenIn swap = sw_TokenOut swap then ([], 0) else ([swap], nat inc))
             else if tr_Type transfer \<noteq> ''native'' \<and> (validateSupportedDex parent \<or> parent = []) then
               (if QuoteTokens (tr_Mint transfer) \<noteq> None then ([], 0) else (transfer_swaps transfer, nat inc))
             else ([], nat inc))))"

function raw_swaps :: "ext \<Rightarrow> sol_transfer list \<Rightarrow> string list \<Rightarrow> nat \<Rightarrow> sol_swap list go" where
  "raw_swaps E transfers accountKeys i =
     (if i < length transfers then
        go_bind (swap_step E transfers accountKeys i) (\<lambda>(new, inc).
          go_bind (raw_swaps E transfers accountKeys (i + inc + 1)) (\<lambda>rest. Inr (new @ rest)))
      else Inr [])"
  by pat_completeness auto
termination
  by (relation "measure (\<lambda>(E, transfers, accountKeys, i). length transfers - i)") auto

declare raw_swaps.simps [simp del]

section \<open>Classification\<close>

text \<open>The token and action of a raw swap with the two amounts; \<open>None\<close> is a \<open>continue\<close>.\<close>

definition classify :: "sol_swap \<Rightarrow> gonum \<Rightarrow> gonum \<Rightarrow> (string \<times> string) option" where
  "classify swap amountOutF amountInF =
     (if QuoteTokens (sw_TokenOut swap) \<noteq> None then Some (sw_TokenIn swap, ''BUY'')
      else if QuoteTokens (sw_TokenIn swap) \<noteq> None then Some (sw_TokenOut swap, ''SELL'')
      else
        (let r = (if f64_eq amountOutF (Fin 0)
                  then (if QuoteTokens (sw_TokenIn swap) \<noteq> None then None else Some (sw_TokenIn swap, ''RECEIVE''))
                  else Some ([], ''UNKNOWN''))
         in case r of
              None \<Rightarrow> None
            | Some ta \<Rightarrow>
                if f64_eq amountInF (Fin 0)
                then (if QuoteTokens (sw_TokenOut swap) \<noteq> None then None else Some (sw_TokenOut swap, ''TRANSFER''))
                else Some ta))"

record swap_effects =
  ef_tokens :: "string list"
  ef_pairs :: "(string \<times> string) list"

record build_state =
  bs_logs :: "swap_log list"
  bs_sheet :: "string \<rightharpoonup> (string \<rightharpoonup> gonum)"
  bs_effects :: swap_effects

definition sheet_get :: "(string \<rightharpoonup> (string \<rightharpoonup> gonum)) \<Rightarrow> string \<Rightarrow> string \<Rightarrow> gonum" where
  "sheet_get sheet wallet token = map_get (Fin 0) (map_get Map.empty sheet wallet) token"

definition sheet_add :: "(string \<rightharpoonup> (string \<rightharpoonup> gonum)) \<Rightarrow> string \<Rightarrow> string \<Rightarrow> gonum \<Rightarrow> (string \<rightharpoonup> (string \<rightharpoonup> gonum))" where
  "sheet_add sheet wallet token d =
     (case sheet wallet of
        None \<Rightarrow> sheet(wallet \<mapsto> [token \<mapsto> d])
      | Some m \<Rightarrow> sheet(wallet \<mapsto> m(token \<mapsto> f64_add (map_get (Fin 0) m token) d)))"

definition queue_effects :: "sol_swap \<Rightarrow> string \<Rightarrow> swap_effects \<Rightarrow> swap_effects" where
  "queue_effects swap token ef = \<lparr>ef_tokens = ef_tokens ef @ [token],
     ef_pairs = (if sw_Pair swap \<noteq> [] then ef_pairs ef @ [(sw_Pair swap, token)] else ef_pairs ef)\<rparr>"

definition build_step :: "solana_tx \<Rightarrow> int \<Rightarrow> 64 word \<Rightarrow> build_state \<Rightarrow> sol_swap \<Rightarrow> build_state go" where
  "build_step tx timestamp block st swap =
     (if sw_Wallet swap = [] \<or> (sw_TokenIn swap = [] \<and> sw_TokenOut swap = []) then Inr st
      else case bf_set_string (sw_AmountOut swap) of None \<Rightarrow> Inr st | Some amountOut \<Rightarrow>
           (case bf_set_string (sw_AmountIn swap) of None \<Rightarrow> Inr st | Some amountIn \<Rightarrow>
             if map_get False IgnoreTokens (sw_TokenOut swap) \<or> map_get False IgnoreTokens (sw_TokenIn swap) then Inr st
             else
               let amountOutF = bf_float64 amountOut; amountInF = bf_float64 amountIn in
               (case classify swap amountOutF amountInF of None \<Rightarrow> Inr st | Some (token, action) \<Rightarrow>
                 go_bind (idx (td_Signatures (tx_Transaction tx)) 0) (\<lambda>signature.
                   Inr \<lparr>bs_logs = bs_logs st @ [\<lparr>sl_ID = signature, sl_Wallet = sw_Wallet swap, sl_Source = sw_Source swap,
                          sl_BlockNumber = block, sl_Timestamp = time_unix timestamp, sl_AmountOut = amountOutF,
                          sl_AmountIn = amountInF, sl_Action = action, sl_Pair = sw_Pair swap, sl_Token = token,
                          sl_Processed = False, sl_TokenSymbol = None, sl_QuoteTokenSymbol = None\<rparr>],
                        bs_sheet = sheet_add (bs_sheet st) (sw_Wallet swap) token (f64_sub amountInF amountOutF),
                        bs_effects = queue_effects swap token (bs_effects st)\<rparr>))))"

section \<open>HandleSwaps\<close>

definition keep_log :: "(string \<rightharpoonup> (string \<rightharpoonup> gonum)) \<Rightarrow> swap_log \<Rightarrow> bool" where
  "keep_log sheet l \<longleftrightarrow> \<not> f64_eq (sheet_get sheet (sl_Wallet l) (sl_Token l)) (Fin 0) \<and> IgnoreToUsers (sl_Wallet l) = None"

definition no_effects :: swap_effects where
  "no_effects = \<lparr>ef_tokens = [], ef_pairs = []\<rparr>"

definition HandleSwaps ::
  "ext \<Rightarrow> sol_transfer list \<Rightarrow> solana_tx \<Rightarrow> int \<Rightarrow> 64 word \<Rightarrow> (swap_log list \<times> swap_effects) go" where
  "HandleSwaps E transfers tx timestamp block =
     (if \<not> validateTX tx then Inr ([], no_effects)
      else
        go_bind (raw_swaps E transfers (getAllAccountKeys tx) 0) (\<lambda>swaps.
        go_bind (go_fold (build_step tx timestamp block) \<lparr>bs_logs = [], bs_sheet = Map.empty, bs_effects = no_effects\<rparr> swaps) (\<lambda>st.
          Inr (filter (keep_log (bs_sheet st)) (bs_logs st), bs_effects st))))"

section \<open>Totality\<close>

text \<open>What ParseTransaction guarantees of its transfers.\<close>

definition transfers_ok :: "string list \<Rightarrow> sol_transfer list \<Rightarrow> bool" where
  "transfers_ok keys transfers \<longleftrightarrow> list_all (\<lambda>t. parent_ok keys (tr_ParentProgramId t, tr_IxAccounts t)) transfers"

text \<open>Every handler of the table meets the contract of its program.\<close>

lemma handlers_contract: "handlers E p = Some h \<Longrightarrow> dex_handler h p"
  unfolding handlers_def
  by (auto split: if_splits intro: raydium.dex_handler_axioms concentrated.dex_handler_axioms cpmm.dex_handler_axioms
      launchpad.dex_handler_axioms orca.dex_handler_axioms meteora.dex_handler_axioms pumpfun.dex_handler_axioms
      pumpfun_amm.dex_handler_axioms)

lemma handlers_nonempty: "handlers E [] = None"
  using program_id_nonempty by (simp add: handlers_def)

lemma processTransfer_ok:
  assumes "transfers_ok keys transfers" "i < length transfers"
  shows "\<exists>s inc. processTransfer E (int i) transfers keys = Inr (s, inc) \<and> 0 \<le> inc \<and> i + nat inc < length transfers"
proof -
  let ?t = "transfers ! i"
  have v: "valid_ix transfers (int i)" using assms(2) by (simp add: valid_ix_def)
  have p: "parent_ok keys (tr_ParentProgramId ?t, tr_IxAccounts ?t)"
    using assms by (simp add: transfers_ok_def list_all_length)
  show ?thesis
  proof (cases "handlers E (tr_ParentProgramId ?t)")
    case None
    then show ?thesis using assms(2) by (simp add: processTransfer_def)
  next
    case (Some h)
    then have a: "accounts_ok keys (tr_IxAccounts ?t)"
        "validateDexInstruction (tr_ParentProgramId ?t) (tr_IxAccounts ?t) keys = Inr True"
      using p handlers_nonempty [of E] by (auto simp: parent_ok_def)
    show ?thesis using dex_handler.step [OF handlers_contract [OF Some] v] a Some assms(2)
      by (fastforce simp: processTransfer_def valid_ix_def)
  qed
qed

lemma swap_step_ok:
  assumes "transfers_ok keys transfers" "i < length transfers"
  shows "\<exists>new inc. swap_step E transfers keys i = Inr (new, inc) \<and> i + inc < length transfers"
proof -
  obtain s inc where p: "processTransfer E (int i) transfers keys = Inr (s, inc)" "0 \<le> inc" "i + nat inc < length transfers"
    using processTransfer_ok [OF assms, of E] by blast
  then show ?thesis using assms(2) by (auto simp: swap_step_def Let_def)
qed

lemma raw_swaps_ok: "transfers_ok keys transfers \<Longrightarrow> ok (raw_swaps E transfers keys i)"
proof (induction E transfers keys i rule: raw_swaps.induct)
  case (1 E transfers keys i)
  show ?case
  proof (cases "i < length transfers")
    case True
    then obtain new inc where s: "swap_step E transfers keys i = Inr (new, inc)" using swap_step_ok [OF 1(2)] by blast
    have "ok (raw_swaps E transfers keys (i + inc + 1))" using "1.IH" [OF True s refl] 1(2) by blast
    then show ?thesis using True s by (subst raw_swaps.simps) (auto simp: ok_conv)
  qed (subst raw_swaps.simps, simp)
qed

lemma build_step_ok: "td_Signatures (tx_Transaction tx) \<noteq> [] \<Longrightarrow> ok (build_step tx ts b st swap)"
  by (auto simp: build_step_def Let_def idx_def split: option.splits)

lemma HandleSwaps_ok:
  assumes "transfers_ok (getAllAccountKeys tx) transfers" "td_Signatures (tx_Transaction tx) \<noteq> []"
  shows "ok (HandleSwaps E transfers tx ts b)"
proof -
  obtain swaps where "raw_swaps E transfers (getAllAccountKeys tx) 0 = Inr swaps"
    using raw_swaps_ok [OF assms(1)] unfolding ok_conv by blast
  moreover have "ok (go_fold (build_step tx ts b) st swaps)" for st
    by (rule go_fold_ok_all) (rule build_step_ok [OF assms(2)])
  ultimately show ?thesis by (auto simp: HandleSwaps_def intro!: ok_bindI)
qed

text \<open>The transfers of a well-formed transaction qualify.\<close>

lemma parse_transfers_ok:
  assumes wf: "wf_tx E tx" and p: "ParseTransaction E tx = Inr r"
  shows "transfers_ok (getAllAccountKeys tx) (pr_transfers r)"
  unfolding transfers_ok_def list_all_iff
proof
  fix t assume "t \<in> set (pr_transfers r)"
  then obtain bdiffs native x where x: "x \<in> set (exec_list tx)" "transfer_from E tx bdiffs native x t"
    using parse_from [OF wf p] by blast
  obtain pos gi ix where xe: "x = (pos, gi, ix)" by (rule prod_cases3)
  obtain a b where "loc_indices pos = (a, b)" by fastforce
  then have "(tr_ParentProgramId t, tr_IxAccounts t) =
      parent_of (getAllAccountKeys tx) (find (is_parent (getAllAccountKeys tx)) (loc_candidates tx x))"
    using x(2) xe by (simp add: transfer_from_def Let_def)
  moreover have "list_all (wf_ix E (getAllAccountKeys tx)) (loc_candidates tx x)"
    using exec_list_loc [OF x(1)] xe wf
    by (auto simp: loc_ok_def loc_candidates_def intro!: candidates_wf split: ix_pos.splits)
  ultimately show "parent_ok (getAllAccountKeys tx) (tr_ParentProgramId t, tr_IxAccounts t)"
    using parent_of_ok by metis
qed

section \<open>Two-leg swaps\<close>

text \<open>
  The abstract table of the two-leg programs: exchange name, account of the pair, account of the
  wallet (none when it is the sender of the first leg), and whether the legs are ordered by the
  wallet's authority.
\<close>

definition dex_layout :: "string \<Rightarrow> int list \<Rightarrow> (string \<times> nat \<times> nat option \<times> bool) option" where
  "dex_layout p accounts =
     (if p = RAYDIUM_LIQ_POOL_V4 then Some (''RAYDIUM'', 1, Some (if length accounts = 18 then 17 else 16), True)
      else if p = RAYDIUM_CONCENTRATED_LIQ then Some (''RAYDIUM_CONCENTRATED_LIQ'', 2, Some 0, True)
      else if p = RAYDIUM_CPMM then Some (''RAYDIUM_CPMM'', 3, Some 0, True)
      else if p = RAYDIUM_LAUNCHPAD then Some (''RAYDIUM_LAUNCHPAD'', 4, Some 0, True)
      else if p = PUMPFUN_AMM then Some (''PUMPFUN_AMM'', 0, Some 1, True)
      else if p = METEORA_DLMM_PROGRAM then Some (''METEORA'', 0, Some 10, False)
      else if p = ORCA_WHIRL_PROGRAM_ID then Some (''ORCA'', if length accounts = 15 then 4 else 2, None, False)
      else None)"

definition two_leg_swap :: "string list \<Rightarrow> int list \<Rightarrow> string \<times> nat \<times> nat option \<times> bool \<Rightarrow> sol_transfer \<Rightarrow> sol_transfer \<Rightarrow> sol_swap" where
  "two_leg_swap keys accounts = (\<lambda>(exchange, pair, wallet, ordered) cur nxt.
     let w = (case wallet of None \<Rightarrow> tr_FromUserAccount cur | Some n \<Rightarrow> acct keys accounts n)
     in if ordered \<and> tr_Authority cur \<noteq> w then swap_of exchange (acct keys accounts pair) w nxt cur
        else swap_of exchange (acct keys accounts pair) w cur nxt)"

text \<open>
  C16: On two neighbouring transfers of the same two-leg program, whose instruction passed the shape
  check and names existing accounts, processTransfer returns the swap of the table and consumes both
  transfers: the pair is the account at the program's position for it; the wallet is the account at the
  program's position for it, except for Orca, where it is the sender of the first transfer; the first
  transfer gives TokenOut and the second TokenIn, except that for the four Raydium programs and the AMM of
  PumpFun it is the other way round when the first one is not authorised by the wallet (for Meteora and Orca
  never).
\<close>

theorem processTransfer_two_leg:
  assumes "Suc i < length transfers" "t = transfers ! i" "u = transfers ! Suc i"
    and "dex_layout (tr_ParentProgramId t) (tr_IxAccounts t) = Some layout"
    and "tr_ParentProgramId u = tr_ParentProgramId t"
    and "accounts_ok keys (tr_IxAccounts t)"
    and "validateDexInstruction (tr_ParentProgramId t) (tr_IxAccounts t) keys = Inr True"
  shows "processTransfer E (int i) transfers keys = Inr (two_leg_swap keys (tr_IxAccounts t) layout t u, 1)"
proof -
  have legs: "two_legs n body (int i) transfers keys = body t u"
    if "0 < n" "n \<le> length (tr_IxAccounts t)" for n body
  proof -
    have "idx transfers (int i) = Inr t" "idx transfers (int i + 1) = Inr u"
      using assms(1-3) idx_of_nat [of i transfers] idx_of_nat [of "Suc i" transfers] by (simp_all add: add.commute)
    then show ?thesis using that assms(1,5) not_short [OF assms(6) that] by (simp add: two_legs_def)
  qed
  note min = validateDexInstruction_min [OF assms(7)]
  note acc = acc_key_ok [OF assms(6)]
  have pos: "0 < length (tr_IxAccounts t)"
    using validateDexInstruction_nonempty [OF assms(7)] by simp
  show ?thesis
    using assms(1,4,7) min legs acc [OF pos, simplified] acc [of 1] acc [of 2] acc [of 3] acc [of 4] acc [of 10] acc [of 16] acc [of 17]
    unfolding processTransfer_def dex_layout_def assms(2) [symmetric]
    by (auto simp: handlers_def dex_min_accounts_def program_neq assms(2) [symmetric]
        HandleRaydiumSwaps_def HandleRaydiumConcentratedSwaps_def HandleRaydiumCPMMSwaps_def HandleRaydiumLaunchpadSwaps_def
        HandlePumpFunAmmSwaps_def HandleMeteoraSwaps_def HandleOrcaSwaps_def by_authority_def two_leg_swap_def
        split: if_splits)
qed

section \<open>What HandleSwaps returns\<close>

text \<open>The log of one raw swap, if it gets one.\<close>

definition log_of :: "string \<Rightarrow> int \<Rightarrow> 64 word \<Rightarrow> sol_swap \<Rightarrow> swap_log option" where
  "log_of signature timestamp block s =
     (if sw_Wallet s = [] \<or> (sw_TokenIn s = [] \<and> sw_TokenOut s = []) \<or>
         map_get False IgnoreTokens (sw_TokenOut s) \<or> map_get False IgnoreTokens (sw_TokenIn s) then None
      else case (bf_set_string (sw_AmountOut s), bf_set_string (sw_AmountIn s)) of
        (Some out, Some inn) \<Rightarrow>
          map_option (\<lambda>(token, action). \<lparr>sl_ID = signature, sl_Wallet = sw_Wallet s, sl_Source = sw_Source s,
              sl_BlockNumber = block, sl_Timestamp = time_unix timestamp, sl_AmountOut = bf_float64 out,
              sl_AmountIn = bf_float64 inn, sl_Action = action, sl_Pair = sw_Pair s, sl_Token = token,
              sl_Processed = False, sl_TokenSymbol = None, sl_QuoteTokenSymbol = None\<rparr>)
            (classify s (bf_float64 out) (bf_float64 inn))
      | _ \<Rightarrow> None)"

definition built_logs :: "string \<Rightarrow> int \<Rightarrow> 64 word \<Rightarrow> sol_swap list \<Rightarrow> swap_log list" where
  "built_logs signature timestamp block swaps = concat (map (\<lambda>s. case log_of signature timestamp block s of None \<Rightarrow> [] | Some l \<Rightarrow> [l]) swaps)"

text \<open>What a wallet gains of a token over the logs of the transaction, summed in float64 in order.\<close>

definition wallet_net :: "swap_log list \<Rightarrow> string \<Rightarrow> string \<Rightarrow> gonum" where
  "wallet_net logs w t = foldl f64_add (Fin 0)
     (map (\<lambda>l. f64_sub (sl_AmountIn l) (sl_AmountOut l)) (filter (\<lambda>l. sl_Wallet l = w \<and> sl_Token l = t) logs))"

lemma wallet_net_snoc: "wallet_net (logs @ [l]) w t =
    (if sl_Wallet l = w \<and> sl_Token l = t then f64_add (wallet_net logs w t) (f64_sub (sl_AmountIn l) (sl_AmountOut l))
     else wallet_net logs w t)"
  by (simp add: wallet_net_def)

lemma sheet_add_get:
  "sheet_get (sheet_add sheet w t (f64_sub a b)) w' t' =
     (if w' = w \<and> t' = t then f64_add (sheet_get sheet w t) (f64_sub a b) else sheet_get sheet w' t')"
  using f64_add_0 [of "add_exact a (gneg b)"]
  by (auto simp: sheet_get_def sheet_add_def map_get_def f64_sub_def split: option.splits)

definition sheet_inv :: "build_state \<Rightarrow> bool" where
  "sheet_inv st \<longleftrightarrow> (\<forall>w t. sheet_get (bs_sheet st) w t = wallet_net (bs_logs st) w t)"

lemma build_step_log:
  assumes "td_Signatures (tx_Transaction tx) = signature # rest"
  shows "\<exists>ef. build_step tx ts b st s = Inr (case log_of signature ts b s of
       None \<Rightarrow> st
     | Some l \<Rightarrow> \<lparr>bs_logs = bs_logs st @ [l],
         bs_sheet = sheet_add (bs_sheet st) (sl_Wallet l) (sl_Token l) (f64_sub (sl_AmountIn l) (sl_AmountOut l)),
         bs_effects = ef\<rparr>)"
  using assms by (auto simp: build_step_def log_of_def idx_def Let_def split: option.splits)

lemma build_fold:
  assumes sig: "td_Signatures (tx_Transaction tx) = signature # rest" and inv: "sheet_inv st"
  shows "\<exists>st'. go_fold (build_step tx ts b) st swaps = Inr st' \<and> sheet_inv st' \<and>
     bs_logs st' = bs_logs st @ built_logs signature ts b swaps"
  using inv
proof (induction swaps arbitrary: st)
  case (Cons s swaps)
  obtain ef where e: "build_step tx ts b st s = Inr (case log_of signature ts b s of
       None \<Rightarrow> st
     | Some l \<Rightarrow> \<lparr>bs_logs = bs_logs st @ [l],
         bs_sheet = sheet_add (bs_sheet st) (sl_Wallet l) (sl_Token l) (f64_sub (sl_AmountIn l) (sl_AmountOut l)),
         bs_effects = ef\<rparr>)" using build_step_log [OF sig] by blast
  show ?case
  proof (cases "log_of signature ts b s")
    case None
    then show ?thesis using e Cons by (simp add: built_logs_def)
  next
    case (Some l)
    let ?st = "\<lparr>bs_logs = bs_logs st @ [l],
         bs_sheet = sheet_add (bs_sheet st) (sl_Wallet l) (sl_Token l) (f64_sub (sl_AmountIn l) (sl_AmountOut l)),
         bs_effects = ef\<rparr>"
    have "sheet_inv ?st" using Cons.prems by (auto simp: sheet_inv_def wallet_net_snoc sheet_add_get)
    then obtain st' where "go_fold (build_step tx ts b) ?st swaps = Inr st' \<and> sheet_inv st' \<and>
        bs_logs st' = bs_logs ?st @ built_logs signature ts b swaps" using Cons.IH by blast
    then show ?thesis using e Some by (auto simp: built_logs_def)
  qed
qed (simp add: built_logs_def)

lemma HandleSwaps_built:
  assumes "validateTX tx" "td_Signatures (tx_Transaction tx) = signature # rest"
    and "raw_swaps E transfers (getAllAccountKeys tx) 0 = Inr swaps"
  shows "\<exists>ef. HandleSwaps E transfers tx ts b = Inr (
     filter (\<lambda>l. \<not> f64_eq (wallet_net (built_logs signature ts b swaps) (sl_Wallet l) (sl_Token l)) (Fin 0) \<and>
                 IgnoreToUsers (sl_Wallet l) = None) (built_logs signature ts b swaps), ef)"
proof -
  have "sheet_inv \<lparr>bs_logs = [], bs_sheet = Map.empty, bs_effects = no_effects\<rparr>"
    by (simp add: sheet_inv_def sheet_get_def wallet_net_def)
  then obtain st' where "go_fold (build_step tx ts b) \<lparr>bs_logs = [], bs_sheet = Map.empty, bs_effects = no_effects\<rparr> swaps = Inr st'"
      "sheet_inv st'" "bs_logs st' = built_logs signature ts b swaps"
    using build_fold [OF assms(2), of _ ts b swaps] by fastforce
  then show ?thesis using assms by (simp add: HandleSwaps_def keep_log_def [abs_def] sheet_inv_def)
qed

text \<open>What the action and token of a log say about the raw swap behind it.\<close>

definition action_ok :: "sol_swap \<Rightarrow> swap_log \<Rightarrow> bool" where
  "action_ok s l \<longleftrightarrow> sl_Wallet l = sw_Wallet s \<and> sw_Wallet s \<noteq> [] \<and> sl_Pair l = sw_Pair s \<and>
     (if sl_Action l = ''BUY'' then sl_Token l = sw_TokenIn s \<and> QuoteTokens (sw_TokenOut s) \<noteq> None
      else if sl_Action l = ''SELL'' then sl_Token l = sw_TokenOut s \<and> QuoteTokens (sw_TokenIn s) \<noteq> None
      else QuoteTokens (sw_TokenIn s) = None \<and> QuoteTokens (sw_TokenOut s) = None \<and>
        (if sl_Action l = ''TRANSFER'' then sl_Token l = sw_TokenOut s \<and> sl_AmountIn l = Fin 0
         else if sl_Action l = ''RECEIVE'' then sl_Token l = sw_TokenIn s \<and> sl_AmountOut l = Fin 0
         else sl_Action l = ''UNKNOWN'' \<and> sl_Token l = []))"

lemma classify_cases:
  assumes "classify s out inn = Some (token, action)"
  shows "action = ''BUY'' \<and> token = sw_TokenIn s \<and> QuoteTokens (sw_TokenOut s) \<noteq> None \<or>
     action = ''SELL'' \<and> token = sw_TokenOut s \<and> QuoteTokens (sw_TokenIn s) \<noteq> None \<or>
     QuoteTokens (sw_TokenIn s) = None \<and> QuoteTokens (sw_TokenOut s) = None \<and>
       (action = ''TRANSFER'' \<and> token = sw_TokenOut s \<and> inn = Fin 0 \<or>
        action = ''RECEIVE'' \<and> token = sw_TokenIn s \<and> out = Fin 0 \<or>
        action = ''UNKNOWN'' \<and> token = [])"
proof (cases "QuoteTokens (sw_TokenOut s) = None \<and> QuoteTokens (sw_TokenIn s) = None")
  case True
  then have "Some (token, action) = (if f64_eq inn (Fin 0) then Some (sw_TokenOut s, ''TRANSFER'')
      else if f64_eq out (Fin 0) then Some (sw_TokenIn s, ''RECEIVE'') else Some ([], ''UNKNOWN''))"
    using assms by (auto simp: classify_def Let_def)
  then show ?thesis using True by (auto simp: f64_eq_def split: if_splits)
next
  case False
  then show ?thesis using assms unfolding classify_def by (cases "QuoteTokens (sw_TokenOut s) = None") auto
qed

lemma log_of_fields:
  assumes "log_of signature ts b s = Some l"
  shows "classify s (sl_AmountOut l) (sl_AmountIn l) = Some (sl_Token l, sl_Action l)"
    and "sl_Wallet l = sw_Wallet s" "sw_Wallet s \<noteq> []" "sl_Pair l = sw_Pair s"
    and "sl_ID l = signature" "sl_BlockNumber l = b" "sl_Timestamp l = time_unix ts" "\<not> sl_Processed l"
  using assms by (auto simp: log_of_def split: if_splits option.splits)

lemma log_of_action:
  assumes "log_of signature ts b s = Some l"
  shows "action_ok s l"
  using classify_cases [OF log_of_fields(1) [OF assms]] log_of_fields(2-4) [OF assms] unfolding action_ok_def
  by (elim disjE conjE) simp_all

section \<open>Properties\<close>

text \<open>On a well-formed, signed transaction the parser followed by HandleSwaps returns: no handler panics.\<close>

theorem parse_and_HandleSwaps_total:
  assumes "wf_tx E tx" "td_Signatures (tx_Transaction tx) \<noteq> []"
  shows "ok (go_bind (ParseTransaction E tx) (\<lambda>r. HandleSwaps E (pr_transfers r) tx timestamp block))"
proof -
  obtain r where r: "ParseTransaction E tx = Inr r" using parse_results [OF assms(1)] by blast
  then show ?thesis using HandleSwaps_ok [OF parse_transfers_ok [OF assms(1) r] assms(2)] by simp
qed

text \<open>
  C2: HandleSwaps refines its specification: the logs of the raw swaps, less those of a wallet and
  token whose float64 net over the whole transaction is zero, less the ignored wallets. The
  balance sheet of nested maps holds exactly that net.
\<close>

theorem HandleSwaps_refines:
  assumes "validateTX tx" "td_Signatures (tx_Transaction tx) = signature # rest"
    and "raw_swaps E transfers (getAllAccountKeys tx) 0 = Inr swaps"
    and "HandleSwaps E transfers tx timestamp block = Inr (logs, ef)"
  shows "logs = filter (\<lambda>l. \<not> f64_eq (wallet_net (built_logs signature timestamp block swaps) (sl_Wallet l) (sl_Token l)) (Fin 0) \<and>
                 IgnoreToUsers (sl_Wallet l) = None) (built_logs signature timestamp block swaps)"
  using HandleSwaps_built [OF assms(1-3), of timestamp block] assms(4) by auto

text \<open>
  Every log HandleSwaps returns comes from a raw swap of the transaction: same wallet and pair,
  its first signature, block and time, a BUY or SELL exactly when a quote token goes out or comes
  in, a TRANSFER or RECEIVE only when the other amount is zero; and its wallet is not ignored.
\<close>

theorem HandleSwaps_logs:
  assumes "validateTX tx" "td_Signatures (tx_Transaction tx) = signature # rest"
    and "raw_swaps E transfers (getAllAccountKeys tx) 0 = Inr swaps"
    and "HandleSwaps E transfers tx timestamp block = Inr (logs, ef)" "l \<in> set logs"
  shows "(\<exists>s \<in> set swaps. action_ok s l) \<and> sl_ID l = signature \<and> sl_BlockNumber l = block \<and>
     sl_Timestamp l = time_unix timestamp \<and> \<not> sl_Processed l \<and> IgnoreToUsers (sl_Wallet l) = None"
proof -
  have l: "l \<in> set (built_logs signature timestamp block swaps)" "IgnoreToUsers (sl_Wallet l) = None"
    using HandleSwaps_built [OF assms(1-3), of timestamp block] assms(4,5) by auto
  obtain s where s: "s \<in> set swaps" "log_of signature timestamp block s = Some l"
    using l(1) by (auto simp: built_logs_def split: option.splits)
  show ?thesis using s(1) log_of_action [OF s(2)] log_of_fields(5-8) [OF s(2)] l(2) by blast
qed

text \<open>
  A wallet's only log of a token is dropped when its two amounts are numerically equal, even
  when one is an amount of the token and the other of the quote token: a purchase at a price of
  exactly 1 leaves no trace.
\<close>

theorem HandleSwaps_price_one_dropped:
  assumes "validateTX tx" "td_Signatures (tx_Transaction tx) = signature # rest"
    and "raw_swaps E transfers (getAllAccountKeys tx) 0 = Inr swaps"
    and "HandleSwaps E transfers tx timestamp block = Inr (logs, ef)"
    and "filter (\<lambda>l. sl_Wallet l = w \<and> sl_Token l = t) (built_logs signature timestamp block swaps) = [l]"
    and "sl_AmountIn l = Fin x" "sl_AmountOut l = Fin x"
  shows "\<forall>l' \<in> set logs. \<not> (sl_Wallet l' = w \<and> sl_Token l' = t)"
proof -
  have "wallet_net (built_logs signature timestamp block swaps) w t = Fin 0"
    using assms(5-7) f64_add_0 [of "Fin 0"] by (simp add: wallet_net_def f64_sub_def f64_def f64_round_def)
  then show ?thesis using HandleSwaps_built [OF assms(1-3), of timestamp block] assms(4) by (auto simp: f64_eq_def)
qed

section \<open>Witnesses\<close>

definition sample_swap :: "string \<Rightarrow> sol_swap" where
  "sample_swap amountIn = \<lparr>sw_Pair = ''pool'', sw_Exchange = ''RAYDIUM_CPMM'', sw_TokenOut = WSOL, sw_TokenIn = ''mint'',
     sw_AmountOut = ''0.2'', sw_AmountIn = amountIn, sw_Wallet = ''wallet'', sw_Source = ''RAYDIUM_CPMM''\<rparr>"

definition sample_log :: swap_log where
  "sample_log = \<lparr>sl_ID = ''sig'', sl_Wallet = ''wallet'', sl_Source = ''RAYDIUM_CPMM'', sl_BlockNumber = 7,
     sl_Timestamp = 100000000000, sl_AmountOut = Fin (3602879701896397 / 18014398509481984),
     sl_AmountIn = Fin (5404319552844595 / 9007199254740992), sl_Action = ''BUY'', sl_Pair = ''pool'', sl_Token = ''mint'',
     sl_Processed = False, sl_TokenSymbol = None, sl_QuoteTokenSymbol = None\<rparr>"

definition even_transfers :: "sol_transfer list" where
  "even_transfers = sample_transfers[1 := (sample_transfers ! 1)\<lparr>tr_Amount := ''0.2''\<rparr>]"

lemma sample_valid: "validateTX sample_tx" "td_Signatures (tx_Transaction sample_tx) = [''sig'']"
  by code_simp+

lemma sample_raw: "raw_swaps sample_ext sample_transfers (getAllAccountKeys sample_tx) 0 = Inr [sample_swap ''0.6'']"
  by code_simp

lemma even_raw: "raw_swaps sample_ext even_transfers (getAllAccountKeys sample_tx) 0 = Inr [sample_swap ''0.2'']"
  by code_simp

lemma sample_handled: "HandleSwaps sample_ext sample_transfers sample_tx 100 7 =
    Inr ([sample_log], \<lparr>ef_tokens = [''mint''], ef_pairs = [(''pool'', ''mint'')]\<rparr>)"
  by code_simp

lemma even_handled: "HandleSwaps sample_ext even_transfers sample_tx 100 7 =
    Inr ([], \<lparr>ef_tokens = [''mint''], ef_pairs = [(''pool'', ''mint'')]\<rparr>)"
  by code_simp

lemma even_built: "built_logs ''sig'' 100 7 [sample_swap ''0.2''] =
    [sample_log\<lparr>sl_AmountIn := Fin (3602879701896397 / 18014398509481984)\<rparr>]"
  by code_simp

lemma processTransfer_two_leg_witness:
  "processTransfer sample_ext (int 0) sample_transfers (getAllAccountKeys sample_tx) =
     Inr (two_leg_swap (getAllAccountKeys sample_tx) (tr_IxAccounts (sample_transfers ! 0)) (''RAYDIUM_CPMM'', 3, Some 0, True)
       (sample_transfers ! 0) (sample_transfers ! Suc 0), 1)"
  by (rule processTransfer_two_leg; code_simp)

lemma parse_and_HandleSwaps_total_witness:
  "ok (go_bind (ParseTransaction sample_ext sample_tx) (\<lambda>r. HandleSwaps sample_ext (pr_transfers r) sample_tx 100 7))"
  by (rule parse_and_HandleSwaps_total [OF sample_wf]) (simp add: sample_valid)

lemma HandleSwaps_refines_witness:
  "[sample_log] = filter (\<lambda>l. \<not> f64_eq (wallet_net (built_logs ''sig'' 100 7 [sample_swap ''0.6'']) (sl_Wallet l) (sl_Token l)) (Fin 0) \<and>
                 IgnoreToUsers (sl_Wallet l) = None) (built_logs ''sig'' 100 7 [sample_swap ''0.6''])"
  by (rule HandleSwaps_refines [OF sample_valid sample_raw sample_handled])

lemma HandleSwaps_logs_witness: "action_ok (sample_swap ''0.6'') sample_log \<and> IgnoreToUsers ''wallet'' = None"
  using HandleSwaps_logs [OF sample_valid sample_raw sample_handled, of sample_log] by (simp add: sample_log_def)

lemma HandleSwaps_price_one_dropped_witness:
  "HandleSwaps sample_ext even_transfers sample_tx 100 7 = Inr ([], \<lparr>ef_tokens = [''mint''], ef_pairs = [(''pool'', ''mint'')]\<rparr>) \<and>
   filter (\<lambda>l'. sl_Wallet l' = ''wallet'' \<and> sl_Token l' = ''mint'') ([] :: swap_log list) = []"
  using even_handled HandleSwaps_price_one_dropped [OF sample_valid even_raw even_handled, of "''wallet''" "''mint''" _
      "3602879701896397 / 18014398509481984"]
  by (simp add: even_built sample_log_def)

end
