(* ===== verification/LogTree.thy ===== *)
theory LogTree
  imports ChainUtils
begin

text \<open>
  The log parser (GetLogs in internal/solana/utils.go), which rebuilds the tree of program calls
  from the flat log lines of a transaction, and its readers: isTokenCreation
  (cmd/api/routes/CheckBundled.go) and the collection of PumpFun event lines
  (HandlePumpFunNewToken in internal/solana/dex/pumpfun.go). The runtime's own log format is
  modelled as a rendering of a call tree; the parser is proved to invert it.
\<close>

section \<open>The parser\<close>

text \<open>
  \<open>lp_current\<close> is the program whose lines are being read (the zero value, with the empty program
  name, when there is none) and \<open>lp_stack\<close> its callers, the innermost first: the source keeps the
  same stack with its top at the end of the slice.
\<close>

record log_parser =
  lp_details :: "log_details list"
  lp_current :: log_details
  lp_stack :: "log_details list"

definition zero_log :: log_details where
  "zero_log = LogDetails [] [] []"

definition log_line_step :: "log_parser \<Rightarrow> string \<Rightarrow> log_parser go" where
  "log_line_step s l =
     (let current = lp_current s in
      if str_contains l ''invoke'' then
        go_bind (idx (str_fields l) 1) (\<lambda>program.
          Inr (s\<lparr>lp_stack := (if ld_Program current \<noteq> [] then current # lp_stack s else lp_stack s),
                 lp_current := LogDetails program [] []\<rparr>))
      else if str_contains l ''Program log:'' \<or> str_contains l ''Program data:'' then
        Inr (s\<lparr>lp_current := LogDetails (ld_Program current) (ld_Logs current @ [l]) (ld_SubLogs current)\<rparr>)
      else if str_contains l ''success'' then
        (case lp_stack s of
           parent # stack \<Rightarrow>
             Inr (s\<lparr>lp_stack := stack,
                    lp_current := LogDetails (ld_Program parent) (ld_Logs parent) (ld_SubLogs parent @ [current])\<rparr>)
         | [] \<Rightarrow> Inr (s\<lparr>lp_details := lp_details s @ [current], lp_current := zero_log\<rparr>))
      else Inr s)"

definition GetLogs :: "string list \<Rightarrow> log_details list go" where
  "GetLogs logs =
     go_bind (go_fold log_line_step \<lparr>lp_details = [], lp_current = zero_log, lp_stack = []\<rparr> logs) (\<lambda>s.
       Inr (if ld_Program (lp_current s) \<noteq> [] then lp_details s @ [lp_current s] else lp_details s))"

section \<open>Readers of the tree\<close>

text \<open>isTokenCreation: the pair is (containsInitializeMint, containsMintTo).\<close>

definition scan_keywords :: "bool \<times> bool \<Rightarrow> string \<Rightarrow> bool \<times> bool" where
  "scan_keywords = (\<lambda>(im, mt) log.
     (im \<or> str_contains log ''InitializeMint'', mt \<or> str_contains log ''MintTo''))"

fun checkLogs :: "bool \<times> bool \<Rightarrow> log_details list \<Rightarrow> bool \<times> bool" where
  "checkLogs s [] = s"
| "checkLogs s (LogDetails program logs subs # rest) =
     checkLogs (checkLogs (foldl scan_keywords s logs) subs) rest"

definition isTokenCreation :: "log_details list \<Rightarrow> bool" where
  "isTokenCreation parsedLogs = (let (im, mt) = checkLogs (False, False) parsedLogs in im \<and> mt)"

text \<open>The event lines of one program, in the order checkLogs of HandlePumpFunNewToken visits them.\<close>

fun collect_data :: "string \<Rightarrow> log_details list \<Rightarrow> string list" where
  "collect_data programId [] = []"
| "collect_data programId (LogDetails program logs subs # rest) =
     filter (\<lambda>l. str_contains l ''Program data:'' \<and> program = programId) logs
       @ collect_data programId subs @ collect_data programId rest"

section \<open>What the runtime prints\<close>

text \<open>
  A call of a program, with the lines it logs, other lines the runtime adds (compute units and the
  like) and the calls it makes, in order.
\<close>

datatype event = Line string | Other string | Sub call
  and call = Call string "event list"

definition invoke_line :: "string \<Rightarrow> nat \<Rightarrow> string" where
  "invoke_line p depth = ''Program '' @ p @ '' invoke ['' @ dec (int depth) @ '']''"

definition success_line :: "string \<Rightarrow> string" where
  "success_line p = ''Program '' @ p @ '' success''"

fun render_call :: "nat \<Rightarrow> call \<Rightarrow> string list"
  and render_events :: "nat \<Rightarrow> event list \<Rightarrow> string list" where
  "render_call d (Call p es) = invoke_line p d # render_events (Suc d) es @ [success_line p]"
| "render_events d [] = []"
| "render_events d (Line l # es) = l # render_events d es"
| "render_events d (Other l # es) = l # render_events d es"
| "render_events d (Sub c # es) = render_call d c @ render_events d es"

text \<open>What the parser is meant to return for a call.\<close>

fun call_tree :: "call \<Rightarrow> log_details"
  and event_logs :: "event list \<Rightarrow> string list"
  and event_subs :: "event list \<Rightarrow> log_details list" where
  "call_tree (Call p es) = LogDetails p (event_logs es) (event_subs es)"
| "event_logs [] = []"
| "event_logs (Line l # es) = l # event_logs es"
| "event_logs (Other l # es) = event_logs es"
| "event_logs (Sub c # es) = event_logs es"
| "event_subs [] = []"
| "event_subs (Line l # es) = event_subs es"
| "event_subs (Other l # es) = event_subs es"
| "event_subs (Sub c # es) = call_tree c # event_subs es"

text \<open>
  Lines the parser classifies as they are meant: a log line that does not contain the word
  invoke, another line that contains none of the four markers, and a program name without white
  space whose success line is not mistaken for something else.
\<close>

definition log_text :: "string \<Rightarrow> bool" where
  "log_text l \<longleftrightarrow> \<not> str_contains l ''invoke'' \<and> (str_contains l ''Program log:'' \<or> str_contains l ''Program data:'')"

definition other_text :: "string \<Rightarrow> bool" where
  "other_text l \<longleftrightarrow> \<not> str_contains l ''invoke'' \<and> \<not> str_contains l ''Program log:''
     \<and> \<not> str_contains l ''Program data:'' \<and> \<not> str_contains l ''success''"

definition program_name :: "string \<Rightarrow> bool" where
  "program_name p \<longleftrightarrow> p \<noteq> [] \<and> list_all (\<lambda>c. \<not> is_space c) p
     \<and> \<not> str_contains (success_line p) ''invoke''
     \<and> \<not> str_contains (success_line p) ''Program log:'' \<and> \<not> str_contains (success_line p) ''Program data:''"

fun wf_call :: "call \<Rightarrow> bool"
  and wf_events :: "event list \<Rightarrow> bool" where
  "wf_call (Call p es) = (program_name p \<and> wf_events es)"
| "wf_events [] = True"
| "wf_events (Line l # es) = (log_text l \<and> wf_events es)"
| "wf_events (Other l # es) = (other_text l \<and> wf_events es)"
| "wf_events (Sub c # es) = (wf_call c \<and> wf_events es)"

section \<open>The parser inverts the printer\<close>

lemma invoke_line_contains: "str_contains (invoke_line p d) ''invoke''"
proof -
  have "invoke_line p d = (''Program '' @ p @ '' '') @ ''invoke'' @ ('' ['' @ dec (int d) @ '']'')"
    by (simp add: invoke_line_def)
  then show ?thesis unfolding str_contains_iff by blast
qed

lemma success_line_contains: "str_contains (success_line p) ''success''"
proof -
  have "success_line p = (''Program '' @ p @ '' '') @ ''success'' @ []"
    by (simp add: success_line_def)
  then show ?thesis unfolding str_contains_iff by blast
qed

lemma str_fields_second:
  assumes "list_all (\<lambda>c. \<not> is_space c) w1" "w1 \<noteq> []" "list_all (\<lambda>c. \<not> is_space c) w2" "w2 \<noteq> []"
  shows "\<exists>r. str_fields (w1 @ CHR '' '' # w2 @ CHR '' '' # t) = w1 # w2 # r"
proof -
  have sp: "is_space (CHR '' '')" by (simp add: is_space_def)
  have "fields_acc [] (w1 @ CHR '' '' # w2 @ CHR '' '' # t) = w1 # fields_acc [] (w2 @ CHR '' '' # t)"
    using fields_acc_word [of w1 "[]" "CHR '' '' # w2 @ CHR '' '' # t"] assms(1,2) sp by (simp add: list_all_iff)
  also have "fields_acc [] (w2 @ CHR '' '' # t) = w2 # fields_acc [] t"
    using fields_acc_word [of w2 "[]" "CHR '' '' # t"] assms(3,4) sp by (simp add: list_all_iff)
  finally show ?thesis by (auto simp: str_fields_def)
qed

lemma invoke_line_program: "program_name p \<Longrightarrow> idx (str_fields (invoke_line p d)) 1 = Inr p"
proof -
  assume "program_name p"
  then obtain r where
    "str_fields (''Program'' @ CHR '' '' # p @ CHR '' '' # (''invoke ['' @ dec (int d) @ '']'')) = ''Program'' # p # r"
    using str_fields_second [of "''Program''" p] by (auto simp: program_name_def is_space_def)
  then show ?thesis by (simp add: invoke_line_def idx_def)
qed

text \<open>Pushing the lines of a call's body and of a whole call through the parser.\<close>

definition add_body :: "log_details \<Rightarrow> event list \<Rightarrow> log_details" where
  "add_body c es = LogDetails (ld_Program c) (ld_Logs c @ event_logs es) (ld_SubLogs c @ event_subs es)"

lemma add_body_simps [simp]:
  "ld_Program (add_body c es) = ld_Program c"
  "ld_Logs (add_body c es) = ld_Logs c @ event_logs es"
  "ld_SubLogs (add_body c es) = ld_SubLogs c @ event_subs es"
  by (simp_all add: add_body_def)

definition finish_call :: "log_parser \<Rightarrow> log_details \<Rightarrow> log_parser" where
  "finish_call s t =
     (if ld_Program (lp_current s) = [] \<and> lp_stack s = []
      then s\<lparr>lp_details := lp_details s @ [t], lp_current := zero_log\<rparr>
      else s\<lparr>lp_current := LogDetails (ld_Program (lp_current s)) (ld_Logs (lp_current s)) (ld_SubLogs (lp_current s) @ [t])\<rparr>)"

text \<open>Between calls the parser is either inside a program or has an empty stack.\<close>

definition parser_ok :: "log_parser \<Rightarrow> bool" where
  "parser_ok s \<longleftrightarrow> ld_Program (lp_current s) = [] \<longrightarrow> lp_stack s = []"

lemma log_line_invoke:
  "program_name p \<Longrightarrow> log_line_step s (invoke_line p d) =
     Inr (s\<lparr>lp_stack := (if ld_Program (lp_current s) \<noteq> [] then lp_current s # lp_stack s else lp_stack s),
            lp_current := LogDetails p [] []\<rparr>)"
  by (simp add: log_line_step_def invoke_line_contains invoke_line_program Let_def)

lemma log_line_success:
  "program_name p \<Longrightarrow> log_line_step s (success_line p) =
     (case lp_stack s of
        parent # stack \<Rightarrow>
          Inr (s\<lparr>lp_stack := stack,
                 lp_current := LogDetails (ld_Program parent) (ld_Logs parent) (ld_SubLogs parent @ [lp_current s])\<rparr>)
      | [] \<Rightarrow> Inr (s\<lparr>lp_details := lp_details s @ [lp_current s], lp_current := zero_log\<rparr>))"
  by (simp add: log_line_step_def program_name_def success_line_contains Let_def)

lemma parse_render:
  "wf_call c \<Longrightarrow> parser_ok s \<Longrightarrow> go_fold log_line_step s (render_call d c) = Inr (finish_call s (call_tree c))"
  "wf_events es \<Longrightarrow> ld_Program (lp_current s) \<noteq> [] \<Longrightarrow>
     go_fold log_line_step s (render_events d es) = Inr (s\<lparr>lp_current := add_body (lp_current s) es\<rparr>)"
proof (induction d c and d es arbitrary: s and s rule: render_call_render_events.induct)
  case (1 d p es)
  define t where "t = s\<lparr>lp_stack := (if ld_Program (lp_current s) \<noteq> [] then lp_current s # lp_stack s else lp_stack s),
            lp_current := LogDetails p [] []\<rparr>"
  have "go_fold log_line_step t (render_events (Suc d) es) = Inr (t\<lparr>lp_current := add_body (lp_current t) es\<rparr>)"
    using 1 by (intro "1.IH") (auto simp: t_def program_name_def)
  moreover have "add_body (lp_current t) es = call_tree (Call p es)" by (simp add: t_def add_body_def)
  moreover have "log_line_step s (invoke_line p d) = Inr t" using 1(2) by (simp add: t_def log_line_invoke)
  ultimately show ?case using 1(2,3)
    by (auto simp: go_fold_append log_line_success finish_call_def parser_ok_def t_def split: list.splits)
next
  case (2 d)
  then show ?case by (simp add: add_body_def)
next
  case (3 d l es)
  define t where "t = s\<lparr>lp_current := LogDetails (ld_Program (lp_current s)) (ld_Logs (lp_current s) @ [l]) (ld_SubLogs (lp_current s))\<rparr>"
  have "log_line_step s l = Inr t" using 3(2) by (auto simp: t_def log_line_step_def log_text_def Let_def)
  moreover have "go_fold log_line_step t (render_events d es) = Inr (t\<lparr>lp_current := add_body (lp_current t) es\<rparr>)"
    using 3 by (intro "3.IH") (auto simp: t_def)
  ultimately show ?case by (simp add: t_def add_body_def)
next
  case (4 d l es)
  have "log_line_step s l = Inr s" using 4(2) by (auto simp: log_line_step_def other_text_def Let_def)
  then show ?case using 4 by (simp add: add_body_def)
next
  case (5 d c es)
  define t where "t = finish_call s (call_tree c)"
  have "go_fold log_line_step s (render_call d c) = Inr t"
    using 5 by (auto simp: t_def parser_ok_def)
  moreover have "t = s\<lparr>lp_current := LogDetails (ld_Program (lp_current s)) (ld_Logs (lp_current s)) (ld_SubLogs (lp_current s) @ [call_tree c])\<rparr>"
    using 5 by (simp add: t_def finish_call_def)
  moreover have "go_fold log_line_step t (render_events d es) = Inr (t\<lparr>lp_current := add_body (lp_current t) es\<rparr>)"
    using 5 calculation(2) by (intro "5.IH"(2)) auto
  ultimately show ?case by (simp add: go_fold_append add_body_def)
qed

lemma parse_render_top:
  "list_all wf_call cs \<Longrightarrow>
   go_fold log_line_step \<lparr>lp_details = ds, lp_current = zero_log, lp_stack = []\<rparr> (concat (map (render_call d) cs)) =
     Inr \<lparr>lp_details = ds @ map call_tree cs, lp_current = zero_log, lp_stack = []\<rparr>"
proof (induction cs arbitrary: ds)
  case (Cons c cs)
  let ?s = "\<lparr>lp_details = ds, lp_current = zero_log, lp_stack = []\<rparr>"
  have "go_fold log_line_step ?s (render_call d c) = Inr (finish_call ?s (call_tree c))"
    using Cons.prems by (intro parse_render(1)) (auto simp: parser_ok_def)
  moreover have "finish_call ?s (call_tree c) = \<lparr>lp_details = ds @ [call_tree c], lp_current = zero_log, lp_stack = []\<rparr>"
    by (simp add: finish_call_def zero_log_def)
  ultimately show ?case using Cons by (simp add: go_fold_append)
qed simp

lemma GetLogs_render:
  "list_all wf_call cs \<Longrightarrow> GetLogs (concat (map (render_call d) cs)) = Inr (map call_tree cs)"
  by (simp add: GetLogs_def parse_render_top) (simp add: zero_log_def)

section \<open>What the readers compute\<close>

text \<open>All log lines of a forest, in the order of the visit.\<close>

fun all_logs :: "log_details list \<Rightarrow> string list" where
  "all_logs [] = []"
| "all_logs (LogDetails program logs subs # rest) = logs @ all_logs subs @ all_logs rest"

lemma foldl_scan: "foldl scan_keywords (im, mt) logs =
    (im \<or> (\<exists>l \<in> set logs. str_contains l ''InitializeMint''), mt \<or> (\<exists>l \<in> set logs. str_contains l ''MintTo''))"
  by (induction logs arbitrary: im mt) (auto simp: scan_keywords_def)

lemma checkLogs_all: "checkLogs (im, mt) ls =
    (im \<or> (\<exists>l \<in> set (all_logs ls). str_contains l ''InitializeMint''),
     mt \<or> (\<exists>l \<in> set (all_logs ls). str_contains l ''MintTo''))"
proof (induction "(im, mt)" ls arbitrary: im mt rule: checkLogs.induct)
  case (2 program logs subs rest)
  then show ?case by (auto simp: foldl_scan)
qed simp

lemma isTokenCreation_iff:
  "isTokenCreation ls \<longleftrightarrow>
     (\<exists>l \<in> set (all_logs ls). str_contains l ''InitializeMint'') \<and> (\<exists>l \<in> set (all_logs ls). str_contains l ''MintTo'')"
  by (simp add: isTokenCreation_def checkLogs_all)

lemma collect_data_subset: "l \<in> set (collect_data p ls) \<Longrightarrow> l \<in> set (all_logs ls) \<and> str_contains l ''Program data:''"
  by (induction p ls rule: collect_data.induct) auto

end
