(* ===== verification/PumpFunToken.thy ===== *)
theory PumpFunToken
  imports LogTree Dex
begin

text \<open>
  Token creations in PumpFun's program logs (HandlePumpFunNewToken of internal/solana/dex): the
  data lines of the log tree, base64 and the creation event. The base64 decoder is the standard
  library's; the lemmas show that it inverts the encoder.
\<close>

section \<open>base64.StdEncoding\<close>

definition b64_alphabet :: string where
  "b64_alphabet = ''ABCDEFGHIJKLMNOPQRSTUVWXYZabcdefghijklmnopqrstuvwxyz0123456789+/''"

definition b64_char :: "nat \<Rightarrow> char" where
  "b64_char n = b64_alphabet ! n"

definition b64_val :: "char \<Rightarrow> nat option" where
  "b64_val c = (let n = (of_char c :: nat) in
     if 65 \<le> n \<and> n \<le> 90 then Some (n - 65)
     else if 97 \<le> n \<and> n \<le> 122 then Some (n - 71)
     else if 48 \<le> n \<and> n \<le> 57 then Some (n + 4)
     else if n = 43 then Some 62 else if n = 47 then Some 63 else None)"

definition b64_pad :: char where
  "b64_pad = CHR ''=''"

fun b64_encode :: "byte list \<Rightarrow> string" where
  "b64_encode [] = []"
| "b64_encode [a] = (let n = unat a * 16 in [b64_char (n div 64), b64_char (n mod 64), b64_pad, b64_pad])"
| "b64_encode [a, b] = (let n = unat a * 1024 + unat b * 4 in
     [b64_char (n div 4096), b64_char (n div 64 mod 64), b64_char (n mod 64), b64_pad])"
| "b64_encode (a # b # c # bs) = (let n = unat a * 65536 + unat b * 256 + unat c in
     b64_char (n div 262144) # b64_char (n div 4096 mod 64) # b64_char (n div 64 mod 64) # b64_char (n mod 64) # b64_encode bs)"

text \<open>The decoder, after the carriage returns and newlines it skips are gone.\<close>

fun b64_groups :: "string \<Rightarrow> byte list option" where
  "b64_groups [] = Some []"
| "b64_groups (c1 # c2 # c3 # c4 # s) =
     (case (b64_val c1, b64_val c2) of
        (Some x1, Some x2) \<Rightarrow>
          (if c3 = b64_pad \<and> c4 = b64_pad
           then (if s = [] then Some [of_nat ((64 * x1 + x2) div 16)] else None)
           else (case b64_val c3 of
              None \<Rightarrow> None
            | Some x3 \<Rightarrow>
                (if c4 = b64_pad
                 then (if s = [] then (let n = (4096 * x1 + 64 * x2 + x3) div 4 in Some [of_nat (n div 256), of_nat (n mod 256)])
                       else None)
                 else (case (b64_val c4, b64_groups s) of
                    (Some x4, Some bs) \<Rightarrow>
                      (let n = 262144 * x1 + 4096 * x2 + 64 * x3 + x4
                       in Some (of_nat (n div 65536) # of_nat (n div 256 mod 256) # of_nat (n mod 256) # bs))
                  | _ \<Rightarrow> None))))
      | _ \<Rightarrow> None)"
| "b64_groups _ = None"

definition b64_decode :: "string \<Rightarrow> byte list option" where
  "b64_decode s = b64_groups (filter (\<lambda>c. c \<noteq> CHR 0x0A \<and> c \<noteq> CHR 0x0D) s)"

section \<open>HandlePumpFunNewToken\<close>

text \<open>PumpFunCreation.Decode: the slice may panic; a decoding error is swallowed.\<close>

definition decode_creation :: "ext \<Rightarrow> byte list \<Rightarrow> pumpfun_creation go" where
  "decode_creation E bytes = go_bind (slice_from bytes 8) (\<lambda>b. Inr (borsh_pumpfun_creation E b))"

text \<open>\<open>strings.Split(pLog, "Program data: ")[1]\<close> panics when the separator does not occur.\<close>

definition new_token_line :: "ext \<Rightarrow> string \<Rightarrow> pumpfun_creation list go" where
  "new_token_line E pLog =
     go_bind (idx (str_split pLog ''Program data: '') 1) (\<lambda>splitStr.
       case b64_decode splitStr of
         None \<Rightarrow> Inr []
       | Some bytesData \<Rightarrow>
           go_bind (decode_creation E bytesData) (\<lambda>newToken.
             Inr (if key_string E (pc_Mint newToken) = [] \<or> pc_Symbol newToken = [] then [] else [newToken])))"

definition HandlePumpFunNewToken :: "ext \<Rightarrow> log_details list \<Rightarrow> string \<Rightarrow> pumpfun_creation list go" where
  "HandlePumpFunNewToken E parsedLogs programId =
     go_fold (\<lambda>tokens pLog. go_bind (new_token_line E pLog) (\<lambda>t. Inr (tokens @ t))) [] (collect_data programId parsedLogs)"

section \<open>Lemmas\<close>

lemma b64_alphabet_vals:
  "list_all (\<lambda>(n, c). b64_val c = Some n \<and> c \<noteq> b64_pad \<and> c \<noteq> CHR 0x0A \<and> c \<noteq> CHR 0x0D) (enumerate 0 b64_alphabet)"
  unfolding b64_alphabet_def by (simp add: b64_val_def b64_pad_def)

lemma b64_char_val:
  assumes "n < 64"
  shows "b64_val (b64_char n) = Some n" "b64_char n \<noteq> b64_pad" "b64_char n \<noteq> CHR 0x0A" "b64_char n \<noteq> CHR 0x0D"
proof -
  have "length b64_alphabet = 64" by (simp add: b64_alphabet_def)
  then have "(n, b64_char n) \<in> set (enumerate 0 b64_alphabet)" using assms by (simp add: in_set_enumerate_eq b64_char_def)
  then show "b64_val (b64_char n) = Some n" "b64_char n \<noteq> b64_pad" "b64_char n \<noteq> CHR 0x0A" "b64_char n \<noteq> CHR 0x0D"
    using b64_alphabet_vals by (auto simp: list_all_iff)
qed

lemma byte_bounds: "unat (a :: byte) < 256" "unat a div 4 < 64" "unat a div 16 < 16"
  using unat_lt2p_byte [of a] by simp_all

lemma byte_of_nat_unat: "n = unat (a :: byte) \<Longrightarrow> of_nat n = a"
  by simp

lemma split_sextets:
  fixes n :: nat
  shows "64 * (n div 64) + n mod 64 = n"
    and "4096 * (n div 4096) + 64 * (n div 64 mod 64) + n mod 64 = n"
    and "262144 * (n div 262144) + 4096 * (n div 4096 mod 64) + 64 * (n div 64 mod 64) + n mod 64 = n"
proof -
  have d: "n div 4096 = n div 64 div 64" "n div 262144 = n div 4096 div 64" by (simp_all flip: div_mult2_eq)
  note m = mult_div_mod_eq [of 64 n] mult_div_mod_eq [of 64 "n div 64"] mult_div_mod_eq [of 64 "n div 4096"]
  show "64 * (n div 64) + n mod 64 = n" using m(1) .
  show "4096 * (n div 4096) + 64 * (n div 64 mod 64) + n mod 64 = n"
    "262144 * (n div 262144) + 4096 * (n div 4096 mod 64) + 64 * (n div 64 mod 64) + n mod 64 = n"
    using m d by linarith+
qed

lemma b64_groups_step:
  assumes "x1 < 64" "x2 < 64" "x3 < 64" "x4 < 64" "b64_groups s = Some bs"
  shows "b64_groups [b64_char x1, b64_char x2, b64_pad, b64_pad] = Some [of_nat ((64 * x1 + x2) div 16)]"
    and "b64_groups [b64_char x1, b64_char x2, b64_char x3, b64_pad] =
      Some [of_nat ((4096 * x1 + 64 * x2 + x3) div 4 div 256), of_nat ((4096 * x1 + 64 * x2 + x3) div 4 mod 256)]"
    and "b64_groups (b64_char x1 # b64_char x2 # b64_char x3 # b64_char x4 # s) =
      (let n = 262144 * x1 + 4096 * x2 + 64 * x3 + x4
       in Some (of_nat (n div 65536) # of_nat (n div 256 mod 256) # of_nat (n mod 256) # bs))"
  using b64_char_val [OF assms(1)] b64_char_val [OF assms(2)] b64_char_val [OF assms(3)] b64_char_val [OF assms(4)] assms(5)
  by (simp_all only: b64_groups.simps option.case prod.case if_True if_False simp_thms Let_def)

lemma bytes_joined:
  fixes a b c :: byte
  shows "(unat a * 1024 + unat b * 4) div 4 div 256 = unat a" "(unat a * 1024 + unat b * 4) div 4 mod 256 = unat b"
    and "(unat a * 65536 + unat b * 256 + unat c) div 65536 = unat a"
    and "(unat a * 65536 + unat b * 256 + unat c) div 256 mod 256 = unat b"
    and "(unat a * 65536 + unat b * 256 + unat c) mod 256 = unat c"
proof -
  note l = byte_bounds(1) [of a] byte_bounds(1) [of b] byte_bounds(1) [of c]
  have e: "unat a * 65536 + unat b * 256 + unat c = (unat a * 256 + unat b) * 256 + unat c" by simp
  show "(unat a * 1024 + unat b * 4) div 4 div 256 = unat a" "(unat a * 1024 + unat b * 4) div 4 mod 256 = unat b"
    "(unat a * 65536 + unat b * 256 + unat c) div 65536 = unat a" using l by auto
  have dm: "(k * 256 + m) div 256 = k" "(k * 256 + m) mod 256 = m" if "m < 256" for k m :: nat
    using that by simp_all
  show "(unat a * 65536 + unat b * 256 + unat c) div 256 mod 256 = unat b"
    "(unat a * 65536 + unat b * 256 + unat c) mod 256 = unat c" unfolding e dm(1) [OF l(3)] dm(2) [OF l(3)] dm(2) [OF l(2)] by rule+
qed

lemma b64_groups_encode: "b64_groups (b64_encode bs) = Some bs"
proof (induction bs rule: b64_encode.induct)
  case (2 a)
  let ?n = "unat a * 16"
  have n: "?n div 64 < 64" "?n mod 64 < 64" using byte_bounds [of a] by simp_all
  show ?case unfolding b64_encode.simps Let_def b64_groups_step(1) [OF n n b64_groups.simps(1)] split_sextets by simp
next
  case (3 a b)
  let ?n = "unat a * 1024 + unat b * 4"
  have n: "?n div 4096 < 64" "?n div 64 mod 64 < 64" "?n mod 64 < 64" using byte_bounds [of a] byte_bounds [of b] by simp_all
  show ?case unfolding b64_encode.simps Let_def b64_groups_step(2) [OF n n(3) b64_groups.simps(1)] split_sextets bytes_joined by simp
next
  case (4 a b c bs)
  let ?n = "unat a * 65536 + unat b * 256 + unat c"
  have n: "?n div 262144 < 64" "?n div 4096 mod 64 < 64" "?n div 64 mod 64 < 64" "?n mod 64 < 64"
    using byte_bounds [of a] byte_bounds [of b] byte_bounds [of c] by simp_all
  have "b64_groups (b64_char (?n div 262144) # b64_char (?n div 4096 mod 64) # b64_char (?n div 64 mod 64) # b64_char (?n mod 64) #
      b64_encode bs) = Some (a # b # c # bs)"
    using b64_groups_step(3) [OF n 4] unfolding Let_def split_sextets bytes_joined by simp
  then show ?case unfolding b64_encode.simps(4) Let_def .
qed simp

lemma b64_encode_no_newline: "CHR 0x0A \<notin> set (b64_encode bs) \<and> CHR 0x0D \<notin> set (b64_encode bs)"
proof (induction bs rule: b64_encode.induct)
  case (4 a b c bs)
  let ?n = "unat a * 65536 + unat b * 256 + unat c"
  have n: "?n div 262144 < 64" "?n div 4096 mod 64 < 64" "?n div 64 mod 64 < 64" "?n mod 64 < 64"
    using byte_bounds [of a] byte_bounds [of b] byte_bounds [of c] by simp_all
  show ?case using b64_char_val(3,4) [OF n(1)] b64_char_val(3,4) [OF n(2)] b64_char_val(3,4) [OF n(3)] b64_char_val(3,4) [OF n(4)] 4
    by (simp add: Let_def)
next
  case (3 a b)
  let ?n = "unat a * 1024 + unat b * 4"
  have n: "?n div 4096 < 64" "?n div 64 mod 64 < 64" "?n mod 64 < 64" using byte_bounds [of a] byte_bounds [of b] by simp_all
  show ?case using b64_char_val(3,4) [OF n(1)] b64_char_val(3,4) [OF n(2)] b64_char_val(3,4) [OF n(3)]
    by (simp add: Let_def b64_pad_def)
next
  case (2 a)
  let ?n = "unat a * 16"
  have n: "?n div 64 < 64" "?n mod 64 < 64" using byte_bounds [of a] by simp_all
  show ?case using b64_char_val(3,4) [OF n(1)] b64_char_val(3,4) [OF n(2)] by (simp add: Let_def b64_pad_def)
qed simp

lemma b64_roundtrip: "b64_decode (b64_encode bs) = Some bs"
proof -
  have "filter (\<lambda>c. c \<noteq> CHR 0x0A \<and> c \<noteq> CHR 0x0D) (b64_encode bs) = b64_encode bs"
    using b64_encode_no_newline [of bs] by (intro filter_True) auto
  then show ?thesis by (simp only: b64_decode_def b64_groups_encode)
qed

section \<open>The new tokens of a transaction's logs\<close>

text \<open>A program's data line, and a log without stray data lines.\<close>

definition data_line :: "byte list \<Rightarrow> string" where
  "data_line bs = ''Program data: '' @ b64_encode bs"

text \<open>The creations a list of event payloads holds: those with a mint and a symbol.\<close>

definition creations :: "ext \<Rightarrow> byte list list \<Rightarrow> pumpfun_creation list" where
  "creations E bss = filter (\<lambda>c. key_string E (pc_Mint c) \<noteq> [] \<and> pc_Symbol c \<noteq> [])
     (map (\<lambda>bs. borsh_pumpfun_creation E (drop 8 bs)) bss)"

lemma b64_no_space: "CHR '' '' \<notin> set (b64_encode bs)"
proof -
  have c: "b64_char n \<noteq> CHR '' ''" if "n < 64" for n
    using b64_char_val(1) [OF that] by (auto simp: b64_val_def)
  show ?thesis
  proof (induction bs rule: b64_encode.induct)
    case (4 a b c bs)
    let ?n = "unat a * 65536 + unat b * 256 + unat c"
    have n: "?n div 262144 < 64" "?n div 4096 mod 64 < 64" "?n div 64 mod 64 < 64" "?n mod 64 < 64"
      using byte_bounds [of a] byte_bounds [of b] byte_bounds [of c] by simp_all
    show ?case using c [OF n(1)] c [OF n(2)] c [OF n(3)] c [OF n(4)] 4 by (auto simp: Let_def)
  next
    case (3 a b)
    let ?n = "unat a * 1024 + unat b * 4"
    have n: "?n div 4096 < 64" "?n div 64 mod 64 < 64" "?n mod 64 < 64" using byte_bounds [of a] byte_bounds [of b] by simp_all
    show ?case using c [OF n(1)] c [OF n(2)] c [OF n(3)] by (auto simp: Let_def b64_pad_def)
  next
    case (2 a)
    let ?n = "unat a * 16"
    have n: "?n div 64 < 64" "?n mod 64 < 64" using byte_bounds [of a] by simp_all
    show ?case using c [OF n(1)] c [OF n(2)] by (auto simp: Let_def b64_pad_def)
  qed simp
qed

lemma split_data_line: "str_split (data_line bs) ''Program data: '' = [[], b64_encode bs]"
proof -
  have none: "str_index (b64_encode bs) ''Program data: '' = None"
  proof (rule ccontr)
    assume "str_index (b64_encode bs) ''Program data: '' \<noteq> None"
    then obtain a b where "b64_encode bs = a @ ''Program data: '' @ b" using str_index_Some by blast
    then have "CHR '' '' \<in> set (b64_encode bs)" by simp
    then show False using b64_no_space by blast
  qed
  have i: "str_index (data_line bs) ''Program data: '' = Some 0" by (simp add: data_line_def)
  show ?thesis by (subst str_split.simps) (simp add: i data_line_def str_split_single [OF none])
qed

lemma new_token_data_line:
  "8 \<le> length bs \<Longrightarrow> new_token_line E (data_line bs) = Inr (creations E [bs])"
  by (simp add: new_token_line_def split_data_line idx_def b64_roundtrip decode_creation_def slice_from_def creations_def)

lemma new_tokens_fold:
  "\<forall>bs \<in> set bss. 8 \<le> length bs \<Longrightarrow>
   go_fold (\<lambda>tokens pLog. go_bind (new_token_line E pLog) (\<lambda>t. Inr (tokens @ t))) ts (map data_line bss) =
     Inr (ts @ creations E bss)"
proof (induction bss arbitrary: ts)
  case (Cons bs bss)
  have "creations E (bs # bss) = creations E [bs] @ creations E bss" by (simp add: creations_def)
  then show ?case using Cons by (simp add: new_token_data_line)
qed (simp add: creations_def)

text \<open>
  C24: From a log tree whose PumpFun data lines carry base64 of Anchor events, HandlePumpFunNewToken
  returns, in order, the creations they encode that have a mint and a symbol.
\<close>

theorem HandlePumpFunNewToken_events:
  assumes "collect_data programId logs = map data_line bss" "\<forall>bs \<in> set bss. 8 \<le> length bs"
  shows "HandlePumpFunNewToken E logs programId = Inr (creations E bss)"
  using new_tokens_fold [OF assms(2), of E "[]"] by (simp add: HandlePumpFunNewToken_def assms(1))

text \<open>
  A line of the program that says \<open>Program data:\<close> without the following space panics the
  decoder: strings.Split has no second part.
\<close>

lemma HandlePumpFunNewToken_panic:
  assumes "collect_data programId logs = l # rest" "str_index l ''Program data: '' = None"
  shows "HandlePumpFunNewToken E logs programId = Inl PanicIndex"
  by (simp add: HandlePumpFunNewToken_def assms(1) new_token_line_def str_split_single [OF assms(2)] idx_def)

definition sample_creation :: pumpfun_creation where
  "sample_creation = \<lparr>pc_Name = ''Name'', pc_Symbol = ''SYM'', pc_Uri = ''uri'', pc_Mint = zero_key,
     pc_BondingCurve = zero_key, pc_User = zero_key\<rparr>"

definition creation_ext :: ext where
  "creation_ext = sample_ext\<lparr>borsh_pumpfun_creation := (\<lambda>bs. sample_creation)\<rparr>"

lemma HandlePumpFunNewToken_events_witness:
  "HandlePumpFunNewToken creation_ext [LogDetails PUMPFUN [data_line [1, 2, 3, 4, 5, 6, 7, 8, 9]] []] PUMPFUN = Inr [sample_creation]"
  by (subst HandlePumpFunNewToken_events [where bss = "[[1, 2, 3, 4, 5, 6, 7, 8, 9]]"])
    (simp_all add: data_line_def str_contains_def creations_def creation_ext_def sample_creation_def sample_ext_def)

lemma HandlePumpFunNewToken_panic_witness:
  "HandlePumpFunNewToken creation_ext [LogDetails PUMPFUN [''Program data:AAAA''] []] PUMPFUN = Inl PanicIndex"
  by (rule HandlePumpFunNewToken_panic [where l = "''Program data:AAAA''" and rest = "[]"]) (simp_all add: str_contains_def)

end
