(* ===== verification/Websocket.thy ===== *)
theory Websocket
  imports SolTypes
begin

text \<open>
  The websocket server of cmd/api/websocket: the table of connected clients, what a client message
  does to it, and who receives a broadcast. A connection is a number; the table is a list in the
  order the runtime iterates the Go map, at most one entry per connection. Whether a message parses
  and whether a write succeeds is decided outside and passed in.
\<close>

section \<open>State\<close>

type_synonym conn = nat

record client =
  cl_ClientType :: string
  cl_Wallets :: "string list"

definition zero_client :: client where
  "zero_client = \<lparr>cl_ClientType = [], cl_Wallets = []\<rparr>"

type_synonym clients = "(conn \<times> client) list"

definition validateClientType :: "string \<Rightarrow> bool" where
  "validateClientType clientType \<longleftrightarrow> clientType = ''wallet'' \<or> clientType = ''pf-tokens''"

definition filterRelevantSwaps :: "swap_log list \<Rightarrow> string list \<Rightarrow> swap_log list" where
  "filterRelevantSwaps swaps wallets =
     (let walletSet = foldl (\<lambda>s w. insert w s) {} wallets
      in foldl (\<lambda>relevant swap. if sl_Wallet swap \<in> walletSet then relevant @ [swap] else relevant) [] swaps)"

section \<open>Connections\<close>

definition delete_client :: "conn \<Rightarrow> clients \<Rightarrow> clients" where
  "delete_client c cs = filter (\<lambda>(c', _). c' \<noteq> c) cs"

fun put_client :: "conn \<Rightarrow> client \<Rightarrow> clients \<Rightarrow> clients" where
  "put_client c d [] = [(c, d)]"
| "put_client c d ((c', d') # cs) = (if c' = c then (c, d) # cs else (c', d') # put_client c d cs)"

text \<open>
  handleConnections: the entry made on connecting, the read loop, and the entry removed when the
  loop ends. A message is \<open>None\<close> when reading or parsing it failed. The read loop also says whether
  the connection is still open after the messages so far.
\<close>

definition on_connect :: "conn \<Rightarrow> clients \<Rightarrow> clients" where
  "on_connect c cs = put_client c zero_client cs"

definition on_message :: "conn \<Rightarrow> client option \<Rightarrow> clients \<Rightarrow> clients \<times> bool" where
  "on_message c message cs =
     (case message of
        None \<Rightarrow> (delete_client c cs, False)
      | Some clientData \<Rightarrow>
          if \<not> validateClientType (cl_ClientType clientData) then (delete_client c cs, False)
          else (put_client c clientData cs, True))"

fun read_loop :: "conn \<Rightarrow> client option list \<Rightarrow> clients \<Rightarrow> clients \<times> bool" where
  "read_loop c [] cs = (cs, True)"
| "read_loop c (m # ms) cs =
     (case on_message c m cs of (cs', open') \<Rightarrow> if open' then read_loop c ms cs' else (cs', False))"

section \<open>Broadcasts\<close>

text \<open>
  The JSON package is not part of the repository: its encoder of swaps and of token creations and
  its decoder of swaps are the record \<open>ws_json\<close>, \<open>None\<close> an error return.
\<close>

record 'm ws_json =
  js_marshal_swaps :: "swap_log list \<Rightarrow> 'm option"
  js_unmarshal_swaps :: "'m \<Rightarrow> swap_log list option"
  js_marshal_tokens :: "pumpfun_creation list \<Rightarrow> 'm option"

text \<open>What goes over the two broadcast channels.\<close>

datatype 'm ws_msg = SwapsMsg 'm | PFTokensMsg 'm

definition BroadcastSwaps :: "'m ws_json \<Rightarrow> swap_log list \<Rightarrow> 'm ws_msg list" where
  "BroadcastSwaps js swaps =
     (case js_marshal_swaps js swaps of None \<Rightarrow> [] | Some message \<Rightarrow> [SwapsMsg message])"

definition BroadcastPumpFunTokens :: "'m ws_json \<Rightarrow> pumpfun_creation list \<Rightarrow> 'm ws_msg list" where
  "BroadcastPumpFunTokens js tokens =
     (case js_marshal_tokens js tokens of None \<Rightarrow> [] | Some message \<Rightarrow> [PFTokensMsg message])"

text \<open>One pass over the clients: what each is sent, and the entries of failed writes removed.\<close>

definition swaps_pass ::
  "'m ws_json \<Rightarrow> (conn \<Rightarrow> bool) \<Rightarrow> swap_log list \<Rightarrow> clients \<times> (conn \<times> 'm) list \<Rightarrow> conn \<times> client \<Rightarrow>
   clients \<times> (conn \<times> 'm) list" where
  "swaps_pass js writes swaps = (\<lambda>(kept, sent) (c, d).
     if cl_ClientType d = ''wallet'' then
       (let relevantSwaps = filterRelevantSwaps swaps (cl_Wallets d) in
        if length relevantSwaps > 0 then
          (case js_marshal_swaps js relevantSwaps of
             None \<Rightarrow> (kept @ [(c, d)], sent)
           | Some message \<Rightarrow> if writes c then (kept @ [(c, d)], sent @ [(c, message)]) else (kept, sent))
        else (kept @ [(c, d)], sent))
     else (kept @ [(c, d)], sent))"

definition broadcastRelevantSwaps ::
  "'m ws_json \<Rightarrow> (conn \<Rightarrow> bool) \<Rightarrow> swap_log list \<Rightarrow> clients \<Rightarrow> clients \<times> (conn \<times> 'm) list" where
  "broadcastRelevantSwaps js writes swaps cs = foldl (swaps_pass js writes swaps) ([], []) cs"

definition tokens_pass ::
  "(conn \<Rightarrow> bool) \<Rightarrow> 'm \<Rightarrow> clients \<times> (conn \<times> 'm) list \<Rightarrow> conn \<times> client \<Rightarrow> clients \<times> (conn \<times> 'm) list" where
  "tokens_pass writes message = (\<lambda>(kept, sent) (c, d).
     if cl_ClientType d = ''pf-tokens'' then
       (if writes c then (kept @ [(c, d)], sent @ [(c, message)]) else (kept, sent))
     else (kept @ [(c, d)], sent))"

definition broadcastPFTokensToClients :: "(conn \<Rightarrow> bool) \<Rightarrow> 'm \<Rightarrow> clients \<Rightarrow> clients \<times> (conn \<times> 'm) list" where
  "broadcastPFTokensToClients writes message cs = foldl (tokens_pass writes message) ([], []) cs"

definition handleMessages :: "'m ws_json \<Rightarrow> (conn \<Rightarrow> bool) \<Rightarrow> 'm ws_msg \<Rightarrow> clients \<Rightarrow> clients \<times> (conn \<times> 'm) list" where
  "handleMessages js writes msg cs = (case msg of
     SwapsMsg message \<Rightarrow>
       (case js_unmarshal_swaps js message of
          None \<Rightarrow> (cs, [])
        | Some swaps \<Rightarrow> broadcastRelevantSwaps js writes swaps cs)
   | PFTokensMsg message \<Rightarrow> broadcastPFTokensToClients writes message cs)"

section \<open>Events and their invariant\<close>

text \<open>
  The lock makes each of these atomic. A message comes from a connection that has connected, whether
  or not a failed broadcast has removed its entry since.
\<close>

datatype 'm ws_event =
    Connect conn
  | Message conn "client option"
  | Broadcast "conn \<Rightarrow> bool" "'m ws_msg"

definition ws_step :: "'m ws_json \<Rightarrow> 'm ws_event \<Rightarrow> clients \<Rightarrow> clients" where
  "ws_step js e cs = (case e of
     Connect c \<Rightarrow> on_connect c cs
   | Message c m \<Rightarrow> fst (on_message c m cs)
   | Broadcast writes msg \<Rightarrow> fst (handleMessages js writes msg cs))"

inductive ws_reach :: "'m ws_json \<Rightarrow> clients \<Rightarrow> bool" for js where
  ws_init: "ws_reach js []"
| ws_next: "ws_reach js cs \<Longrightarrow> ws_reach js (ws_step js e cs)"

definition clients_ok :: "clients \<Rightarrow> bool" where
  "clients_ok cs \<longleftrightarrow> distinct (map fst cs) \<and>
     (\<forall>(c, d) \<in> set cs. d = zero_client \<or> validateClientType (cl_ClientType d))"

section \<open>Lemmas\<close>

lemma filterRelevantSwaps_filter: "filterRelevantSwaps swaps wallets = filter (\<lambda>s. sl_Wallet s \<in> set wallets) swaps"
proof -
  have set: "foldl (\<lambda>s w. insert w s) S ws = S \<union> set ws" for S and ws :: "string list"
    by (induction ws arbitrary: S) auto
  have "foldl (\<lambda>r s. if sl_Wallet s \<in> W then r @ [s] else r) acc swaps = acc @ filter (\<lambda>s. sl_Wallet s \<in> W) swaps"
    for W acc by (induction swaps arbitrary: acc) auto
  then show ?thesis by (simp add: filterRelevantSwaps_def set)
qed

text \<open>Who is sent what, without the accumulating loop.\<close>

definition swaps_for :: "swap_log list \<Rightarrow> client \<Rightarrow> swap_log list" where
  "swaps_for swaps d = (if cl_ClientType d = ''wallet'' then filter (\<lambda>s. sl_Wallet s \<in> set (cl_Wallets d)) swaps else [])"

definition message_for :: "'m ws_json \<Rightarrow> swap_log list \<Rightarrow> client \<Rightarrow> 'm option" where
  "message_for js swaps d = (if swaps_for swaps d = [] then None else js_marshal_swaps js (swaps_for swaps d))"

lemma swaps_pass_eq:
  "swaps_pass js writes swaps (k, s) (c, d) =
     (case message_for js swaps d of
        None \<Rightarrow> (k @ [(c, d)], s)
      | Some m \<Rightarrow> if writes c then (k @ [(c, d)], s @ [(c, m)]) else (k, s))"
  by (simp add: swaps_pass_def message_for_def swaps_for_def filterRelevantSwaps_filter Let_def)

lemma broadcastRelevantSwaps_spec:
  "broadcastRelevantSwaps js writes swaps cs =
     (filter (\<lambda>(c, d). message_for js swaps d = None \<or> writes c) cs,
      [(c, m). (c, d) \<leftarrow> cs, writes c, m \<leftarrow> (case message_for js swaps d of None \<Rightarrow> [] | Some m \<Rightarrow> [m])])"
proof -
  have "foldl (swaps_pass js writes swaps) (k, s) cs =
     (k @ filter (\<lambda>(c, d). message_for js swaps d = None \<or> writes c) cs,
      s @ [(c, m). (c, d) \<leftarrow> cs, writes c, m \<leftarrow> (case message_for js swaps d of None \<Rightarrow> [] | Some m \<Rightarrow> [m])])" for k s
  proof (induction cs arbitrary: k s)
    case (Cons x cs)
    obtain c d where x: "x = (c, d)" by (rule prod.exhaust)
    show ?case
      by (cases "message_for js swaps d"; cases "writes c") (simp_all add: x swaps_pass_eq Cons.IH)
  qed simp
  then show ?thesis by (simp add: broadcastRelevantSwaps_def)
qed

lemma tokens_pass_eq:
  "tokens_pass writes m (k, s) (c, d) =
     (if cl_ClientType d = ''pf-tokens'' \<and> \<not> writes c then (k, s)
      else (k @ [(c, d)], if cl_ClientType d = ''pf-tokens'' then s @ [(c, m)] else s))"
  by (simp add: tokens_pass_def)

lemma broadcastPFTokens_kept:
  "fst (broadcastPFTokensToClients writes m cs) = filter (\<lambda>(c, d). cl_ClientType d \<noteq> ''pf-tokens'' \<or> writes c) cs"
proof -
  have "fst (foldl (tokens_pass writes m) (k, s) cs) =
      k @ filter (\<lambda>(c, d). cl_ClientType d \<noteq> ''pf-tokens'' \<or> writes c) cs" for k s
  proof (induction cs arbitrary: k s)
    case (Cons x cs)
    obtain c d where x: "x = (c, d)" by (rule prod.exhaust)
    show ?case
      by (cases "cl_ClientType d = ''pf-tokens''"; cases "writes c") (simp_all add: x tokens_pass_eq Cons.IH)
  qed simp
  then show ?thesis by (simp add: broadcastPFTokensToClients_def)
qed

lemma handleMessages_kept: "\<exists>P. fst (handleMessages js writes msg cs) = filter P cs"
  by (cases msg)
    (auto simp: handleMessages_def broadcastRelevantSwaps_spec broadcastPFTokens_kept split: option.split
      intro: exI [of _ "\<lambda>_. True"])

lemma put_client_keys: "fst ` set (put_client c d cs) = insert c (fst ` set cs)"
proof (induction cs)
  case (Cons x cs)
  obtain c' d' where x: "x = (c', d')" by (rule prod.exhaust)
  show ?case using Cons by (cases "c' = c") (auto simp: x)
qed simp

lemma put_client_ok: "clients_ok cs \<Longrightarrow> d = zero_client \<or> validateClientType (cl_ClientType d) \<Longrightarrow> clients_ok (put_client c d cs)"
proof (induction cs)
  case (Cons x cs)
  obtain c' d' where x: "x = (c', d')" by (rule prod.exhaust)
  show ?case
  proof (cases "c' = c")
    case True
    then show ?thesis using Cons.prems x by (auto simp: clients_ok_def)
  next
    case False
    then have "clients_ok (put_client c d cs)" using Cons x by (auto simp: clients_ok_def)
    then show ?thesis using False Cons.prems(1) x put_client_keys [of c d cs] by (auto simp: clients_ok_def)
  qed
qed (simp add: clients_ok_def)

lemma filter_clients_ok: "clients_ok cs \<Longrightarrow> clients_ok (filter P cs)"
  by (auto simp: clients_ok_def distinct_map_filter)

section \<open>Properties\<close>

text \<open>
  C30: In every reachable state each connection has at most one entry, and the entry is the blank one
  made on connecting or one of a valid client type.
\<close>

theorem ws_clients_ok: "ws_reach js cs \<Longrightarrow> clients_ok cs"
proof (induction rule: ws_reach.induct)
  case ws_init
  show ?case by (simp add: clients_ok_def)
next
  case (ws_next cs e)
  show ?case
  proof (cases e)
    case (Broadcast writes msg)
    obtain P where "fst (handleMessages js writes msg cs) = filter P cs" using handleMessages_kept by blast
    then show ?thesis using Broadcast filter_clients_ok [OF ws_next.IH] by (simp add: ws_step_def)
  qed (auto simp: ws_step_def on_connect_def on_message_def delete_client_def
      split: option.splits intro!: put_client_ok filter_clients_ok ws_next.IH)
qed

definition witness_json :: "swap_log list ws_json" where
  "witness_json = \<lparr>js_marshal_swaps = Some, js_unmarshal_swaps = Some, js_marshal_tokens = (\<lambda>_. Some [])\<rparr>"

lemma ws_clients_ok_witness: "clients_ok [(3, \<lparr>cl_ClientType = ''wallet'', cl_Wallets = [''w'']\<rparr>)]"
proof -
  have "ws_reach witness_json (ws_step witness_json (Message 3 (Some \<lparr>cl_ClientType = ''wallet'', cl_Wallets = [''w'']\<rparr>))
      (ws_step witness_json (Connect 3) []))" by (intro ws_reach.intros)
  from ws_clients_ok [OF this] show ?thesis
    by (simp add: ws_step_def on_connect_def on_message_def validateClientType_def)
qed

text \<open>
  C31: When the JSON package decodes what it encoded, a broadcast of swaps reaches exactly the wallet
  clients that follow a wallet of one of the swaps: each is sent one message, the encoding of the
  swaps of its own wallets in their order; no other client is sent anything, and only clients whose
  write failed lose their entry.
\<close>

theorem broadcast_exact:
  "BroadcastSwaps js swaps = [msg] \<Longrightarrow>
   (\<And>m ss. js_marshal_swaps js ss = Some m \<Longrightarrow> js_unmarshal_swaps js m = Some ss) \<Longrightarrow>
   handleMessages js writes msg cs =
     (filter (\<lambda>(c, d). message_for js swaps d = None \<or> writes c) cs,
      [(c, m). (c, d) \<leftarrow> cs, writes c, m \<leftarrow> (case message_for js swaps d of None \<Rightarrow> [] | Some m \<Rightarrow> [m])])"
  by (cases "js_marshal_swaps js swaps")
    (auto simp: BroadcastSwaps_def handleMessages_def broadcastRelevantSwaps_spec)

definition wallet_log :: "string \<Rightarrow> swap_log" where
  "wallet_log wallet = \<lparr>sl_ID = ''1'', sl_Wallet = wallet, sl_Source = [], sl_BlockNumber = 0, sl_Timestamp = 0,
     sl_AmountOut = Fin 1, sl_AmountIn = Fin 2, sl_Action = ''BUY'', sl_Pair = [], sl_Token = [],
     sl_Processed = True, sl_TokenSymbol = None, sl_QuoteTokenSymbol = None\<rparr>"

lemma broadcast_exact_witness:
  "handleMessages witness_json (\<lambda>c. c \<noteq> 5) (SwapsMsg [wallet_log ''v'', wallet_log ''w''])
     [(3, \<lparr>cl_ClientType = ''wallet'', cl_Wallets = [''w'']\<rparr>), (4, zero_client),
      (5, \<lparr>cl_ClientType = ''wallet'', cl_Wallets = [''v'']\<rparr>)] =
   ([(3, \<lparr>cl_ClientType = ''wallet'', cl_Wallets = [''w'']\<rparr>), (4, zero_client)], [(3, [wallet_log ''w''])])"
proof -
  have "BroadcastSwaps witness_json [wallet_log ''v'', wallet_log ''w''] = [SwapsMsg [wallet_log ''v'', wallet_log ''w'']]"
    by (simp add: BroadcastSwaps_def witness_json_def)
  from broadcast_exact [OF this, of "\<lambda>c. c \<noteq> 5"] show ?thesis
    by (simp add: witness_json_def message_for_def swaps_for_def zero_client_def wallet_log_def)
qed

end
