(* ===== verification/TxHandler.thy ===== *)
theory TxHandler
  imports SwapHandler PumpFunToken Repo Websocket
begin

text \<open>
  One transaction through the processor (internal/solana/txHandler.go): the parser, the program logs,
  the swap handler and the PumpFun creations, then the messages broadcast and the statements run
  on the token table. Both goroutines it starts are sequences of atomic calls; they are returned as
  lists, to be run with any outcome of each call.
\<close>

section \<open>ProcessTransaction\<close>

datatype repo_call =
    CallInsertToken token
  | CallUpdateTokenSupply string string string

record 'm tx_outcome =
  ou_swaps :: "swap_log list"
  ou_effects :: swap_effects
  ou_messages :: "'m ws_msg list"
  ou_calls :: "repo_call list"

definition pumpfun_token_data :: "ext \<Rightarrow> int \<Rightarrow> 64 word \<Rightarrow> pumpfun_creation \<Rightarrow> token" where
  "pumpfun_token_data E timestamp block pfToken = \<lparr>to_Name = pc_Name pfToken, to_Symbol = pc_Symbol pfToken, to_Decimals = 6,
     to_Address = key_string E (pc_Mint pfToken), to_Supply = ''0'', to_CreatedBlock = sint block,
     to_Network = ''solana'', to_CreatedTimestamp = time_unix timestamp, to_Deployer = Some (key_string E (pc_User pfToken)),
     to_Metadata = Some (pc_Uri pfToken)\<rparr>"

definition token_calls ::
  "ext \<Rightarrow> int \<Rightarrow> 64 word \<Rightarrow> pumpfun_creation list \<Rightarrow> parse_result \<Rightarrow> repo_call list" where
  "token_calls E timestamp block pumpFunTokens r =
     (let pumpFunTokenMints = set (map (\<lambda>pfToken. key_string E (pc_Mint pfToken)) pumpFunTokens) in
      map (\<lambda>pfToken. CallInsertToken (pumpfun_token_data E timestamp block pfToken)) pumpFunTokens @
      map (\<lambda>token. CallInsertToken (token\<lparr>to_CreatedTimestamp := time_unix timestamp, to_CreatedBlock := sint block\<rparr>))
        (filter (\<lambda>token. to_Address token \<notin> pumpFunTokenMints) (pr_tokensCreated r)) @
      map (\<lambda>burn. CallUpdateTokenSupply (tr_Mint burn) (tr_Amount burn) ''burn'') (pr_burns r) @
      map (\<lambda>mint. CallUpdateTokenSupply (tr_Mint mint) (tr_Amount mint) ''mint'') (pr_tokenMints r))"

text \<open>\<open>ws\<close> is \<open>None\<close> for the nil Websocket; a nil LogMessages is ranged over as the empty slice.\<close>

definition broadcasts :: "'m ws_json option \<Rightarrow> bool \<Rightarrow> swap_log list \<Rightarrow> pumpfun_creation list \<Rightarrow> 'm ws_msg list" where
  "broadcasts ws ignoreWS swaps pumpFunTokens =
     (case ws of
        None \<Rightarrow> []
      | Some js \<Rightarrow>
          if ignoreWS then []
          else BroadcastSwaps js swaps @ (if length pumpFunTokens > 0 then BroadcastPumpFunTokens js pumpFunTokens else []))"

definition ProcessTransaction ::
  "ext \<Rightarrow> 'm ws_json option \<Rightarrow> solana_tx \<Rightarrow> int \<Rightarrow> 64 word \<Rightarrow> bool \<Rightarrow> 'm tx_outcome go" where
  "ProcessTransaction E ws tx timestamp block ignoreWS =
     go_bind (ParseTransaction E tx) (\<lambda>r.
     go_bind (GetLogs (case tm_LogMessages (tx_Meta tx) of None \<Rightarrow> [] | Some ls \<Rightarrow> ls)) (\<lambda>logs.
     go_bind (HandleSwaps E (pr_transfers r) tx timestamp block) (\<lambda>(swaps, effects).
     go_bind (HandlePumpFunNewToken E logs PUMPFUN) (\<lambda>pumpFunTokens.
       Inr \<lparr>ou_swaps = swaps, ou_effects = effects, ou_messages = broadcasts ws ignoreWS swaps pumpFunTokens,
            ou_calls = token_calls E timestamp block pumpFunTokens r\<rparr>))))"

text \<open>Running the calls: the results are only logged. \<open>up\<close> says whether the connection delivers the next statement.\<close>

definition run_call :: "pg \<Rightarrow> bool \<Rightarrow> repo_call \<Rightarrow> database \<Rightarrow> database" where
  "run_call P up call db = (case call of
     CallInsertToken t \<Rightarrow> snd (InsertToken P up t db)
   | CallUpdateTokenSupply address amount action \<Rightarrow> snd (UpdateTokenSupply up address amount action db))"

fun run_calls :: "pg \<Rightarrow> (bool \<times> repo_call) list \<Rightarrow> database \<Rightarrow> database" where
  "run_calls P [] db = db"
| "run_calls P ((up, c) # cs) db = run_calls P cs (run_call P up c db)"

section \<open>Lemmas\<close>

lemma run_calls_append: "run_calls P (as @ bs) db = run_calls P bs (run_calls P as db)"
  by (induction P as db rule: run_calls.induct) auto

text \<open>The columns a stored token keeps for good.\<close>

definition identity_of :: "token_row \<Rightarrow> string \<times> string \<times> string \<times> int \<times> int \<times> gotime \<times> string option \<times> string option" where
  "identity_of r = (rt_Address r, rt_Name r, rt_Symbol r, rt_Decimals r, rt_CreatedBlock r, rt_CreatedTimestamp r,
     rt_Deployer r, rt_Metadata r)"

definition call_row :: "repo_call \<Rightarrow> (string \<times> string \<times> string \<times> int \<times> int \<times> gotime \<times> string option \<times> string option) list" where
  "call_row c = (case c of
     CallInsertToken t \<Rightarrow> [(to_Address t, to_Name t, to_Symbol t, uint (to_Decimals t), to_CreatedBlock t, to_CreatedTimestamp t,
       nullable (to_Deployer t), nullable (to_Metadata t))]
   | _ \<Rightarrow> [])"

lemma run_call_identities:
  "\<exists>new. map identity_of (db_tokens (run_call P up c db)) = map identity_of (db_tokens db) @ new \<and> set new \<subseteq> set (call_row c)"
proof (cases c)
  case (CallInsertToken t)
  then show ?thesis by (auto simp: run_call_def InsertToken_def call_row_def identity_of_def split: option.split)
next
  case (CallUpdateTokenSupply a x act)
  have "map identity_of (db_tokens (update_tokens a (\<lambda>r. r\<lparr>rt_Supply := f r\<rparr>) db)) = map identity_of (db_tokens db)" for f
    by (simp add: update_tokens_def identity_of_def)
  then show ?thesis using CallUpdateTokenSupply
    by (auto simp: run_call_def UpdateTokenSupply_def call_row_def Let_def split: option.split)
qed

lemma run_calls_identities:
  "\<exists>new. map identity_of (db_tokens (run_calls P cs db)) = map identity_of (db_tokens db) @ new \<and>
     set new \<subseteq> (\<Union>c \<in> set cs. set (call_row (snd c)))"
proof (induction P cs db rule: run_calls.induct)
  case (2 P up c cs db)
  obtain n1 where n1: "map identity_of (db_tokens (run_call P up c db)) = map identity_of (db_tokens db) @ n1"
      "set n1 \<subseteq> set (call_row c)" using run_call_identities by blast
  obtain n2 where n2: "map identity_of (db_tokens (run_calls P cs (run_call P up c db))) =
      map identity_of (db_tokens (run_call P up c db)) @ n2" "set n2 \<subseteq> (\<Union>c \<in> set cs. set (call_row (snd c)))"
    using 2 by blast
  show ?case
    by (rule exI [of _ "n1 @ n2"]) (use n1 n2 in auto)
qed simp

text \<open>A statement the server accepts leaves the address in the table, whichever row it is.\<close>

lemma run_call_present:
  assumes "pg_float8 P (to_Supply t) \<noteq> None" "token_texts_ok P t" "int4 (to_CreatedBlock t)"
  shows "to_Address t \<in> rt_Address ` set (db_tokens (run_call P True (CallInsertToken t) db))"
  using assms by (auto simp: run_call_def InsertToken_def)

lemma addresses_kept: "rt_Address ` set (db_tokens db) \<subseteq> rt_Address ` set (db_tokens (run_calls P cs db))"
proof -
  obtain new where "map identity_of (db_tokens (run_calls P cs db)) = map identity_of (db_tokens db) @ new"
    using run_calls_identities by blast
  then have "map fst (map identity_of (db_tokens (run_calls P cs db))) = map fst (map identity_of (db_tokens db)) @ map fst new" by simp
  then have "map rt_Address (db_tokens (run_calls P cs db)) = map rt_Address (db_tokens db) @ map fst new"
    by (simp add: identity_of_def comp_def)
  then have "set (map rt_Address (db_tokens db)) \<subseteq> set (map rt_Address (db_tokens (run_calls P cs db)))" by (metis set_append Un_upper1)
  then show ?thesis by simp
qed

definition inserted :: "repo_call list \<Rightarrow> token list" where
  "inserted cs = concat (map (\<lambda>c. case c of CallInsertToken t \<Rightarrow> [t] | _ \<Rightarrow> []) cs)"

lemma inserted_append [simp]: "inserted (as @ bs) = inserted as @ inserted bs"
  by (simp add: inserted_def)

lemma inserted_insertions [simp]: "inserted (map (\<lambda>x. CallInsertToken (f x)) xs) = map f xs"
  by (induction xs) (simp_all add: inserted_def)

lemma inserted_updates [simp]: "inserted (map (\<lambda>x. CallUpdateTokenSupply (f x) (g x) act) xs) = []"
  by (induction xs) (simp_all add: inserted_def)

lemma run_calls_present:
  assumes "t \<in> set (inserted cs)" "pg_float8 P (to_Supply t) \<noteq> None" "token_texts_ok P t" "int4 (to_CreatedBlock t)"
  shows "to_Address t \<in> rt_Address ` set (db_tokens (run_calls P (map (Pair True) cs) db))"
  using assms(1)
proof (induction cs arbitrary: db)
  case (Cons c cs)
  show ?case
  proof (cases "c = CallInsertToken t")
    case True
    then show ?thesis using run_call_present [OF assms(2-4), of db] addresses_kept [of "run_call P True c db" P "map (Pair True) cs"] by auto
  next
    case False
    then have "t \<in> set (inserted cs)" using Cons.prems by (auto simp: inserted_def split: repo_call.splits)
    then show ?thesis using Cons.IH by simp
  qed
qed (simp add: inserted_def)

text \<open>The columns that identify a created token, and the tokens a transaction creates: those of PumpFun, and
  those of its instructions that are not among them, stamped with the block.\<close>

definition token_identity :: "token \<Rightarrow> string \<times> string \<times> string \<times> int \<times> int \<times> gotime \<times> string option \<times> string option" where
  "token_identity t = (to_Address t, to_Name t, to_Symbol t, uint (to_Decimals t), to_CreatedBlock t, to_CreatedTimestamp t,
     nullable (to_Deployer t), nullable (to_Metadata t))"

definition created_tokens :: "ext \<Rightarrow> int \<Rightarrow> 64 word \<Rightarrow> pumpfun_creation list \<Rightarrow> parse_result \<Rightarrow> token set" where
  "created_tokens E timestamp block pumpFunTokens r = pumpfun_token_data E timestamp block ` set pumpFunTokens \<union>
     {t\<lparr>to_CreatedTimestamp := time_unix timestamp, to_CreatedBlock := sint block\<rparr> |t.
        t \<in> set (pr_tokensCreated r) \<and> (\<forall>pf \<in> set pumpFunTokens. key_string E (pc_Mint pf) \<noteq> to_Address t)}"

lemma inserted_token_calls: "set (inserted (token_calls E timestamp block pumpFunTokens r)) = created_tokens E timestamp block pumpFunTokens r"
proof -
  define stamp where "stamp = (\<lambda>t :: token. t\<lparr>to_CreatedTimestamp := time_unix timestamp, to_CreatedBlock := sint block\<rparr>)"
  have "{stamp t |t. t \<in> set (pr_tokensCreated r) \<and> (\<forall>pf \<in> set pumpFunTokens. key_string E (pc_Mint pf) \<noteq> to_Address t)} =
      stamp ` {t \<in> set (pr_tokensCreated r). to_Address t \<notin> (\<lambda>pf. key_string E (pc_Mint pf)) ` set pumpFunTokens}"
    by (auto simp: image_iff) metis+
  then show ?thesis by (simp add: token_calls_def created_tokens_def Let_def stamp_def)
qed

lemma call_rows_inserted: "(\<Union>c \<in> set cs. set (call_row c)) = token_identity ` set (inserted cs)"
  by (induction cs) (auto simp: inserted_def call_row_def token_identity_def split: repo_call.splits)

text \<open>What one burn or mint does to the supply of the token with address \<open>a\<close>: one that cannot be read, or leaves the range, does nothing.\<close>

definition change_supply :: "string \<Rightarrow> gonum \<Rightarrow> string \<times> string \<times> string \<Rightarrow> gonum" where
  "change_supply a s = (\<lambda>(mint, amount, action).
     if mint \<noteq> a then s
     else case parse_float amount of None \<Rightarrow> s
       | Some x \<Rightarrow> (case (if action = ''mint'' then pg_add s x else pg_sub s x) of None \<Rightarrow> s | Some s' \<Rightarrow> s'))"

definition supply_changes :: "parse_result \<Rightarrow> (string \<times> string \<times> string) list" where
  "supply_changes r = map (\<lambda>b. (tr_Mint b, tr_Amount b, ''burn'')) (pr_burns r) @ map (\<lambda>m. (tr_Mint m, tr_Amount m, ''mint'')) (pr_tokenMints r)"

definition supplied :: "(string \<times> string \<times> string) list \<Rightarrow> token_row \<Rightarrow> token_row" where
  "supplied changes row = row\<lparr>rt_Supply := foldl (change_supply (rt_Address row)) (rt_Supply row) changes\<rparr>"

lemma supplied_Nil [simp]: "supplied [] row = row"
  by (simp add: supplied_def)

lemma supplied_address [simp]: "rt_Address (supplied cs row) = rt_Address row"
  by (simp add: supplied_def)

lemma supplied_append: "supplied (as @ bs) row = supplied bs (supplied as row)"
  by (simp add: supplied_def)

text \<open>An address is unique, so the only row it can concern decides whether the statement fails.\<close>

lemma run_update:
  assumes "distinct (map rt_Address (db_tokens db))" "action = ''mint'' \<or> action = ''burn''"
  shows "db_tokens (run_call P True (CallUpdateTokenSupply mint amount action) db) = map (supplied [(mint, amount, action)]) (db_tokens db)"
proof (cases "parse_float amount")
  case None
  have "map (supplied [(mint, amount, action)]) (db_tokens db) = db_tokens db"
    by (rule map_idI) (simp add: supplied_def change_supply_def None)
  then show ?thesis using None by (simp add: run_call_def UpdateTokenSupply_def)
next
  case (Some x)
  define op where "op = (if action = ''mint'' then pg_add else pg_sub)"
  have run: "run_call P True (CallUpdateTokenSupply mint amount action) db =
      (if \<exists>r \<in> set (db_tokens db). rt_Address r = mint \<and> op (rt_Supply r) x = None then db
       else update_tokens mint (\<lambda>r. r\<lparr>rt_Supply := the (op (rt_Supply r) x)\<rparr>) db)"
    using assms(2) Some by (auto simp: run_call_def UpdateTokenSupply_def op_def Let_def)
  have row: "supplied [(mint, amount, action)] r =
      (if rt_Address r \<noteq> mint then r else case op (rt_Supply r) x of None \<Rightarrow> r | Some s \<Rightarrow> r\<lparr>rt_Supply := s\<rparr>)" for r
    using Some by (auto simp: supplied_def change_supply_def op_def split: option.split)
  show ?thesis
  proof (cases "\<exists>r \<in> set (db_tokens db). rt_Address r = mint \<and> op (rt_Supply r) x = None")
    case True
    then obtain r where r: "r \<in> set (db_tokens db)" "rt_Address r = mint" "op (rt_Supply r) x = None" by blast
    have "r' = r" if "r' \<in> set (db_tokens db)" "rt_Address r' = mint" for r'
      using that r(1,2) assms(1) by (auto simp: distinct_map inj_on_def)
    then have "map (supplied [(mint, amount, action)]) (db_tokens db) = db_tokens db"
      using r(3) by (intro map_idI) (auto simp: row)
    then show ?thesis using True by (simp add: run)
  next
    case False
    then show ?thesis by (auto simp: run update_tokens_def row split: option.split)
  qed
qed

lemma distinct_supplied: "distinct (map rt_Address (map (supplied cs) rows)) = distinct (map rt_Address rows)"
  by (simp add: comp_def)

text \<open>Statements for the supply, as they follow from a list of changes.\<close>

definition update_call :: "string \<times> string \<times> string \<Rightarrow> repo_call" where
  "update_call = (\<lambda>(mint, amount, action). CallUpdateTokenSupply mint amount action)"

lemma run_updates:
  assumes "distinct (map rt_Address (db_tokens db))" "\<forall>(_, _, action) \<in> set changes. action = ''mint'' \<or> action = ''burn''"
  shows "db_tokens (run_calls P (map (Pair True) (map update_call changes)) db) = map (supplied changes) (db_tokens db)"
  using assms
proof (induction changes arbitrary: db)
  case Nil
  have "map (supplied []) (db_tokens db) = db_tokens db" by (rule map_idI) simp
  then show ?case by simp
next
  case (Cons ch changes)
  obtain mint amount action where ch: "ch = (mint, amount, action)" by (metis prod_cases3)
  let ?db = "run_call P True (CallUpdateTokenSupply mint amount action) db"
  have step: "db_tokens ?db = map (supplied [ch]) (db_tokens db)"
    using run_update [OF Cons.prems(1)] Cons.prems(2) by (simp add: ch)
  then have "distinct (map rt_Address (db_tokens ?db))" using Cons.prems(1) by (simp add: comp_def)
  from Cons.IH [OF this] Cons.prems(2) have "db_tokens (run_calls P (map (Pair True) (map update_call changes)) ?db) = map (supplied changes) (db_tokens ?db)"
    by (auto simp: case_prod_beta)
  moreover have "map (supplied changes) (db_tokens ?db) = map (supplied (ch # changes)) (db_tokens db)"
    using supplied_append [of "[ch]" changes] by (simp add: step)
  ultimately show ?case by (simp add: update_call_def ch)
qed

lemma run_insertion: "\<exists>new. db_tokens (run_call P up (CallInsertToken t) db) = db_tokens db @ new \<and>
    (distinct (map rt_Address (db_tokens db)) \<longrightarrow> distinct (map rt_Address (db_tokens db @ new)))"
  by (auto simp: run_call_def InsertToken_def split: option.split)

lemma run_insertions: "\<exists>new. db_tokens (run_calls P (map (\<lambda>t. (up, CallInsertToken t)) ts) db) = db_tokens db @ new \<and>
    (distinct (map rt_Address (db_tokens db)) \<longrightarrow> distinct (map rt_Address (db_tokens db @ new)))"
proof (induction ts arbitrary: db)
  case (Cons t ts)
  from run_insertion [of P up t db] Cons.IH [of "run_call P up (CallInsertToken t) db"] show ?case by force
qed simp

lemma token_calls_split:
  "\<exists>ts. token_calls E timestamp block pumpFunTokens r = map CallInsertToken ts @ map update_call (supply_changes r)"
  by (rule exI [of _ "map (pumpfun_token_data E timestamp block) pumpFunTokens @
      map (\<lambda>token. token\<lparr>to_CreatedTimestamp := time_unix timestamp, to_CreatedBlock := sint block\<rparr>)
        (filter (\<lambda>token. to_Address token \<notin> set (map (\<lambda>pfToken. key_string E (pc_Mint pfToken)) pumpFunTokens)) (pr_tokensCreated r))"])
    (simp add: token_calls_def supply_changes_def update_call_def Let_def)

lemma supply_actions: "\<forall>(_, _, action) \<in> set (supply_changes r). action = ''mint'' \<or> action = ''burn''"
  by (auto simp: supply_changes_def)

lemma run_token_calls:
  assumes "distinct (map rt_Address (db_tokens db))"
  shows "\<exists>new. db_tokens (run_calls P (map (Pair True) (token_calls E timestamp block pumpFunTokens r)) db) =
      map (supplied (supply_changes r)) (db_tokens db @ new) \<and> distinct (map rt_Address (db_tokens db @ new))"
proof -
  obtain ts where ts: "token_calls E timestamp block pumpFunTokens r = map CallInsertToken ts @ map update_call (supply_changes r)"
    using token_calls_split by blast
  obtain new where new: "db_tokens (run_calls P (map (\<lambda>t. (True, CallInsertToken t)) ts) db) = db_tokens db @ new"
    "distinct (map rt_Address (db_tokens db @ new))" using run_insertions [of P True ts db] assms by blast
  have "db_tokens (run_calls P (map (Pair True) (map update_call (supply_changes r))) (run_calls P (map (\<lambda>t. (True, CallInsertToken t)) ts) db)) =
      map (supplied (supply_changes r)) (db_tokens db @ new)"
    using run_updates [OF _ supply_actions, of "run_calls P (map (\<lambda>t. (True, CallInsertToken t)) ts) db" P r] new by simp
  then have "db_tokens (run_calls P (map (Pair True) (token_calls E timestamp block pumpFunTokens r)) db) = map (supplied (supply_changes r)) (db_tokens db @ new)"
    by (simp add: ts run_calls_append comp_def)
  then show ?thesis using new(2) by blast
qed

section \<open>Properties\<close>

text \<open>
  C25: A well-formed, signed transaction whose PumpFun data lines are well formed is processed to the end: the
  outcome holds the swaps of HandleSwaps, and messages only when there is a websocket that is not
  ignored.
\<close>

theorem ProcessTransaction_total:
  assumes "wf_tx E tx" "td_Signatures (tx_Transaction tx) \<noteq> []"
    and "GetLogs (case tm_LogMessages (tx_Meta tx) of None \<Rightarrow> [] | Some ls \<Rightarrow> ls) = Inr logs"
    and "collect_data PUMPFUN logs = map data_line bss" "\<forall>bs \<in> set bss. 8 \<le> length bs"
  shows "\<exists>ou. ProcessTransaction E ws tx timestamp block ignoreWS = Inr ou \<and>
     (ws = None \<or> ignoreWS \<longrightarrow> ou_messages ou = []) \<and>
     go_bind (ParseTransaction E tx) (\<lambda>r. HandleSwaps E (pr_transfers r) tx timestamp block) = Inr (ou_swaps ou, ou_effects ou)"
proof -
  obtain r where r: "ParseTransaction E tx = Inr r" using parse_results [OF assms(1)] by blast
  have "ok (HandleSwaps E (pr_transfers r) tx timestamp block)"
    by (rule HandleSwaps_ok [OF parse_transfers_ok [OF assms(1) r] assms(2)])
  then obtain swaps effects where h: "HandleSwaps E (pr_transfers r) tx timestamp block = Inr (swaps, effects)"
    by (auto simp: ok_conv)
  have n: "HandlePumpFunNewToken E logs PUMPFUN = Inr (creations E bss)"
    using new_tokens_fold [OF assms(5), of E "[]"] by (simp add: HandlePumpFunNewToken_def assms(4))
  show ?thesis by (auto simp: ProcessTransaction_def r h n assms(3) broadcasts_def split: option.splits)
qed

text \<open>
  C26: What the statements of a transaction do to the tokens. Whatever statements fail, every stored token keeps its
  name, symbol, decimals, block, time, deployer and metadata, and each new row is that of a token the
  transaction creates: one its PumpFun events report, or one of its instructions that they do not. When all statements are
  delivered, every created token the server accepts has a row, and the supply of every stored token is changed by exactly the burns
  and then the mints of the transaction, in order.
\<close>

theorem ProcessTransaction_tokens:
  assumes "ProcessTransaction E ws tx timestamp block ignoreWS = Inr ou" "map snd cs = ou_calls ou"
    and "ParseTransaction E tx = Inr r"
    and "GetLogs (case tm_LogMessages (tx_Meta tx) of None \<Rightarrow> [] | Some ls \<Rightarrow> ls) = Inr logs"
    and "HandlePumpFunNewToken E logs PUMPFUN = Inr pumpFunTokens"
  shows "(\<exists>new. map identity_of (db_tokens (run_calls P cs db)) = map identity_of (db_tokens db) @ new \<and>
       set new \<subseteq> token_identity ` created_tokens E timestamp block pumpFunTokens r) \<and>
     ((\<forall>c \<in> set cs. fst c) \<longrightarrow>
       (\<forall>t \<in> created_tokens E timestamp block pumpFunTokens r.
          pg_float8 P (to_Supply t) \<noteq> None \<and> token_texts_ok P t \<and> int4 (to_CreatedBlock t) \<longrightarrow>
          to_Address t \<in> rt_Address ` set (db_tokens (run_calls P cs db))) \<and>
       (distinct (map rt_Address (db_tokens db)) \<longrightarrow>
          (\<exists>new. db_tokens (run_calls P cs db) = map (supplied (supply_changes r)) (db_tokens db @ new))))"
proof -
  have ou: "ou_calls ou = token_calls E timestamp block pumpFunTokens r"
    using assms(1,3-5) by (auto simp: ProcessTransaction_def go_bind_ok)
  have "(\<Union>c \<in> set cs. set (call_row (snd c))) = (\<Union>c \<in> set (ou_calls ou). set (call_row c))"
    unfolding assms(2) [symmetric] by simp
  then have rows: "(\<Union>c \<in> set cs. set (call_row (snd c))) = token_identity ` created_tokens E timestamp block pumpFunTokens r"
    by (simp add: call_rows_inserted ou inserted_token_calls)
  have up: "cs = map (Pair True) (token_calls E timestamp block pumpFunTokens r)" if "\<forall>c \<in> set cs. fst c"
    unfolding ou [symmetric] assms(2) [symmetric] using that by (induction cs) auto
  show ?thesis
    using run_calls_identities [of P cs db] run_token_calls [of db P E timestamp block pumpFunTokens r] up
      run_calls_present [where P = P and cs = "token_calls E timestamp block pumpFunTokens r" and db = db]
    unfolding rows inserted_token_calls by blast
qed

text \<open>
  A change of supply that arrives before the token's row is lost, and reported as done: the statement
  succeeds and changes nothing.
\<close>

lemma UpdateTokenSupply_unknown:
  assumes "parse_float amount \<noteq> None" "action = ''mint'' \<or> action = ''burn''" "address \<notin> rt_Address ` set (db_tokens db)"
  shows "UpdateTokenSupply True address amount action db = (None, db)"
proof -
  have "map (\<lambda>r. if rt_Address r = address then f r else r) (db_tokens db) = db_tokens db" for f
    using assms(3) by (intro map_idI) auto
  then have upd: "update_tokens address f db = db" for f by (simp add: update_tokens_def)
  have none: "\<not> (\<exists>r \<in> set (db_tokens db). rt_Address r = address \<and> Q r)" for Q using assms(3) by auto
  obtain x where x: "parse_float amount = Some x" using assms(1) by blast
  show ?thesis using assms(2) by (elim disjE) (simp_all add: UpdateTokenSupply_def Let_def x none upd)
qed

lemma ProcessTransaction_total_witness:
  "\<exists>ou. ProcessTransaction sample_ext (None :: swap_log list ws_json option) sample_tx 7 9 False = Inr ou \<and> ou_messages ou = []"
proof -
  have "GetLogs (case tm_LogMessages (tx_Meta sample_tx) of None \<Rightarrow> [] | Some ls \<Rightarrow> ls) = Inr []"
    by code_simp
  moreover have "td_Signatures (tx_Transaction sample_tx) \<noteq> []" by code_simp
  moreover have "collect_data PUMPFUN [] = map data_line []" by simp
  ultimately show ?thesis
    using ProcessTransaction_total [OF sample_wf, of "[]" "[]" "None :: swap_log list ws_json option" 7 9 False] by auto
qed

text \<open>A transaction of no instruction whose program logs report one PumpFun creation.\<close>

definition creation_tx :: solana_tx where
  "creation_tx = sample_tx\<lparr>tx_Meta := (tx_Meta sample_tx)\<lparr>tm_InnerInstructions := [], tm_PreTokenBalances := [], tm_PostTokenBalances := [],
       tm_PreBalances := [], tm_PostBalances := [],
       tm_LogMessages := Some [invoke_line PUMPFUN 1, ''Program data: AQIDBAUGBwgJ'', success_line PUMPFUN]\<rparr>,
     tx_Transaction := (tx_Transaction sample_tx)\<lparr>td_Message := (td_Message (tx_Transaction sample_tx))\<lparr>ms_Instructions := []\<rparr>\<rparr>\<rparr>"

definition creation_outcome :: "swap_log list tx_outcome" where
  "creation_outcome = \<lparr>ou_swaps = [], ou_effects = no_effects, ou_messages = [],
     ou_calls = [CallInsertToken (pumpfun_token_data creation_ext 7 9 sample_creation)]\<rparr>"

lemma creation_data_line: "data_line [1, 2, 3, 4, 5, 6, 7, 8, 9] = ''Program data: AQIDBAUGBwgJ''"
  by (simp add: data_line_def b64_char_def b64_alphabet_def)

lemma creation_parsed:
  "ParseTransaction creation_ext creation_tx = Inr \<lparr>pr_transfers = [], pr_burns = [], pr_tokenMints = [], pr_tokensCreated = []\<rparr>"
  by code_simp

lemma creation_logs: "GetLogs (case tm_LogMessages (tx_Meta creation_tx) of None \<Rightarrow> [] | Some ls \<Rightarrow> ls) =
    Inr [LogDetails PUMPFUN [data_line [1, 2, 3, 4, 5, 6, 7, 8, 9]] []]"
  unfolding creation_data_line by code_simp

lemma creation_events: "HandlePumpFunNewToken creation_ext [LogDetails PUMPFUN [data_line [1, 2, 3, 4, 5, 6, 7, 8, 9]] []] PUMPFUN = Inr [sample_creation]"
proof -
  have "collect_data PUMPFUN [LogDetails PUMPFUN [data_line [1, 2, 3, 4, 5, 6, 7, 8, 9]] []] = map data_line [[1, 2, 3, 4, 5, 6, 7, 8, 9]]"
    by (simp add: data_line_def str_contains_def)
  then show ?thesis
    using new_tokens_fold [of "[[1, 2, 3, 4, 5, 6, 7, 8, 9]]" creation_ext "[]"]
    by (simp add: HandlePumpFunNewToken_def creations_def creation_ext_def sample_creation_def sample_ext_def)
qed

lemma creation_processed: "ProcessTransaction creation_ext (None :: swap_log list ws_json option) creation_tx 7 9 False = Inr creation_outcome"
proof -
  have "HandleSwaps creation_ext [] creation_tx 7 9 = Inr ([], no_effects)"
    by (simp add: HandleSwaps_def raw_swaps.simps)
  then show ?thesis
    by (simp add: ProcessTransaction_def creation_events creation_parsed creation_logs broadcasts_def
        token_calls_def creation_outcome_def)
qed

lemma ProcessTransaction_tokens_witness:
  "''key'' \<in> rt_Address ` set (db_tokens (run_calls plain_pg [(True, CallInsertToken (pumpfun_token_data creation_ext 7 9 sample_creation))] empty_db))"
proof -
  let ?t = "pumpfun_token_data creation_ext 7 9 sample_creation"
  have "map snd [(True, CallInsertToken ?t)] = ou_calls creation_outcome" by (simp add: creation_outcome_def)
  note all = ProcessTransaction_tokens [OF creation_processed this creation_parsed creation_logs creation_events, of plain_pg empty_db,
      THEN conjunct2, THEN mp, THEN conjunct1, rule_format, of ?t]
  have "?t \<in> created_tokens creation_ext 7 9 [sample_creation] \<lparr>pr_transfers = [], pr_burns = [], pr_tokenMints = [], pr_tokensCreated = []\<rparr>"
    by (simp add: created_tokens_def)
  moreover have "pg_float8 plain_pg (to_Supply ?t) \<noteq> None \<and> token_texts_ok plain_pg ?t \<and> int4 (to_CreatedBlock ?t) \<and> to_Address ?t = ''key''"
    by (simp add: pumpfun_token_data_def plain_pg_def token_texts_ok_def nullable_def int4_def creation_ext_def sample_ext_def sample_creation_def)
  ultimately show ?thesis using all by auto
qed

lemma UpdateTokenSupply_unknown_witness: "UpdateTokenSupply True ''mint'' ''12.5'' ''mint'' empty_db = (None, empty_db)"
proof -
  have "parse_float ''12.5'' \<noteq> None" by code_simp
  then show ?thesis by (rule UpdateTokenSupply_unknown) (simp_all add: empty_db_def)
qed

end
