(* ===== verification/Queue.thy ===== *)
theory Queue
  imports TxHandler
begin

text \<open>
  The message queue (internal/solana/queue.go): the connection and its reconnection, publishing a
  block, the workers and their wait group, and what a worker does with one delivery. What the
  broker answers is passed in; the broker's queue is the list of message bodies. The encoder and
  decoder of a block (generated code) are parameters.
\<close>

section \<open>Connection\<close>

text \<open>Whether amqp.Dial and Channel succeed, attempt by attempt.\<close>

type_synonym dials = "nat \<Rightarrow> bool \<times> bool"

definition connectToRabbitMQ :: "bool \<times> bool \<Rightarrow> unit go" where
  "connectToRabbitMQ = (\<lambda>(dial, channel). if \<not> dial then Inl Fatal else if \<not> channel then Inl Fatal else Inr ())"

text \<open>\<open>fuel\<close> attempts are left; after a return of connectToRabbitMQ both fields are set.\<close>

fun reconnect_loop :: "nat \<Rightarrow> nat \<Rightarrow> dials \<Rightarrow> bool go" where
  "reconnect_loop 0 i dials = Inr False"
| "reconnect_loop (Suc fuel) i dials = go_bind (connectToRabbitMQ (dials i)) (\<lambda>_. Inr True)"

definition reconnect :: "dials \<Rightarrow> bool go" where
  "reconnect dials = reconnect_loop 5 0 dials"

section \<open>Publishing\<close>

record broker =
  bk_declare :: bool
  bk_publish :: bool

record 'b queue_state =
  qs_open :: bool
  qs_messages :: "'b list"

text \<open>AddToSolanaQueue returns nothing: a block it could not publish is only logged.\<close>

definition AddToSolanaQueue ::
  "(block_data \<Rightarrow> 'b option) \<Rightarrow> dials \<Rightarrow> broker \<Rightarrow> block_data \<Rightarrow> 'b queue_state \<Rightarrow> 'b queue_state go" where
  "AddToSolanaQueue marshal dials bk blockData q =
     go_bind (if qs_open q then Inr True else reconnect dials) (\<lambda>connected.
       if \<not> connected then Inr q
       else
         let q = q\<lparr>qs_open := True\<rparr> in
         if \<not> bk_declare bk then Inr q
         else (case marshal blockData of
             None \<Rightarrow> Inr q
           | Some blockBytes \<Rightarrow> if bk_publish bk then Inr (q\<lparr>qs_messages := qs_messages q @ [blockBytes]\<rparr>) else Inr q))"

section \<open>Inserting a batch\<close>

text \<open>The loop over the attempts, whose connection outcomes are listed; it ends at the first success.\<close>

fun insert_attempts ::
  "(bool \<Rightarrow> swap_log list \<Rightarrow> 's \<Rightarrow> db_error option \<times> 's) \<Rightarrow> bool list \<Rightarrow> swap_log list \<Rightarrow> 's \<Rightarrow> bool \<times> 's" where
  "insert_attempts ins [] swaps s = (False, s)"
| "insert_attempts ins (up # ups) swaps s =
     (case ins up swaps s of
        (None, s') \<Rightarrow> (True, s')
      | (Some _, s') \<Rightarrow> insert_attempts ins ups swaps s')"

definition maxRetries :: nat where
  "maxRetries = 3"

definition insertBatch ::
  "(bool \<Rightarrow> swap_log list \<Rightarrow> 's \<Rightarrow> db_error option \<times> 's) \<Rightarrow> (nat \<Rightarrow> bool) \<Rightarrow> swap_log list \<Rightarrow> 's \<Rightarrow> bool \<times> 's" where
  "insertBatch ins up swaps s = insert_attempts ins (map up [0..<maxRetries]) swaps s"

section \<open>A delivery\<close>

datatype verdict = Acked | Nacked | Unsettled

text \<open>
  The circumstances of one delivery: the connection, the outcomes of nack and ack, the order in
  which the ten goroutines deliver the results of the transactions, and the insertion attempts. The goroutines that
  ProcessTransaction starts run their statements on the token table meanwhile: \<open>ci_before\<close> and \<open>ci_after\<close>
  schedule them before and after the insertion, each entry the transaction whose next statement runs and whether the
  connection delivers it. Statements that neither schedules are still running when the delivery is settled.
\<close>

record circumstances =
  ci_open :: bool
  ci_dials :: dials
  ci_nack :: bool
  ci_ack :: bool
  ci_arrival :: "nat list"
  ci_up :: "nat \<Rightarrow> bool"
  ci_before :: "(nat \<times> bool) list"
  ci_after :: "(nat \<times> bool) list"

fun run_goroutines :: "pg \<Rightarrow> (nat \<times> bool) list \<Rightarrow> repo_call list list \<Rightarrow> database \<Rightarrow> repo_call list list \<times> database" where
  "run_goroutines P [] pending db = (pending, db)"
| "run_goroutines P ((i, up) # schedule) pending db =
     (if i < length pending then
        (case pending ! i of
           [] \<Rightarrow> run_goroutines P schedule pending db
         | call # calls \<Rightarrow> run_goroutines P schedule (pending[i := calls]) (run_call P up call db))
      else run_goroutines P schedule pending db)"

fun go_map :: "('a \<Rightarrow> 'b go) \<Rightarrow> 'a list \<Rightarrow> 'b list go" where
  "go_map f [] = Inr []"
| "go_map f (x # xs) = go_bind (f x) (\<lambda>y. go_bind (go_map f xs) (\<lambda>ys. Inr (y # ys)))"

text \<open>
  The body of the worker's loop on a received message: the verdict, whether the loop continues, the
  database, and the outcomes of the transactions. A panic of a transaction's goroutine ends the process. The insertion only
  touches the swaps and the goroutines only the tokens, so their statements commute with its attempts.
\<close>

definition deliver ::
  "ext \<Rightarrow> 'm ws_json option \<Rightarrow> pg \<Rightarrow> ('b \<Rightarrow> block_data option) \<Rightarrow> circumstances \<Rightarrow> 'b \<Rightarrow> database \<Rightarrow>
     (verdict \<times> bool \<times> database \<times> 'm tx_outcome list) go" where
  "deliver E ws P unmarshal ci body db =
     (case unmarshal body of
        None \<Rightarrow> Inr (if ci_nack ci then Nacked else Unsettled, True, db, [])
      | Some blockData \<Rightarrow>
          go_bind (if ci_open ci then Inr True else reconnect (ci_dials ci)) (\<lambda>connected.
            if \<not> connected then Inr (Unsettled, False, db, [])
            else
              go_bind (go_map (\<lambda>tx. ProcessTransaction E ws tx (bl_Timestamp blockData) (bl_Block blockData) (bl_IgnoreWS blockData))
                (bl_Transactions blockData)) (\<lambda>outcomes.
                let swaps = concat (map (\<lambda>i. ou_swaps (outcomes ! i)) (ci_arrival ci));
                    (pending, db) = run_goroutines P (ci_before ci) (map ou_calls outcomes) db;
                    (inserted, db) = (if length swaps > 0 then insertBatch (InsertSwaps P) (ci_up ci) swaps db else (True, db));
                    db' = snd (run_goroutines P (ci_after ci) pending db)
                in if \<not> inserted then Inr (Unsettled, False, db', outcomes)
                   else Inr (if ci_ack ci then Acked else Unsettled, ci_ack ci, db', outcomes))))"

section \<open>Workers\<close>

text \<open>The wait group's counter; Done below zero panics.\<close>

definition wg_add :: "int \<Rightarrow> int \<Rightarrow> int go" where
  "wg_add n d = (if n + d < 0 then Inl PanicWaitGroup else Inr (n + d))"

record pool =
  po_workers :: "int set"
  po_counter :: int
  po_running :: int

definition startWorker :: "int \<Rightarrow> pool \<Rightarrow> pool go" where
  "startWorker workerID p = go_bind (wg_add (po_counter p) 1) (\<lambda>n.
     Inr (p\<lparr>po_workers := insert workerID (po_workers p), po_counter := n, po_running := po_running p + 1\<rparr>))"

text \<open>Only cancels: the goroutine ends when it next looks at its context.\<close>

definition stopWorker :: "int \<Rightarrow> pool \<Rightarrow> pool" where
  "stopWorker workerID p = p\<lparr>po_workers := po_workers p - {workerID}\<rparr>"

text \<open>A worker's goroutine ends: the deferred Done of solanaWorker, then that of startWorker's goroutine.\<close>

definition end_worker :: "pool \<Rightarrow> pool go" where
  "end_worker p =
     go_bind (wg_add (po_counter p) (- 1)) (\<lambda>n.
     go_bind (wg_add n (- 1)) (\<lambda>n. Inr (p\<lparr>po_counter := n, po_running := po_running p - 1\<rparr>)))"

definition workers :: int where
  "workers = 200"

text \<open>ListenToSolanaQueue up to its Wait: the workers, then the declaration and the consumer, whose failure is fatal.\<close>

definition ListenToSolanaQueue :: "bool \<Rightarrow> bool \<Rightarrow> pool go" where
  "ListenToSolanaQueue declare consume =
     go_bind (go_fold (\<lambda>p i. startWorker i p) \<lparr>po_workers = {}, po_counter = 0, po_running = 0\<rparr> (map int [0..<nat workers])) (\<lambda>p.
       if \<not> declare then Inl Fatal else if \<not> consume then Inl Fatal else Inr p)"

text \<open>Wait returns when the counter is zero.\<close>

definition wait_returns :: "pool \<Rightarrow> bool" where
  "wait_returns p \<longleftrightarrow> po_counter p = 0"

fun end_workers :: "nat \<Rightarrow> pool \<Rightarrow> pool go" where
  "end_workers 0 p = Inr p"
| "end_workers (Suc k) p = go_bind (end_worker p) (end_workers k)"

section \<open>The encoder\<close>

text \<open>The parts of a delivery that got as far as the insertion.\<close>

lemma deliver_parts:
  assumes "deliver E ws P unmarshal ci body db = Inr (v, continue, db', outcomes)" "unmarshal body = Some b"
  shows "(v = Unsettled \<and> \<not> continue \<and> db' = db \<and> outcomes = []) \<or>
    (\<exists>pending db1 inserted db2.
       go_map (\<lambda>tx. ProcessTransaction E ws tx (bl_Timestamp b) (bl_Block b) (bl_IgnoreWS b)) (bl_Transactions b) = Inr outcomes \<and>
       run_goroutines P (ci_before ci) (map ou_calls outcomes) db = (pending, db1) \<and>
       (let swaps = concat (map (\<lambda>i. ou_swaps (outcomes ! i)) (ci_arrival ci))
        in if length swaps > 0 then insertBatch (InsertSwaps P) (ci_up ci) swaps db1 else (True, db1)) = (inserted, db2) \<and>
       db' = snd (run_goroutines P (ci_after ci) pending db2) \<and>
       v = (if inserted \<and> ci_ack ci then Acked else Unsettled) \<and> (continue \<longleftrightarrow> inserted \<and> ci_ack ci))"
proof -
  obtain connected where c: "(if ci_open ci then Inr True else reconnect (ci_dials ci)) = Inr connected"
    using assms by (auto simp: deliver_def go_bind_ok)
  show ?thesis
  proof (cases connected)
    case False
    then show ?thesis using assms c by (simp add: deliver_def)
  next
    case True
    obtain ous where o: "go_map (\<lambda>tx. ProcessTransaction E ws tx (bl_Timestamp b) (bl_Block b) (bl_IgnoreWS b)) (bl_Transactions b) = Inr ous"
      using assms c True by (auto simp: deliver_def go_bind_ok)
    obtain pending db1 where r: "run_goroutines P (ci_before ci) (map ou_calls ous) db = (pending, db1)" by (rule prod.exhaust)
    let ?swaps = "concat (map (\<lambda>i. ou_swaps (ous ! i)) (ci_arrival ci))"
    obtain ins db2 where i: "(if length ?swaps > 0 then insertBatch (InsertSwaps P) (ci_up ci) ?swaps db1 else (True, db1)) = (ins, db2)"
      by (rule prod.exhaust)
    have "(if \<not> ins then Inr (Unsettled, False, snd (run_goroutines P (ci_after ci) pending db2), ous)
        else Inr (if ci_ack ci then Acked else Unsettled, ci_ack ci, snd (run_goroutines P (ci_after ci) pending db2), ous)) =
      (Inr (v, continue, db', outcomes) :: (_ \<times> _ \<times> _ \<times> _) go)"
      using assms(1) unfolding deliver_def assms(2) option.case
      by (simp only: c True go_bind_Inr o r i Let_def prod.case not_True_eq_False if_False)
    then have "outcomes = ous \<and> db' = snd (run_goroutines P (ci_after ci) pending db2) \<and>
        v = (if ins \<and> ci_ack ci then Acked else Unsettled) \<and> (continue \<longleftrightarrow> ins \<and> ci_ack ci)"
      by (auto split: if_splits)
    then show ?thesis using o r i unfolding Let_def by blast
  qed
qed

lemma run_call_others: "db_swaps (run_call P up c db) = db_swaps db \<and> db_blocks (run_call P up c db) = db_blocks db \<and>
    db_pairs (run_call P up c db) = db_pairs db"
  by (cases c) (simp_all add: run_call_def InsertToken_def UpdateTokenSupply_def update_tokens_def Let_def split: option.split)

lemma goroutines_others:
  assumes "run_goroutines P schedule pending db = (pending', db')"
  shows "db_swaps db' = db_swaps db" "db_blocks db' = db_blocks db" "db_pairs db' = db_pairs db"
  using assms by (induction P schedule pending db rule: run_goroutines.induct) (simp_all add: run_call_others split: if_splits list.splits)

lemma snd_goroutines_swaps [simp]: "db_swaps (snd (run_goroutines P schedule pending db)) = db_swaps db"
  using goroutines_others(1) by (metis prod.collapse)

text \<open>Only a message that cannot be read is rejected.\<close>

lemma nacked_unreadable:
  assumes "deliver E ws P unmarshal ci body db = Inr (Nacked, c, db', outcomes)"
  shows "unmarshal body = None"
proof (rule ccontr)
  assume "unmarshal body \<noteq> None"
  then obtain b where "unmarshal body = Some b" by blast
  from deliver_parts [OF assms this] show False by (auto split: if_splits)
qed

text \<open>
  What the two ends of the queue assume of the generated code: a block that fits is encoded, and
  the decoder reads from the message what \<open>survives\<close>.
\<close>

locale block_codec =
  fixes marshal :: "block_data \<Rightarrow> 'b option" and unmarshal :: "'b \<Rightarrow> block_data option"
    and fits :: "block_data \<Rightarrow> bool" and survives :: "block_data \<Rightarrow> block_data"
  assumes round_trip: "fits b \<Longrightarrow> \<exists>j. marshal b = Some j \<and> unmarshal j = Some (survives b)"
begin

lemma published_is_read:
  assumes "fits b" "qs_open q" "bk_declare bk" "bk_publish bk"
  shows "\<exists>j. AddToSolanaQueue marshal dials bk b q = Inr (q\<lparr>qs_open := True, qs_messages := qs_messages q @ [j]\<rparr>) \<and>
     unmarshal j = Some (survives b)"
proof -
  obtain j where "marshal b = Some j" "unmarshal j = Some (survives b)" using round_trip [OF assms(1)] by blast
  then show ?thesis using assms(2-4) by (intro exI [of _ j]) (simp add: AddToSolanaQueue_def)
qed

text \<open>Whatever is published, the worker that reads it gets the surviving block, and rejects nothing.\<close>

lemma never_nacked:
  assumes "fits b" "marshal b = Some j" "deliver E ws P unmarshal ci j db = Inr (v, c, db', outcomes)"
  shows "v \<noteq> Nacked"
proof -
  have "unmarshal j = Some (survives b)" using round_trip [OF assms(1)] assms(2) by auto
  then show ?thesis using nacked_unreadable assms(3) by force
qed

end

section \<open>Lemmas\<close>

text \<open>The client's side of the contract \<open>swap_store\<close>.\<close>

context swap_store begin

lemma attempts_outcome:
  assumes "insert_attempts insert_swaps ups swaps s = (r, s')"
  shows "(r \<and> (\<exists>up. insert_swaps up swaps s = (None, s'))) \<or> (\<not> r \<and> s' = s)"
  using assms
proof (induction ups)
  case (Cons up ups)
  obtain e t where e: "insert_swaps up swaps s = (e, t)" by (rule prod.exhaust)
  show ?case
  proof (cases e)
    case None
    then show ?thesis using Cons.prems e by auto
  next
    case (Some err)
    have "t = s" using failed e Some by blast
    then show ?thesis using Cons.prems Cons.IH e Some by auto
  qed
qed simp

lemma attempts_succeed:
  assumes "up \<in> set ups" "fst (insert_swaps up swaps s) = None"
  shows "fst (insert_attempts insert_swaps ups swaps s)"
  using assms(1)
proof (induction ups)
  case (Cons u ups)
  obtain e t where e: "insert_swaps u swaps s = (e, t)" by (rule prod.exhaust)
  show ?case
  proof (cases e)
    case None
    then show ?thesis using e by simp
  next
    case (Some err)
    then have "t = s" "up \<in> set ups" using failed e Cons.prems assms(2) by auto
    then show ?thesis using Cons.IH e Some by simp
  qed
qed simp

lemma attempts_fail:
  assumes "\<And>up. fst (insert_swaps up swaps s) \<noteq> None"
  shows "insert_attempts insert_swaps ups swaps s = (False, s)"
proof (induction ups)
  case (Cons u ups)
  obtain e t where e: "insert_swaps u swaps s = (e, t)" by (rule prod.exhaust)
  obtain err where err: "e = Some err" using assms [of u] e by auto
  then have "t = s" using failed e by blast
  then show ?case using Cons e err by simp
qed simp

end

lemma go_map_nth:
  assumes "go_map f xs = Inr ys"
  shows "length ys = length xs" "i < length xs \<Longrightarrow> f (xs ! i) = Inr (ys ! i)"
  using assms
proof (induction xs arbitrary: ys i)
  case (Cons x xs)
  {
    case 1
    then show ?case using Cons.IH(1) by (auto simp: go_bind_ok)
  next
    case 2
    then show ?case using Cons.IH(2) by (cases i) (auto simp: go_bind_ok)
  }
qed simp_all

text \<open>\<open>arrival\<close> is an order of the results of \<open>n\<close> transactions.\<close>

definition is_order :: "nat list \<Rightarrow> nat \<Rightarrow> bool" where
  "is_order arrival n \<longleftrightarrow> distinct arrival \<and> set arrival = {..<n}"

lemma order_swaps:
  assumes "is_order arrival (length ous)"
  shows "set (concat (map (\<lambda>i. ou_swaps (ous ! i)) arrival)) = (\<Union>ou \<in> set ous. set (ou_swaps ou))"
proof -
  have "set ous = (\<lambda>i. ous ! i) ` set arrival" using assms by (auto simp: is_order_def set_conv_nth)
  then show ?thesis by simp
qed

lemma deliver_acked:
  assumes "deliver E ws P unmarshal ci body db = Inr (Acked, c, db', outcomes)"
  obtains blockData swaps up db1 db2 where "unmarshal body = Some blockData"
    "go_map (\<lambda>tx. ProcessTransaction E ws tx (bl_Timestamp blockData) (bl_Block blockData) (bl_IgnoreWS blockData))
       (bl_Transactions blockData) = Inr outcomes"
    "swaps = concat (map (\<lambda>i. ou_swaps (outcomes ! i)) (ci_arrival ci))" "InsertSwaps P up swaps db1 = (None, db2)"
    "db_swaps db1 = db_swaps db" "db_swaps db' = db_swaps db2"
proof -
  obtain blockData where b: "unmarshal body = Some blockData"
    using assms by (cases "unmarshal body") (auto simp: deliver_def split: if_splits)
  define swaps where "swaps = concat (map (\<lambda>i. ou_swaps (outcomes ! i)) (ci_arrival ci))"
  obtain pending db1 inserted db2 where o: "go_map (\<lambda>tx. ProcessTransaction E ws tx (bl_Timestamp blockData) (bl_Block blockData)
      (bl_IgnoreWS blockData)) (bl_Transactions blockData) = Inr outcomes"
    and r: "run_goroutines P (ci_before ci) (map ou_calls outcomes) db = (pending, db1)"
    and i: "(if length swaps > 0 then insertBatch (InsertSwaps P) (ci_up ci) swaps db1 else (True, db1)) = (inserted, db2)"
    and v: "db' = snd (run_goroutines P (ci_after ci) pending db2)" "Acked = (if inserted \<and> ci_ack ci then Acked else Unsettled)"
    using deliver_parts [OF assms b] unfolding swaps_def Let_def by blast
  have "inserted" using v(2) by (auto split: if_splits)
  have "\<exists>up. InsertSwaps P up swaps db1 = (None, db2)"
  proof (cases "swaps = []")
    case True
    then show ?thesis using i \<open>inserted\<close> by (simp add: InsertSwaps_def)
  next
    case False
    then have "insert_attempts (InsertSwaps P) (map (ci_up ci) [0..<maxRetries]) swaps db1 = (True, db2)"
      using i \<open>inserted\<close> by (simp add: insertBatch_def)
    then show ?thesis using timescale.attempts_outcome by blast
  qed
  then show ?thesis using that [OF b o swaps_def] goroutines_others(1) [OF r] v(1) by (metis snd_goroutines_swaps)
qed

section \<open>Properties\<close>

context swap_store begin

lemma covered_adds_nothing:
  assumes "insert_swaps up swaps s = (None, s')" "swap_key ` set swaps \<subseteq> swap_key ` set (stored s)"
    and "distinct (map swap_key (stored s))"
  shows "stored s' = stored s"
proof -
  obtain extra where e: "stored s' = stored s @ extra" using kept [OF assms(1)] by blast
  have "distinct (map swap_key (stored s @ extra))" using distinct_keys [OF assms(1,3)] e by simp
  moreover have "swap_key ` set (stored s @ extra) = swap_key ` set (stored s)"
    using keys [OF assms(1)] assms(2) e by (simp add: Un_absorb2)
  then have "swap_key ` set extra \<subseteq> swap_key ` set (stored s)" by (simp only: set_append image_Un) blast
  ultimately have "extra = []" by (cases extra) auto
  then show ?thesis using e by simp
qed

end

lemma acked_stored:
  assumes "deliver E ws P unmarshal ci body db = Inr (Acked, continue, db', outcomes)" "unmarshal body = Some blockData"
    and "is_order (ci_arrival ci) (length (bl_Transactions blockData))"
  shows "set (db_swaps db) \<subseteq> set (db_swaps db') \<and>
     (\<forall>tx \<in> set (bl_Transactions blockData). \<exists>ou.
        ProcessTransaction E ws tx (bl_Timestamp blockData) (bl_Block blockData) (bl_IgnoreWS blockData) = Inr ou \<and>
        (\<forall>s \<in> set (ou_swaps ou). \<exists>r \<in> set (db_swaps db'). swap_key r = swap_key s))"
proof -
  obtain swaps up db1 db2 where d: "go_map (\<lambda>tx. ProcessTransaction E ws tx (bl_Timestamp blockData) (bl_Block blockData) (bl_IgnoreWS blockData))
       (bl_Transactions blockData) = Inr outcomes"
    "swaps = concat (map (\<lambda>i. ou_swaps (outcomes ! i)) (ci_arrival ci))" "InsertSwaps P up swaps db1 = (None, db2)"
    "db_swaps db1 = db_swaps db" "db_swaps db' = db_swaps db2"
    using deliver_acked [OF assms(1)] assms(2) by (metis option.inject)
  have all: "set swaps = (\<Union>ou \<in> set outcomes. set (ou_swaps ou))"
    using order_swaps [of "ci_arrival ci" outcomes] assms(3) go_map_nth(1) [OF d(1)] d(2) by simp
  have "\<exists>ou. ProcessTransaction E ws tx (bl_Timestamp blockData) (bl_Block blockData) (bl_IgnoreWS blockData) = Inr ou \<and>
        (\<forall>s \<in> set (ou_swaps ou). \<exists>r \<in> set (db_swaps db'). swap_key r = swap_key s)"
    if tx: "tx \<in> set (bl_Transactions blockData)" for tx
  proof -
    obtain i where i: "i < length (bl_Transactions blockData)" "tx = bl_Transactions blockData ! i" using tx by (auto simp: in_set_conv_nth)
    have "outcomes ! i \<in> set outcomes" using i(1) go_map_nth(1) [OF d(1)] by simp
    then show ?thesis
      using go_map_nth(2) [OF d(1) i(1)] timescale.stored_key [OF d(3)] i(2) unfolding all d(5) by blast
  qed
  then show ?thesis using timescale.kept [OF d(3)] d(4,5) by auto
qed

text \<open>
  C7: A message is acknowledged only when everything in it is stored: every transaction of the block was
  processed and every swap of it has a row with its key, and no stored row is lost.
\<close>

theorem deliver_acked_stored:
  assumes "deliver E ws P unmarshal ci body db = Inr (Acked, continue, db', outcomes)" "unmarshal body = Some blockData"
    and "is_order (ci_arrival ci) (length (bl_Transactions blockData))"
  shows "set (db_swaps db) \<subseteq> set (db_swaps db') \<and>
     (\<forall>tx \<in> set (bl_Transactions blockData). \<exists>ou.
        ProcessTransaction E ws tx (bl_Timestamp blockData) (bl_Block blockData) (bl_IgnoreWS blockData) = Inr ou \<and>
        (\<forall>s \<in> set (ou_swaps ou). \<exists>r \<in> set (db_swaps db'). swap_key r = swap_key s))"
  by (rule acked_stored [OF assms])

text \<open>
  C32: The order in which the goroutines deliver their results, and the schedule of the statements they leave running, do not matter for
  the swaps that are stored, and a message delivered again after it was acknowledged stores no swap again: two acknowledged
  deliveries store the same keys, and the second of two in a row leaves the table of swaps as it is.
\<close>

theorem deliver_order_irrelevant:
  assumes "deliver E ws P unmarshal ci body db = Inr (Acked, c1, db1, o1)" "deliver E ws P unmarshal ci' body db = Inr (Acked, c2, db2, o2)"
    and "deliver E ws P unmarshal ci' body db1 = Inr (Acked, c3, db3, o3)"
    and "unmarshal body = Some blockData" "db_ok db"
    and "is_order (ci_arrival ci) (length (bl_Transactions blockData))" "is_order (ci_arrival ci') (length (bl_Transactions blockData))"
  shows "swap_key ` set (db_swaps db1) = swap_key ` set (db_swaps db2) \<and> db_swaps db3 = db_swaps db1"
proof -
  let ?run = "go_map (\<lambda>tx. ProcessTransaction E ws tx (bl_Timestamp blockData) (bl_Block blockData) (bl_IgnoreWS blockData))
      (bl_Transactions blockData)"
  let ?all = "\<lambda>os. \<Union>ou \<in> set os. set (ou_swaps ou)"
  have step: "\<exists>up swaps e e'. ?run = Inr os \<and> set swaps = ?all os \<and> InsertSwaps P up swaps e = (None, e') \<and>
      db_swaps e = db_swaps d \<and> db_swaps d' = db_swaps e'"
    if dl: "deliver E ws P unmarshal k body d = Inr (Acked, c, d', os)" and k: "is_order (ci_arrival k) (length (bl_Transactions blockData))"
    for k d c d' os
  proof -
    obtain swaps up e e' where r: "?run = Inr os" "swaps = concat (map (\<lambda>i. ou_swaps (os ! i)) (ci_arrival k))"
      "InsertSwaps P up swaps e = (None, e')" "db_swaps e = db_swaps d" "db_swaps d' = db_swaps e'"
      using deliver_acked [OF dl] assms(4) by (metis option.inject)
    have "set swaps = ?all os" using order_swaps [of "ci_arrival k" os] k go_map_nth(1) [OF r(1)] r(2) by simp
    then show ?thesis using r(1,3-5) by blast
  qed
  obtain u1 s1 e1 f1 where 1: "?run = Inr o1" "set s1 = ?all o1" "InsertSwaps P u1 s1 e1 = (None, f1)"
    "db_swaps e1 = db_swaps db" "db_swaps db1 = db_swaps f1" using step [OF assms(1,6)] by blast
  obtain u2 s2 e2 f2 where 2: "?run = Inr o2" "set s2 = ?all o2" "InsertSwaps P u2 s2 e2 = (None, f2)"
    "db_swaps e2 = db_swaps db" "db_swaps db2 = db_swaps f2" using step [OF assms(2,7)] by blast
  obtain u3 s3 e3 f3 where 3: "?run = Inr o3" "set s3 = ?all o3" "InsertSwaps P u3 s3 e3 = (None, f3)"
    "db_swaps e3 = db_swaps db1" "db_swaps db3 = db_swaps f3" using step [OF assms(3,7)] by blast
  have same: "set s2 = set s1" "set s3 = set s1" using 1 2 3 by auto
  have k1: "swap_key ` set (db_swaps db1) = swap_key ` set (db_swaps db) \<union> swap_key ` set s1"
    using timescale.keys [OF 1(3)] 1(4,5) by simp
  have "distinct (map swap_key (db_swaps e3))"
    using timescale.distinct_keys [OF 1(3)] assms(5) 1(4,5) 3(4) by (simp add: db_ok_def)
  then have "db_swaps f3 = db_swaps e3"
    by (rule timescale.covered_adds_nothing [OF 3(3), rotated]) (use k1 same(2) 3(4) in auto)
  then show ?thesis using k1 timescale.keys [OF 2(3)] same(1) 2(4,5) 3(4,5) by simp
qed

definition acceptable :: "pg \<Rightarrow> swap_log list \<Rightarrow> bool" where
  "acceptable P swaps \<longleftrightarrow> 11 * length swaps \<le> pg_max_params P \<and>
     list_all (\<lambda>s. int4 (uint (sl_BlockNumber s)) \<and> list_all (pg_text_ok P) (swap_texts s)) swaps"

lemma placeholders_length: "length (concat (swap_placeholders swaps)) = 11 * length swaps"
proof -
  have "length (concat (swap_placeholders swaps)) = sum_list (map length (swap_placeholders swaps))" by (simp add: length_concat)
  also have "map length (swap_placeholders swaps) = map (\<lambda>_. 11) (enumerate 0 swaps)"
    by (auto simp: swap_placeholders_def swap_columns_def)
  finally show ?thesis by (simp add: sum_list_triv)
qed

lemma acceptable_inserts: "acceptable P swaps \<Longrightarrow> fst (InsertSwaps P True swaps db) = None"
  by (simp add: InsertSwaps_def acceptable_def placeholders_length)

text \<open>
  A block gets through: when its transactions can be processed, the server accepts its swaps, the
  connection is open and delivers at least one of the three attempts, and the broker takes the ack,
  the message is acknowledged.
\<close>

lemma deliver_progress:
  assumes "unmarshal body = Some blockData" "ci_open ci" "ci_ack ci"
    and "go_map (\<lambda>tx. ProcessTransaction E ws tx (bl_Timestamp blockData) (bl_Block blockData) (bl_IgnoreWS blockData))
      (bl_Transactions blockData) = Inr outcomes"
    and "acceptable P (concat (map (\<lambda>i. ou_swaps (outcomes ! i)) (ci_arrival ci)))" "k < maxRetries" "ci_up ci k"
  shows "\<exists>db'. deliver E ws P unmarshal ci body db = Inr (Acked, True, db', outcomes)"
proof -
  let ?swaps = "concat (map (\<lambda>i. ou_swaps (outcomes ! i)) (ci_arrival ci))"
  obtain pending db1 where r: "run_goroutines P (ci_before ci) (map ou_calls outcomes) db = (pending, db1)" by (rule prod.exhaust)
  have "True \<in> set (map (ci_up ci) [0..<maxRetries])" using assms(6,7) by force
  then have "fst (insertBatch (InsertSwaps P) (ci_up ci) ?swaps db1)"
    unfolding insertBatch_def by (rule timescale.attempts_succeed) (rule acceptable_inserts [OF assms(5)])
  then obtain db2 where i: "insertBatch (InsertSwaps P) (ci_up ci) ?swaps db1 = (True, db2)" by (metis (full_types) prod.collapse)
  show ?thesis
    by (simp add: deliver_def assms(1-4) Let_def r i del: length_concat concat_eq_Nil_conv length_greater_0_conv split: if_splits)
qed

text \<open>
  A block with more swaps than one statement has parameters for is never acknowledged: all three
  attempts fail whatever the connection does, and the worker that received it ends.
\<close>

lemma deliver_oversized:
  assumes "unmarshal body = Some blockData" "ci_open ci"
    and "go_map (\<lambda>tx. ProcessTransaction E ws tx (bl_Timestamp blockData) (bl_Block blockData) (bl_IgnoreWS blockData))
      (bl_Transactions blockData) = Inr outcomes"
    and "pg_max_params P < 11 * length (concat (map (\<lambda>i. ou_swaps (outcomes ! i)) (ci_arrival ci)))"
  shows "\<exists>db'. deliver E ws P unmarshal ci body db = Inr (Unsettled, False, db', outcomes) \<and> db_swaps db' = db_swaps db"
proof -
  let ?swaps = "concat (map (\<lambda>i. ou_swaps (outcomes ! i)) (ci_arrival ci))"
  obtain pending db1 where r: "run_goroutines P (ci_before ci) (map ou_calls outcomes) db = (pending, db1)" by (rule prod.exhaust)
  have n: "length ?swaps > 0" using assms(4) by (cases "length ?swaps = 0") simp_all
  have "fst (InsertSwaps P up ?swaps db1) \<noteq> None" for up
    using n assms(4) unfolding InsertSwaps_def placeholders_length by simp
  then have i: "insertBatch (InsertSwaps P) (ci_up ci) ?swaps db1 = (False, db1)"
    unfolding insertBatch_def by (rule timescale.attempts_fail)
  have "deliver E ws P unmarshal ci body db = Inr (Unsettled, False, snd (run_goroutines P (ci_after ci) pending db1), outcomes)"
    using n by (simp add: deliver_def assms(1-3) Let_def r i del: length_concat concat_eq_Nil_conv length_greater_0_conv)
  then show ?thesis using goroutines_others(1) [OF r] by simp
qed

section \<open>Workers\<close>

lemma start_all:
  "0 \<le> po_counter p \<Longrightarrow> go_fold (\<lambda>p i. startWorker i p) p is =
     Inr (p\<lparr>po_workers := po_workers p \<union> set is, po_counter := po_counter p + int (length is), po_running := po_running p + int (length is)\<rparr>)"
  by (induction "is" arbitrary: p) (auto simp: startWorker_def wg_add_def)

lemma end_some: "2 * int k \<le> po_counter p \<Longrightarrow> end_workers k p = Inr (p\<lparr>po_counter := po_counter p - 2 * int k, po_running := po_running p - int k\<rparr>)"
  by (induction k arbitrary: p) (auto simp: end_worker_def wg_add_def)

lemma end_workers_snoc: "end_workers (Suc k) p = go_bind (end_workers k p) end_worker"
proof (induction k arbitrary: p)
  case 0
  show ?case by (cases "end_worker p") simp_all
next
  case (Suc k)
  have "end_workers (Suc (Suc k)) p = go_bind (end_worker p) (end_workers (Suc k))" by simp
  also have "\<dots> = go_bind (end_worker p) (\<lambda>q. go_bind (end_workers k q) end_worker)"
    by (rule arg_cong [where f = "go_bind (end_worker p)"]) (rule ext, rule Suc)
  finally show ?case by (simp add: go_bind_assoc)
qed

text \<open>
  C33: Every worker that ends counts twice: after a hundred of the two hundred workers have ended, Wait returns
  although a hundred are running, and the end of one more panics the process.
\<close>

theorem workers_counted_twice:
  "\<exists>p q. ListenToSolanaQueue True True = Inr p \<and> po_running p = 200 \<and>
     end_workers 100 p = Inr q \<and> wait_returns q \<and> po_running q = 100 \<and>
     end_workers 101 p = Inl PanicWaitGroup"
proof -
  let ?p = "\<lparr>po_workers = set (map int [0..<200]), po_counter = 200, po_running = 200\<rparr>"
  let ?q = "\<lparr>po_workers = set (map int [0..<200]), po_counter = 0, po_running = 100\<rparr>"
  have p: "ListenToSolanaQueue True True = Inr ?p"
    unfolding ListenToSolanaQueue_def by (subst start_all) (simp_all add: workers_def)
  have q: "end_workers 100 ?p = Inr ?q" by (subst end_some) simp_all
  have "end_workers (Suc 100) ?p = Inl PanicWaitGroup"
    unfolding end_workers_snoc q by (simp add: end_worker_def wg_add_def)
  then have "end_workers 101 ?p = Inl PanicWaitGroup" by (simp add: numeral_eq_Suc del: end_workers.simps)
  then show ?thesis using p q by (intro exI [of _ ?p] exI [of _ ?q]) (simp add: wait_returns_def)
qed

text \<open>The loop of reconnect is never entered twice: connectToRabbitMQ ends the process where it would retry.\<close>

lemma reconnect_once: "reconnect dials = (if fst (dials 0) \<and> snd (dials 0) then Inr True else Inl Fatal)"
  by (cases "dials 0") (simp add: reconnect_def connectToRabbitMQ_def numeral_eq_Suc)

section \<open>Witnesses\<close>

definition sample_outcome :: "swap_log list tx_outcome" where
  "sample_outcome = \<lparr>ou_swaps = [sample_log], ou_effects = \<lparr>ef_tokens = [''mint''], ef_pairs = [(''pool'', ''mint'')]\<rparr>,
     ou_messages = [], ou_calls = []\<rparr>"

definition sample_block :: block_data where
  "sample_block = \<lparr>bl_Transactions = [sample_tx], bl_Timestamp = 100, bl_Block = 7, bl_IgnoreWS = False\<rparr>"

definition sample_unmarshal :: "unit \<Rightarrow> block_data option" where
  "sample_unmarshal body = Some sample_block"

definition good_day :: circumstances where
  "good_day = \<lparr>ci_open = True, ci_dials = (\<lambda>_. (True, True)), ci_nack = True, ci_ack = True, ci_arrival = [0], ci_up = (\<lambda>k. k = 2),
     ci_before = [(0, True)], ci_after = [(0, False), (0, True)]\<rparr>"

lemma sample_processed: "ProcessTransaction sample_ext (None :: swap_log list ws_json option) sample_tx 100 7 False = Inr sample_outcome"
proof -
  have l: "GetLogs (case tm_LogMessages (tx_Meta sample_tx) of None \<Rightarrow> [] | Some ls \<Rightarrow> ls) = Inr []" by code_simp
  have "HandlePumpFunNewToken sample_ext [] PUMPFUN = Inr []" by (simp add: HandlePumpFunNewToken_def)
  then show ?thesis
    by (simp add: ProcessTransaction_def sample_parsed l sample_handled broadcasts_def token_calls_def sample_outcome_def)
qed

lemma sample_block_processed:
  "go_map (\<lambda>tx. ProcessTransaction sample_ext (None :: swap_log list ws_json option) tx (bl_Timestamp sample_block) (bl_Block sample_block)
     (bl_IgnoreWS sample_block)) (bl_Transactions sample_block) = Inr [sample_outcome]"
  by (simp add: sample_block_def sample_processed)

lemma sample_order: "is_order [0] (length (bl_Transactions sample_block))"
  by (auto simp: is_order_def sample_block_def)

definition stored_db :: database where
  "stored_db = empty_db\<lparr>db_swaps := [sample_log]\<rparr>"

lemma sample_log_row [simp]: "swap_row sample_log = sample_log"
  by (simp add: swap_row_def sample_log_def)

lemma sample_insert: "InsertSwaps plain_pg True [sample_log] empty_db = (None, stored_db)"
  by (simp add: InsertSwaps_def placeholders_length plain_pg_def int4_def swap_texts_def add_swap_row_def empty_db_def stored_db_def)
    (simp add: sample_log_def)

lemma sample_insert_again: "InsertSwaps plain_pg True [sample_log] stored_db = (None, stored_db)"
  by (simp add: InsertSwaps_def placeholders_length plain_pg_def int4_def swap_texts_def add_swap_row_def stored_db_def empty_db_def)
    (simp add: sample_log_def)

lemma down_insert: "InsertSwaps P False [sample_log] db = (Some DbDown, db)"
  by (simp add: InsertSwaps_def)

lemma good_day_batch:
  "InsertSwaps plain_pg True [sample_log] db = (None, db') \<Longrightarrow>
     insertBatch (InsertSwaps plain_pg) (ci_up good_day) [sample_log] db = (True, db')"
  by (simp add: insertBatch_def maxRetries_def good_day_def numeral_eq_Suc down_insert)

lemma sample_delivery:
  "InsertSwaps plain_pg True [sample_log] db = (None, db') \<Longrightarrow>
   deliver sample_ext (None :: swap_log list ws_json option) plain_pg sample_unmarshal good_day () db =
     Inr (Acked, True, db', [sample_outcome])"
  using good_day_batch [of db db']
  by (simp add: deliver_def sample_unmarshal_def sample_block_processed) (simp add: good_day_def sample_outcome_def)

lemma deliver_acked_stored_witness:
  "set (db_swaps empty_db) \<subseteq> set (db_swaps stored_db) \<and> (\<exists>r \<in> set (db_swaps stored_db). swap_key r = swap_key sample_log)"
proof -
  have o: "is_order (ci_arrival good_day) (length (bl_Transactions sample_block))"
    using sample_order by (simp add: good_day_def)
  have "sample_unmarshal () = Some sample_block" by (simp add: sample_unmarshal_def)
  note all = deliver_acked_stored [OF sample_delivery [OF sample_insert] this o]
  have "sample_tx \<in> set (bl_Transactions sample_block)" by (simp add: sample_block_def)
  from bspec [OF all [THEN conjunct2] this] all [THEN conjunct1] show ?thesis
    by (auto simp: sample_block_def sample_processed sample_outcome_def)
qed

text \<open>Two transactions, whose goroutines deliver their results in either order and with different luck.\<close>

definition twin_block :: block_data where
  "twin_block = sample_block\<lparr>bl_Transactions := [sample_tx, sample_tx]\<rparr>"

definition other_day :: circumstances where
  "other_day = good_day\<lparr>ci_arrival := [1, 0], ci_up := (\<lambda>_. True), ci_before := [], ci_after := [(1, True)]\<rparr>"

definition first_day :: circumstances where
  "first_day = good_day\<lparr>ci_arrival := [0, 1]\<rparr>"

lemma twin_insert: "InsertSwaps plain_pg up [sample_log, sample_log] empty_db = (if up then (None, stored_db) else (Some DbDown, empty_db))"
    "InsertSwaps plain_pg up [sample_log, sample_log] stored_db = (if up then (None, stored_db) else (Some DbDown, stored_db))"
  by (simp_all add: InsertSwaps_def placeholders_length plain_pg_def int4_def swap_texts_def add_swap_row_def empty_db_def stored_db_def)
    (simp_all add: sample_log_def)

lemma twin_delivery:
  assumes "ci = first_day \<or> ci = other_day" "db = empty_db \<or> db = stored_db"
  shows "deliver sample_ext (None :: swap_log list ws_json option) plain_pg (\<lambda>_ :: unit. Some twin_block) ci () db =
    Inr (Acked, True, stored_db, [sample_outcome, sample_outcome])"
proof -
  have block: "go_map (\<lambda>tx. ProcessTransaction sample_ext (None :: swap_log list ws_json option) tx (bl_Timestamp twin_block) (bl_Block twin_block)
      (bl_IgnoreWS twin_block)) (bl_Transactions twin_block) = Inr [sample_outcome, sample_outcome]"
    by (simp add: twin_block_def sample_block_def sample_processed)
  have "insertBatch (InsertSwaps plain_pg) (ci_up ci) [sample_log, sample_log] db = (True, stored_db)"
    using assms by (auto simp: insertBatch_def maxRetries_def first_day_def other_day_def good_day_def numeral_eq_Suc twin_insert)
  then show ?thesis
    using assms(1) by (auto simp: deliver_def block) (simp_all add: first_day_def other_day_def good_day_def sample_outcome_def)
qed

lemma deliver_order_irrelevant_witness:
  "let worker = deliver sample_ext (None :: swap_log list ws_json option) plain_pg (\<lambda>_ :: unit. Some twin_block)
   in worker other_day () stored_db = Inr (Acked, True, stored_db, [sample_outcome, sample_outcome]) \<and>
      swap_key ` set (db_swaps stored_db) = {swap_key sample_log}"
proof -
  have o: "is_order (ci_arrival first_day) (length (bl_Transactions twin_block))" "is_order (ci_arrival other_day) (length (bl_Transactions twin_block))"
    by (auto simp: is_order_def first_day_def other_day_def good_day_def twin_block_def)
  note 1 = twin_delivery [OF disjI1 [OF refl] disjI1 [OF refl]] and 2 = twin_delivery [OF disjI2 [OF refl] disjI1 [OF refl]]
    and 3 = twin_delivery [OF disjI2 [OF refl] disjI2 [OF refl]]
  have "swap_key ` set (db_swaps stored_db) = {swap_key sample_log}" by (simp add: stored_db_def)
  then show ?thesis using deliver_order_irrelevant [OF 1 2 3 refl empty_db_ok o] 3 by (simp add: Let_def)
qed

lemma deliver_progress_witness:
  "\<exists>db'. deliver sample_ext (None :: swap_log list ws_json option) plain_pg sample_unmarshal good_day () empty_db =
     Inr (Acked, True, db', [sample_outcome])"
proof (rule deliver_progress [where k = 2 and blockData = sample_block])
  show "acceptable plain_pg (concat (map (\<lambda>i. ou_swaps ([sample_outcome] ! i)) (ci_arrival good_day)))"
    by (simp add: good_day_def sample_outcome_def acceptable_def plain_pg_def int4_def swap_texts_def) (simp add: sample_log_def)
qed (simp_all only: sample_block_processed, simp_all add: sample_unmarshal_def good_day_def maxRetries_def)

lemma deliver_oversized_witness:
  "\<exists>db'. deliver sample_ext (None :: swap_log list ws_json option) (plain_pg\<lparr>pg_max_params := 10\<rparr>) sample_unmarshal good_day () empty_db =
     Inr (Unsettled, False, db', [sample_outcome]) \<and> db_swaps db' = db_swaps empty_db"
proof (rule deliver_oversized [where blockData = sample_block])
  show "pg_max_params (plain_pg\<lparr>pg_max_params := 10\<rparr>) < 11 * length (concat (map (\<lambda>i. ou_swaps ([sample_outcome] ! i)) (ci_arrival good_day)))"
    by (simp add: good_day_def sample_outcome_def)
qed (simp_all only: sample_block_processed, simp_all add: sample_unmarshal_def good_day_def)

end
