(* ===== verification/Backfill.thy ===== *)
theory Backfill
  imports Queue
begin

text \<open>
  The backfill (internal/solana/backfill.go, node.go and cmd/backfill): the retried request to a node,
  the round robin over the nodes, and the loop that fetches, marks and queues the missing blocks.
  What a node answers and whether the broker and the database take what they are sent is passed in.
\<close>

section \<open>Requests to a node\<close>

text \<open>The outcome of one request: an error, or a response with its status and body.\<close>

datatype 'r reply = RequestError | Response int 'r

text \<open>The response and the error sendRequestWithRetry returns; both are nil after an answer that is not 200.\<close>

fun send_loop :: "'r reply list \<Rightarrow> bool \<Rightarrow> 'r reply option \<times> bool" where
  "send_loop [] err = (None, err)"
| "send_loop (r # rs) err =
     (case r of
        RequestError \<Rightarrow> send_loop rs True
      | Response status body \<Rightarrow> if status = 200 then (Some r, False) else send_loop rs False)"

definition sendRequestWithRetry :: "(nat \<Rightarrow> 'r reply) \<Rightarrow> nat \<Rightarrow> 'r reply option \<times> bool" where
  "sendRequestWithRetry replies retries = send_loop (map replies [0..<retries]) False"

text \<open>
  A block message as decoded: the result and the error object, each possibly absent. \<open>None\<close> in the
  value of GetBlockMessage is its error return; \<open>decode\<close> is the generated decoder.
\<close>

record block_result =
  br_BlockTime :: int
  br_ParentSlot :: int
  br_Transactions :: "solana_tx list"

record block_error =
  be_Code :: int
  be_Message :: string

record block_message =
  bm_Result :: "block_result option"
  bm_Error :: "block_error option"

definition GetBlockMessage :: "('r \<Rightarrow> block_message option) \<Rightarrow> (nat \<Rightarrow> 'r reply) \<Rightarrow> block_message option" where
  "GetBlockMessage decode replies =
     (case sendRequestWithRetry replies 3 of
        (_, True) \<Rightarrow> None
      | (None, False) \<Rightarrow> None
      | (Some RequestError, False) \<Rightarrow> None
      | (Some (Response status body), False) \<Rightarrow> if status \<noteq> 200 then None else decode body)"

section \<open>The backfill of a range\<close>

text \<open>What happens at each block number: the node's answer, the mark, the broker.\<close>

record ('r, 'b) surroundings =
  su_replies :: "nat \<Rightarrow> int \<Rightarrow> nat \<Rightarrow> 'r reply"
  su_decode :: "'r \<Rightarrow> block_message option"
  su_mark_up :: "int \<Rightarrow> bool"
  su_dials :: "int \<Rightarrow> dials"
  su_broker :: "int \<Rightarrow> broker"
  su_marshal :: "block_data \<Rightarrow> 'b option"

type_synonym 'b fill_state = "database \<times> 'b queue_state"

text \<open>
  The loop body. The remainder of a negative block number is negative and no index; an error of the
  request ends the process; a result that is absent is dereferenced.
\<close>

definition backfill_block ::
  "('r, 'b) surroundings \<Rightarrow> nat \<Rightarrow> bool \<Rightarrow> int \<Rightarrow> 'b fill_state \<Rightarrow> 'b fill_state go" where
  "backfill_block su nodes ignoreWS i = (\<lambda>(db, q).
     if nodes = 0 then Inl PanicDivZero
     else if i < 0 \<and> i mod int nodes \<noteq> 0 then Inl PanicIndex
     else
       (case GetBlockMessage (su_decode su) (su_replies su (nat (i mod int nodes)) i) of
          None \<Rightarrow> Inl Fatal
        | Some block \<Rightarrow>
            let db = snd (MarkBlockProcessed (su_mark_up su i) i db) in
            (case bm_Error block of
               Some e \<Rightarrow> Inr (db, q)
             | None \<Rightarrow>
                 (case bm_Result block of
                    None \<Rightarrow> Inl PanicNil
                  | Some result \<Rightarrow>
                      go_bind (AddToSolanaQueue (su_marshal su) (su_dials su i) (su_broker su i)
                          \<lparr>bl_Transactions = br_Transactions result, bl_Timestamp = br_BlockTime result,
                            bl_Block = word_of_int i, bl_IgnoreWS = ignoreWS\<rparr> q) (\<lambda>q.
                        Inr (db, q))))))"

text \<open>\<open>slot\<close> is the answer to GetSlot, used when toBlock is 0; the first component is the returned error.\<close>

definition HandleBackFill ::
  "('r, 'b) surroundings \<Rightarrow> nat \<Rightarrow> int option \<Rightarrow> int \<Rightarrow> int \<Rightarrow> bool \<Rightarrow> 'b fill_state \<Rightarrow> (bool \<times> 'b fill_state) go" where
  "HandleBackFill su nodes slot startBlock toBlock ignoreWS st =
     (let range = (\<lambda>to. go_bind (go_fold (\<lambda>st i. backfill_block su nodes ignoreWS i st) st [startBlock..to]) (\<lambda>st. Inr (False, st))) in
      if toBlock = 0 then (case slot of None \<Rightarrow> Inr (True, st) | Some s \<Rightarrow> range s)
      else range toBlock)"

text \<open>NewBackfillService: the comma separated node list; an empty one is fatal.\<close>

definition backfill_nodes :: "string \<Rightarrow> string list go" where
  "backfill_nodes env = (if env \<noteq> [] then Inr (str_split env '','') else Inl Fatal)"

section \<open>The main loop\<close>

text \<open>
  One round of cmd/backfill: the missing ranges, each backfilled without the websocket by the single
  worker; \<open>None\<close> when there was nothing to do and the program sleeps.
\<close>

definition backfill_range :: "('r, 'b) surroundings \<Rightarrow> nat \<Rightarrow> int option \<Rightarrow> 'b fill_state \<Rightarrow> int list \<Rightarrow> 'b fill_state go" where
  "backfill_range su nodes slot st blockRange =
     (if length blockRange = 2
      then go_bind (idx blockRange 0) (\<lambda>a. go_bind (idx blockRange 1) (\<lambda>b.
        go_bind (HandleBackFill su nodes slot a b True st) (\<lambda>(err, st). Inr st)))
      else Inr st)"

definition backfill_round :: "('r, 'b) surroundings \<Rightarrow> nat \<Rightarrow> int option \<Rightarrow> bool \<Rightarrow> 'b fill_state \<Rightarrow> 'b fill_state option go" where
  "backfill_round su nodes slot up st =
     (case FindMissingBlocks up (fst st) of
        Inl e \<Rightarrow> Inl Fatal
      | Inr blocks \<Rightarrow>
          if length blocks = 0 then Inr None
          else go_bind (go_fold (backfill_range su nodes slot) st blocks) (\<lambda>st. Inr (Some st)))"

section \<open>Lemmas\<close>

lemma send_loop_result: "send_loop rs err = (Some r, e) \<Longrightarrow> \<exists>body. r = Response 200 body"
  by (induction rs arbitrary: err) (auto split: reply.splits if_splits)

text \<open>The blocks a run marks: every one whose statement is delivered and whose number fits the column.\<close>

definition marks :: "('r, 'b) surroundings \<Rightarrow> int \<Rightarrow> bool" where
  "marks su i \<longleftrightarrow> su_mark_up su i \<and> int4 i"

lemma backfill_block_marks:
  assumes "backfill_block su nodes ignoreWS i (db, q) = Inr (db', q')"
  shows "set (db_blocks db') = set (db_blocks db) \<union> (if marks su i then {i} else {})"
proof -
  have "db' = snd (MarkBlockProcessed (su_mark_up su i) i db)"
    using assms by (auto simp: backfill_block_def Let_def go_bind_ok split: if_splits option.splits)
  then show ?thesis by (auto simp: MarkBlockProcessed_def marks_def)
qed

lemma backfill_blocks_mark:
  assumes "go_fold (\<lambda>st i. backfill_block su nodes ignoreWS i st) st is = Inr st'"
  shows "set (db_blocks (fst st')) = set (db_blocks (fst st)) \<union> {i \<in> set is. marks su i}"
  using assms
proof (induction "is" arbitrary: st)
  case (Cons i "is")
  obtain st1 where s: "backfill_block su nodes ignoreWS i st = Inr st1" "go_fold (\<lambda>st i. backfill_block su nodes ignoreWS i st) st1 is = Inr st'"
    using Cons.prems by (auto simp: go_bind_ok)
  have "set (db_blocks (fst st1)) = set (db_blocks (fst st)) \<union> (if marks su i then {i} else {})"
    using backfill_block_marks [of su nodes ignoreWS i "fst st" "snd st" "fst st1" "snd st1"] s(1) by simp
  then show ?case using Cons.IH [OF s(2)] by auto
qed simp

lemma HandleBackFill_marks:
  assumes "HandleBackFill su nodes slot a b ignoreWS st = Inr (err, st')" "b \<noteq> 0"
  shows "set (db_blocks (fst st')) = set (db_blocks (fst st)) \<union> {i. a \<le> i \<and> i \<le> b \<and> marks su i}"
proof -
  have "go_fold (\<lambda>st i. backfill_block su nodes ignoreWS i st) st [a..b] = Inr st'"
    using assms by (auto simp: HandleBackFill_def Let_def go_bind_ok)
  from backfill_blocks_mark [OF this] show ?thesis by auto
qed

lemma rounds_mark:
  assumes "go_fold (backfill_range su nodes slot) st rs = Inr st'"
    and "\<forall>r \<in> set rs. length r = 2 \<and> r ! 1 \<noteq> 0"
  shows "set (db_blocks (fst st')) = set (db_blocks (fst st)) \<union> {i. in_ranges i rs \<and> marks su i}"
  using assms
proof (induction rs arbitrary: st)
  case (Cons r rs)
  obtain err st1 where s: "HandleBackFill su nodes slot (r ! 0) (r ! 1) True st = Inr (err, st1)"
    "go_fold (backfill_range su nodes slot) st1 rs = Inr st'"
    using Cons.prems by (auto simp: go_bind_ok backfill_range_def [of _ _ _ st] idx_def)
  show ?case using HandleBackFill_marks [OF s(1)] Cons.IH [OF s(2)] Cons.prems(2) by auto
qed simp

section \<open>Properties\<close>

text \<open>
  C19: The backfill comes to rest: when every block number it meets can be marked, one round that runs to the end
  leaves no block missing, and the next one finds nothing to do.
\<close>

theorem backfill_rests:
  assumes "backfill_round su nodes slot True st = Inr (Some st')" "\<forall>i. 0 < i \<and> i < 2 ^ 31 \<longrightarrow> su_mark_up su i"
    and "\<forall>i \<in> set (db_blocks (fst st)). 0 \<le> i \<and> i < 2 ^ 31"
  shows "FindMissingBlocks True (fst st') = Inr [] \<and> backfill_round su nodes slot True st' = Inr None"
proof -
  obtain rs where rs: "FindMissingBlocks True (fst st) = Inr rs"
    using assms(1) by (auto simp: backfill_round_def split: sum.splits)
  let ?B = "set (db_blocks (fst st)) - {0}"
  have B: "usable_blocks (fst st) = ?B" using assms(3) by (auto simp: usable_blocks_def)
  have missing: "in_ranges n rs \<longleftrightarrow> n \<notin> ?B \<and> (\<exists>a \<in> ?B. a < n) \<and> (\<exists>b \<in> ?B. n < b)" for n
    unfolding B [symmetric] by (rule range_members [OF rs])
  have shape: "length r = 2" "r ! 0 \<le> r ! 1" if "r \<in> set rs" for r
    using range_shape [OF rs] that by auto
  have inside: "in_ranges (r ! 1) rs" if "r \<in> set rs" for r
    using shape(2) [OF that] that by (auto simp: in_ranges_def)
  have pos: "0 < n \<and> n < 2 ^ 31" if m: "in_ranges n rs" for n
  proof -
    obtain a b where "a \<in> ?B" "a < n" "b \<in> ?B" "n < b" using m unfolding missing by blast
    then have "0 \<le> a" "b < 2 ^ 31" using assms(3) by auto
    then show ?thesis using \<open>a < n\<close> \<open>n < b\<close> by linarith
  qed
  have "r ! 1 \<noteq> 0" if "r \<in> set rs" for r using pos [OF inside [OF that]] by simp
  then have ok: "\<forall>r \<in> set rs. length r = 2 \<and> r ! 1 \<noteq> 0" using shape(1) by blast
  have "set (db_blocks (fst st')) = set (db_blocks (fst st)) \<union> {i. in_ranges i rs \<and> marks su i}"
    by (rule rounds_mark [OF _ ok]) (use assms(1) rs in \<open>auto simp: backfill_round_def go_bind_ok split: if_splits\<close>)
  moreover have "marks su i" if "in_ranges i rs" for i using pos [OF that] assms(2) by (auto simp: marks_def int4_def)
  ultimately have after: "set (db_blocks (fst st')) = set (db_blocks (fst st)) \<union> {i. in_ranges i rs}" by blast
  have nonneg: "0 \<le> i" if i: "i \<in> set (db_blocks (fst st'))" for i
    using i assms(3) pos [of i] unfolding after by auto
  have zero: "\<not> in_ranges 0 rs" using pos [of 0] by auto
  have "usable_blocks (fst st') = set (db_blocks (fst st')) - {0}"
    unfolding usable_blocks_def Let_def using nonneg by (intro if_P ballI)
  then have B': "usable_blocks (fst st') = ?B \<union> {i. in_ranges i rs}" unfolding after using zero by blast
  have "\<exists>rs'. FindMissingBlocks True (fst st') = Inr rs'" by (simp add: FindMissingBlocks_def Let_def)
  then obtain rs' where rs': "FindMissingBlocks True (fst st') = Inr rs'" by blast
  have "\<not> in_ranges n rs'" for n
  proof
    assume "in_ranges n rs'"
    then have n: "n \<notin> ?B" "\<not> in_ranges n rs" "\<exists>a \<in> ?B \<union> {i. in_ranges i rs}. a < n" "\<exists>b \<in> ?B \<union> {i. in_ranges i rs}. n < b"
      unfolding range_members [OF rs'] B' by auto
    obtain a where a: "a \<in> ?B \<or> in_ranges a rs" "a < n" using n(3) by blast
    obtain b where b: "b \<in> ?B \<or> in_ranges b rs" "n < b" using n(4) by blast
    have "\<exists>a' \<in> ?B. a' < n"
      using a missing [of a] by (cases "a \<in> ?B") (blast, meson order.strict_trans)
    moreover have "\<exists>b' \<in> ?B. n < b'"
      using b missing [of b] by (cases "b \<in> ?B") (blast, meson order.strict_trans)
    ultimately show False using n(1,2) missing [of n] by blast
  qed
  then have "rs' = []" using range_shape [OF rs'] by (cases rs') (auto simp: in_ranges_def)
  then show ?thesis using rs' by (simp add: backfill_round_def)
qed

text \<open>
  C35: A block that was fetched but could not be published is lost: it is marked as processed all the same, so
  it is not among the missing blocks of any later round.
\<close>

theorem backfill_loses_block:
  assumes "backfill_block su nodes ignoreWS i (db, q) = Inr (db', q')" "marks su i"
    and "qs_open q" "\<not> bk_declare (su_broker su i) \<or> \<not> bk_publish (su_broker su i)"
  shows "q' = q \<and> i \<in> set (db_blocks db') \<and> (\<forall>rs. FindMissingBlocks True db' = Inr rs \<longrightarrow> \<not> in_ranges i rs)"
proof -
  have q: "AddToSolanaQueue (su_marshal su) (su_dials su i) (su_broker su i) b q = Inr q" for b
    using assms(3,4) by (cases "su_marshal su b") (auto simp: AddToSolanaQueue_def Let_def)
  have "q' = q"
    using assms(1) by (auto simp: backfill_block_def Let_def q split: if_splits option.splits)
  moreover have i: "i \<in> set (db_blocks db')" using backfill_block_marks [OF assms(1)] assms(2) by simp
  moreover have "\<not> in_ranges i rs" if "FindMissingBlocks True db' = Inr rs" for rs
  proof
    assume "in_ranges i rs"
    then have "i \<notin> usable_blocks db'" "\<exists>a \<in> usable_blocks db'. a < i" unfolding range_members [OF that] by auto
    then show False using i by (auto simp: usable_blocks_def Let_def split: if_splits)
  qed
  ultimately show ?thesis by blast
qed

text \<open>A node that answers three times with another status than 200 ends the program: the error is nil, the response too.\<close>

lemma backfill_fatal:
  assumes "0 < nodes" "0 \<le> i"
    and "\<And>k. \<exists>status body. su_replies su (nat (i mod int nodes)) i k = Response status body \<and> status \<noteq> 200"
  shows "backfill_block su nodes ignoreWS i st = Inl Fatal"
proof -
  have "send_loop (map (su_replies su (nat (i mod int nodes)) i) ks) False = (None, False)" for ks
    by (induction ks) (use assms(3) in \<open>auto split: reply.splits\<close>, metis reply.distinct(1), metis reply.inject)
  then show ?thesis using assms(1,2)
    by (cases st) (simp add: backfill_block_def GetBlockMessage_def sendRequestWithRetry_def)
qed

section \<open>Witnesses\<close>

definition skipped_su :: "(unit, unit) surroundings" where
  "skipped_su = \<lparr>su_replies = (\<lambda>_ _ _. Response 200 ()), su_decode = (\<lambda>_. Some \<lparr>bm_Result = None, bm_Error = Some \<lparr>be_Code = - 32009, be_Message = []\<rparr>\<rparr>),
     su_mark_up = (\<lambda>_. True), su_dials = (\<lambda>_ _. (True, True)), su_broker = (\<lambda>_. \<lparr>bk_declare = True, bk_publish = True\<rparr>),
     su_marshal = (\<lambda>_. Some ())\<rparr>"

definition deaf_su :: "(unit, unit) surroundings" where
  "deaf_su = skipped_su\<lparr>su_decode := (\<lambda>_. Some \<lparr>bm_Result = Some \<lparr>br_BlockTime = 5, br_ParentSlot = 4, br_Transactions = []\<rparr>, bm_Error = None\<rparr>),
     su_broker := (\<lambda>_. \<lparr>bk_declare = True, bk_publish = False\<rparr>)\<rparr>"

definition open_queue :: "unit queue_state" where
  "open_queue = \<lparr>qs_open = True, qs_messages = []\<rparr>"

lemma skipped_step:
  "0 \<le> i \<Longrightarrow> backfill_block skipped_su (Suc 0) True i (db, q) = Inr (snd (MarkBlockProcessed True i db), q)"
  by (simp add: backfill_block_def GetBlockMessage_def sendRequestWithRetry_def skipped_su_def upt_rec)

lemma blocks_missing: "FindMissingBlocks True blocks_db = Inr [[6, 8]]"
  by code_simp

lemma skipped_round: "backfill_round skipped_su 1 None True (blocks_db, open_queue) =
    Inr (Some (blocks_db\<lparr>db_blocks := [9, 0, 3, 5, 4, 6, 7, 8]\<rparr>, open_queue))"
proof -
  have r: "[6..8] = [6, 7, 8 :: int]" by code_simp
  show ?thesis
    by (simp add: backfill_round_def blocks_missing backfill_range_def idx_def HandleBackFill_def r skipped_step)
      (simp add: MarkBlockProcessed_def int4_def blocks_db_def empty_db_def)
qed

lemma backfill_rests_witness:
  "FindMissingBlocks True (blocks_db\<lparr>db_blocks := [9, 0, 3, 5, 4, 6, 7, 8]\<rparr>) = Inr []"
  using backfill_rests [OF skipped_round] by (simp add: skipped_su_def blocks_db_def empty_db_def)

lemma backfill_loses_block_witness:
  "\<exists>db'. backfill_block deaf_su 1 True 7 (blocks_db, open_queue) = Inr (db', open_queue) \<and> 7 \<in> set (db_blocks db')"
proof -
  have step: "backfill_block deaf_su 1 True 7 (blocks_db, open_queue) = Inr (snd (MarkBlockProcessed True 7 blocks_db), open_queue)"
    by (simp add: backfill_block_def GetBlockMessage_def sendRequestWithRetry_def deaf_su_def skipped_su_def upt_rec
        AddToSolanaQueue_def open_queue_def)
  have "marks deaf_su 7" "qs_open open_queue" "\<not> bk_declare (su_broker deaf_su 7) \<or> \<not> bk_publish (su_broker deaf_su 7)"
    by (simp_all add: marks_def deaf_su_def skipped_su_def int4_def open_queue_def)
  from backfill_loses_block [OF step this] step show ?thesis by blast
qed

end
