(* ===== verification/Codec.thy ===== *)
theory Codec
  imports Json Backfill
begin

text \<open>
  The generated encoders and decoders (internal/types/sol_easyjson.go) of the messages on the queue and
  of the answers of a node. A decoder updates the struct it is given, as the generated code does; a
  slice that is nil and one that is empty are the same list, written here as \<open>[]\<close> (the decoders read
  the \<open>null\<close> of a nil slice as the same list). The lemmas show that decoding inverts encoding.
\<close>

section \<open>Token balances\<close>

definition decode_UITokenAmount :: "json \<Rightarrow> ui_token_amount \<Rightarrow> ui_token_amount option" where
  "decode_UITokenAmount = decode_object (\<lambda>key v out.
     if key = ''amount'' then map_option (\<lambda>x. out\<lparr>ta_Amount := x\<rparr>) (lex_string v)
     else if key = ''decimals'' then map_option (\<lambda>x. out\<lparr>ta_Decimals := x\<rparr>) (lex_int v)
     else if key = ''uiAmount'' then map_option (\<lambda>x. out\<lparr>ta_UiAmount := x\<rparr>) (lex_float v)
     else if key = ''uiAmountString'' then map_option (\<lambda>x. out\<lparr>ta_UiAmountString := x\<rparr>) (lex_string v)
     else Some out)"

definition encode_UITokenAmount :: "ui_token_amount \<Rightarrow> json" where
  "encode_UITokenAmount v = JObj [(''amount'', JStr (ta_Amount v)), (''decimals'', JNum (int_text (ta_Decimals v))),
     (''uiAmount'', JNum (float_text (ta_UiAmount v))), (''uiAmountString'', JStr (ta_UiAmountString v))]"

definition zero_UITokenAmount :: ui_token_amount where
  "zero_UITokenAmount = \<lparr>ta_Amount = [], ta_Decimals = 0, ta_UiAmount = Fin 0, ta_UiAmountString = []\<rparr>"

definition decode_TokenBalance :: "json \<Rightarrow> token_balance \<Rightarrow> token_balance option" where
  "decode_TokenBalance = decode_object (\<lambda>key v out.
     if key = ''accountIndex'' then map_option (\<lambda>x. out\<lparr>tb_AccountIndex := x\<rparr>) (lex_int v)
     else if key = ''mint'' then map_option (\<lambda>x. out\<lparr>tb_Mint := x\<rparr>) (lex_string v)
     else if key = ''owner'' then map_option (\<lambda>x. out\<lparr>tb_Owner := x\<rparr>) (lex_string v)
     else if key = ''programId'' then map_option (\<lambda>x. out\<lparr>tb_ProgramId := x\<rparr>) (lex_string v)
     else if key = ''uiTokenAmount'' then map_option (\<lambda>x. out\<lparr>tb_UITokenAmount := x\<rparr>) (decode_UITokenAmount v (tb_UITokenAmount out))
     else Some out)"

definition encode_TokenBalance :: "token_balance \<Rightarrow> json" where
  "encode_TokenBalance v = JObj [(''accountIndex'', JNum (int_text (tb_AccountIndex v))), (''mint'', JStr (tb_Mint v)),
     (''owner'', JStr (tb_Owner v)), (''programId'', JStr (tb_ProgramId v)),
     (''uiTokenAmount'', encode_UITokenAmount (tb_UITokenAmount v))]"

definition zero_TokenBalance :: token_balance where
  "zero_TokenBalance = \<lparr>tb_AccountIndex = 0, tb_Mint = [], tb_Owner = [], tb_ProgramId = [], tb_UITokenAmount = zero_UITokenAmount\<rparr>"

section \<open>Instructions\<close>

definition decode_Instruction :: "json \<Rightarrow> instruction \<Rightarrow> instruction option" where
  "decode_Instruction = decode_object (\<lambda>key v out.
     if key = ''accounts'' then map_option (\<lambda>x. out\<lparr>ix_Accounts := x\<rparr>) (decode_slice lex_int v)
     else if key = ''data'' then map_option (\<lambda>x. out\<lparr>ix_Data := x\<rparr>) (lex_string v)
     else if key = ''programIdIndex'' then map_option (\<lambda>x. out\<lparr>ix_ProgramIdIndex := x\<rparr>) (lex_int v)
     else Some out)"

definition encode_Instruction :: "instruction \<Rightarrow> json" where
  "encode_Instruction v = JObj [(''accounts'', encode_slice (\<lambda>i. JNum (int_text i)) (ix_Accounts v)), (''data'', JStr (ix_Data v)),
     (''programIdIndex'', JNum (int_text (ix_ProgramIdIndex v)))]"

definition zero_Instruction :: instruction where
  "zero_Instruction = \<lparr>ix_Accounts = [], ix_Data = [], ix_ProgramIdIndex = 0\<rparr>"

definition decode_InnerInstruction :: "json \<Rightarrow> inner_instruction \<Rightarrow> inner_instruction option" where
  "decode_InnerInstruction = decode_object (\<lambda>key v out.
     if key = ''index'' then map_option (\<lambda>x. out\<lparr>ii_Index := x\<rparr>) (lex_int v)
     else if key = ''instructions'' then
       map_option (\<lambda>x. out\<lparr>ii_Instructions := x\<rparr>) (decode_slice (\<lambda>j. decode_Instruction j zero_Instruction) v)
     else Some out)"

definition encode_InnerInstruction :: "inner_instruction \<Rightarrow> json" where
  "encode_InnerInstruction v = JObj [(''index'', JNum (int_text (ii_Index v))),
     (''instructions'', encode_slice encode_Instruction (ii_Instructions v))]"

definition zero_InnerInstruction :: inner_instruction where
  "zero_InnerInstruction = \<lparr>ii_Index = 0, ii_Instructions = []\<rparr>"

definition decode_AddressTableLookup :: "json \<Rightarrow> address_table_lookup \<Rightarrow> address_table_lookup option" where
  "decode_AddressTableLookup = decode_object (\<lambda>key v out.
     if key = ''accountKey'' then map_option (\<lambda>x. out\<lparr>al_AccountKey := x\<rparr>) (lex_string v)
     else if key = ''readonlyIndexes'' then map_option (\<lambda>x. out\<lparr>al_ReadonlyIndexes := x\<rparr>) (decode_slice lex_int v)
     else if key = ''writableIndexes'' then map_option (\<lambda>x. out\<lparr>al_WritableIndexes := x\<rparr>) (decode_slice lex_int v)
     else Some out)"

definition encode_AddressTableLookup :: "address_table_lookup \<Rightarrow> json" where
  "encode_AddressTableLookup v = JObj [(''accountKey'', JStr (al_AccountKey v)),
     (''readonlyIndexes'', encode_slice (\<lambda>i. JNum (int_text i)) (al_ReadonlyIndexes v)),
     (''writableIndexes'', encode_slice (\<lambda>i. JNum (int_text i)) (al_WritableIndexes v))]"

definition zero_AddressTableLookup :: address_table_lookup where
  "zero_AddressTableLookup = \<lparr>al_AccountKey = [], al_ReadonlyIndexes = [], al_WritableIndexes = []\<rparr>"

definition decode_Message :: "json \<Rightarrow> message \<Rightarrow> message option" where
  "decode_Message = decode_object (\<lambda>key v out.
     if key = ''accountKeys'' then map_option (\<lambda>x. out\<lparr>ms_AccountKeys := x\<rparr>) (decode_slice lex_string v)
     else if key = ''addressTableLookups'' then
       map_option (\<lambda>x. out\<lparr>ms_AddressTableLookups := x\<rparr>) (decode_slice (\<lambda>j. decode_AddressTableLookup j zero_AddressTableLookup) v)
     else if key = ''instructions'' then
       map_option (\<lambda>x. out\<lparr>ms_Instructions := x\<rparr>) (decode_slice (\<lambda>j. decode_Instruction j zero_Instruction) v)
     else if key = ''recentBlockhash'' then map_option (\<lambda>x. out\<lparr>ms_RecentBlockhash := x\<rparr>) (lex_string v)
     else Some out)"

definition encode_Message :: "message \<Rightarrow> json" where
  "encode_Message v = JObj [(''accountKeys'', encode_slice JStr (ms_AccountKeys v)),
     (''addressTableLookups'', encode_slice encode_AddressTableLookup (ms_AddressTableLookups v)),
     (''instructions'', encode_slice encode_Instruction (ms_Instructions v)), (''recentBlockhash'', JStr (ms_RecentBlockhash v))]"

definition zero_Message :: message where
  "zero_Message = \<lparr>ms_AccountKeys = [], ms_AddressTableLookups = [], ms_Instructions = [], ms_RecentBlockhash = []\<rparr>"

definition decode_TransactionData :: "json \<Rightarrow> transaction_data \<Rightarrow> transaction_data option" where
  "decode_TransactionData = decode_object (\<lambda>key v out.
     if key = ''message'' then map_option (\<lambda>x. out\<lparr>td_Message := x\<rparr>) (decode_Message v (td_Message out))
     else if key = ''signatures'' then map_option (\<lambda>x. out\<lparr>td_Signatures := x\<rparr>) (decode_slice lex_string v)
     else Some out)"

definition encode_TransactionData :: "transaction_data \<Rightarrow> json" where
  "encode_TransactionData v = JObj [(''message'', encode_Message (td_Message v)), (''signatures'', encode_slice JStr (td_Signatures v))]"

definition zero_TransactionData :: transaction_data where
  "zero_TransactionData = \<lparr>td_Message = zero_Message, td_Signatures = []\<rparr>"

section \<open>Meta data\<close>

definition decode_LoadedAddresses :: "json \<Rightarrow> loaded_addresses \<Rightarrow> loaded_addresses option" where
  "decode_LoadedAddresses = decode_object (\<lambda>key v out.
     if key = ''readonly'' then map_option (\<lambda>x. out\<lparr>la_Readonly := x\<rparr>) (decode_slice lex_string v)
     else if key = ''writable'' then map_option (\<lambda>x. out\<lparr>la_Writable := x\<rparr>) (decode_slice lex_string v)
     else Some out)"

definition encode_LoadedAddresses :: "loaded_addresses \<Rightarrow> json" where
  "encode_LoadedAddresses v = JObj [(''readonly'', encode_slice JStr (la_Readonly v)), (''writable'', encode_slice JStr (la_Writable v))]"

definition zero_LoadedAddresses :: loaded_addresses where
  "zero_LoadedAddresses = \<lparr>la_Readonly = [], la_Writable = []\<rparr>"

text \<open>The array of two interface values: further elements are skipped, missing ones stay.\<close>

definition decode_TransactionError :: "json \<Rightarrow> json \<times> json \<Rightarrow> (json \<times> json) option" where
  "decode_TransactionError = decode_object (\<lambda>key v out.
     if key = ''InstructionError'' then
       (case v of
          JArr [] \<Rightarrow> Some out
        | JArr [a] \<Rightarrow> Some (a, snd out)
        | JArr (a # b # _) \<Rightarrow> Some (a, b)
        | _ \<Rightarrow> None)
     else Some out)"

definition encode_TransactionError :: "json \<times> json \<Rightarrow> json" where
  "encode_TransactionError v = JObj [(''InstructionError'', JArr [fst v, snd v])]"

definition zero_TransactionError :: "json \<times> json" where
  "zero_TransactionError = (JNull, JNull)"

definition decode_TransactionMeta :: "json \<Rightarrow> transaction_meta \<Rightarrow> transaction_meta option" where
  "decode_TransactionMeta = decode_object (\<lambda>key v out.
     if key = ''err'' then
       map_option (\<lambda>x. out\<lparr>tm_Err := Some x\<rparr>)
         (decode_TransactionError v (case tm_Err out of None \<Rightarrow> zero_TransactionError | Some e \<Rightarrow> e))
     else if key = ''fee'' then map_option (\<lambda>x. out\<lparr>tm_Fee := x\<rparr>) (lex_int v)
     else if key = ''innerInstructions'' then
       map_option (\<lambda>x. out\<lparr>tm_InnerInstructions := x\<rparr>) (decode_slice (\<lambda>j. decode_InnerInstruction j zero_InnerInstruction) v)
     else if key = ''logMessages'' then map_option (\<lambda>x. out\<lparr>tm_LogMessages := Some x\<rparr>) (decode_slice lex_string v)
     else if key = ''postBalances'' then map_option (\<lambda>x. out\<lparr>tm_PostBalances := x\<rparr>) (decode_slice lex_uint v)
     else if key = ''postTokenBalances'' then
       map_option (\<lambda>x. out\<lparr>tm_PostTokenBalances := x\<rparr>) (decode_slice (\<lambda>j. decode_TokenBalance j zero_TokenBalance) v)
     else if key = ''preBalances'' then map_option (\<lambda>x. out\<lparr>tm_PreBalances := x\<rparr>) (decode_slice lex_uint v)
     else if key = ''preTokenBalances'' then
       map_option (\<lambda>x. out\<lparr>tm_PreTokenBalances := x\<rparr>) (decode_slice (\<lambda>j. decode_TokenBalance j zero_TokenBalance) v)
     else if key = ''loadedAddresses'' then
       map_option (\<lambda>x. out\<lparr>tm_LoadedAddresses := x\<rparr>) (decode_LoadedAddresses v (tm_LoadedAddresses out))
     else Some out)"

definition encode_TransactionMeta :: "transaction_meta \<Rightarrow> json" where
  "encode_TransactionMeta v = JObj (
     (case tm_Err v of None \<Rightarrow> [] | Some e \<Rightarrow> [(''err'', encode_TransactionError e)]) @
     [(''fee'', JNum (int_text (tm_Fee v)))] @
     optional_slice ''innerInstructions'' encode_InnerInstruction (tm_InnerInstructions v) @
     optional_slice ''logMessages'' JStr (case tm_LogMessages v of None \<Rightarrow> [] | Some ls \<Rightarrow> ls) @
     [(''postBalances'', encode_slice (\<lambda>w. JNum (int_text (uint w))) (tm_PostBalances v))] @
     optional_slice ''postTokenBalances'' encode_TokenBalance (tm_PostTokenBalances v) @
     [(''preBalances'', encode_slice (\<lambda>w. JNum (int_text (uint w))) (tm_PreBalances v))] @
     optional_slice ''preTokenBalances'' encode_TokenBalance (tm_PreTokenBalances v) @
     [(''loadedAddresses'', encode_LoadedAddresses (tm_LoadedAddresses v))])"

definition zero_TransactionMeta :: transaction_meta where
  "zero_TransactionMeta = \<lparr>tm_Err = None, tm_Fee = 0, tm_InnerInstructions = [], tm_LogMessages = None, tm_PostBalances = [],
     tm_PostTokenBalances = [], tm_PreBalances = [], tm_PreTokenBalances = [], tm_LoadedAddresses = zero_LoadedAddresses\<rparr>"

section \<open>Blocks\<close>

definition decode_SolanaTx :: "json \<Rightarrow> solana_tx \<Rightarrow> solana_tx option" where
  "decode_SolanaTx = decode_object (\<lambda>key v out.
     if key = ''meta'' then map_option (\<lambda>x. out\<lparr>tx_Meta := x\<rparr>) (decode_TransactionMeta v (tx_Meta out))
     else if key = ''transaction'' then map_option (\<lambda>x. out\<lparr>tx_Transaction := x\<rparr>) (decode_TransactionData v (tx_Transaction out))
     else Some out)"

definition encode_SolanaTx :: "solana_tx \<Rightarrow> json" where
  "encode_SolanaTx v = JObj [(''meta'', encode_TransactionMeta (tx_Meta v)), (''transaction'', encode_TransactionData (tx_Transaction v))]"

definition zero_SolanaTx :: solana_tx where
  "zero_SolanaTx = \<lparr>tx_Meta = zero_TransactionMeta, tx_Transaction = zero_TransactionData\<rparr>"

definition decode_BlockData :: "json \<Rightarrow> block_data \<Rightarrow> block_data option" where
  "decode_BlockData = decode_object (\<lambda>key v out.
     if key = ''transactions'' then map_option (\<lambda>x. out\<lparr>bl_Transactions := x\<rparr>) (decode_slice (\<lambda>j. decode_SolanaTx j zero_SolanaTx) v)
     else if key = ''blockTime'' then map_option (\<lambda>x. out\<lparr>bl_Timestamp := x\<rparr>) (lex_int v)
     else if key = ''block'' then map_option (\<lambda>x. out\<lparr>bl_Block := x\<rparr>) (lex_uint v)
     else if key = ''ignoreWS'' then map_option (\<lambda>x. out\<lparr>bl_IgnoreWS := x\<rparr>) (lex_bool v)
     else Some out)"

definition encode_BlockData :: "block_data \<Rightarrow> json" where
  "encode_BlockData v = JObj [(''transactions'', encode_slice encode_SolanaTx (bl_Transactions v)),
     (''blockTime'', JNum (int_text (bl_Timestamp v))), (''block'', JNum (int_text (uint (bl_Block v)))), (''ignoreWS'', JBool (bl_IgnoreWS v))]"

definition zero_BlockData :: block_data where
  "zero_BlockData = \<lparr>bl_Transactions = [], bl_Timestamp = 0, bl_Block = 0, bl_IgnoreWS = False\<rparr>"

text \<open>The MarshalJSON and UnmarshalJSON that the queue calls.\<close>

definition BlockData_MarshalJSON :: "block_data \<Rightarrow> json option" where
  "BlockData_MarshalJSON v = Some (encode_BlockData v)"

definition BlockData_UnmarshalJSON :: "json \<Rightarrow> block_data option" where
  "BlockData_UnmarshalJSON j = decode_BlockData j zero_BlockData"

section \<open>Answers of a node\<close>

definition decode_BlockResult :: "json \<Rightarrow> block_result \<Rightarrow> block_result option" where
  "decode_BlockResult = decode_object (\<lambda>key v out.
     if key = ''blockTime'' then map_option (\<lambda>x. out\<lparr>br_BlockTime := x\<rparr>) (lex_int v)
     else if key = ''parentSlot'' then map_option (\<lambda>x. out\<lparr>br_ParentSlot := x\<rparr>) (lex_int v)
     else if key = ''transactions'' then
       map_option (\<lambda>x. out\<lparr>br_Transactions := x\<rparr>) (decode_slice (\<lambda>j. decode_SolanaTx j zero_SolanaTx) v)
     else Some out)"

definition zero_BlockResult :: block_result where
  "zero_BlockResult = \<lparr>br_BlockTime = 0, br_ParentSlot = 0, br_Transactions = []\<rparr>"

definition decode_block_error :: "json \<Rightarrow> block_error \<Rightarrow> block_error option" where
  "decode_block_error = decode_object (\<lambda>key v out.
     if key = ''code'' then map_option (\<lambda>x. out\<lparr>be_Code := x\<rparr>) (lex_int v)
     else if key = ''message'' then map_option (\<lambda>x. out\<lparr>be_Message := x\<rparr>) (lex_string v)
     else Some out)"

definition zero_block_error :: block_error where
  "zero_block_error = \<lparr>be_Code = 0, be_Message = []\<rparr>"

definition decode_HTTPBlockMessage :: "json \<Rightarrow> block_message \<Rightarrow> block_message option" where
  "decode_HTTPBlockMessage = decode_object (\<lambda>key v out.
     if key = ''result'' then
       map_option (\<lambda>x. out\<lparr>bm_Result := Some x\<rparr>)
         (decode_BlockResult v (case bm_Result out of None \<Rightarrow> zero_BlockResult | Some r \<Rightarrow> r))
     else if key = ''error'' then
       map_option (\<lambda>x. out\<lparr>bm_Error := Some x\<rparr>)
         (decode_block_error v (case bm_Error out of None \<Rightarrow> zero_block_error | Some e \<Rightarrow> e))
     else Some out)"

definition HTTPBlockMessage_decode :: "json \<Rightarrow> block_message option" where
  "HTTPBlockMessage_decode j = decode_HTTPBlockMessage j \<lparr>bm_Result = None, bm_Error = None\<rparr>"

definition decode_HTTPTxMessage :: "json \<Rightarrow> solana_tx \<Rightarrow> solana_tx option" where
  "decode_HTTPTxMessage = decode_object (\<lambda>key v out.
     if key = ''result'' then decode_SolanaTx v out else Some out)"

text \<open>GetTx of a node: a transaction that is not found is the zero value, not an error.\<close>

definition GetTx :: "(nat \<Rightarrow> json reply) \<Rightarrow> solana_tx option" where
  "GetTx replies =
     (case sendRequestWithRetry replies 3 of
        (_, True) \<Rightarrow> None
      | (None, False) \<Rightarrow> None
      | (Some RequestError, False) \<Rightarrow> None
      | (Some (Response status body), False) \<Rightarrow> if status \<noteq> 200 then None else decode_HTTPTxMessage body zero_SolanaTx)"

section \<open>Round trips\<close>

text \<open>Integers in 64 bits and floats in the normal range: the values the Go types hold.\<close>

definition int_ok :: "int \<Rightarrow> bool" where
  "int_ok n \<longleftrightarrow> - (2 ^ 63) \<le> n \<and> n < 2 ^ 63"

definition balance_fits :: "token_balance \<Rightarrow> bool" where
  "balance_fits b \<longleftrightarrow> int_ok (tb_AccountIndex b) \<and> int_ok (ta_Decimals (tb_UITokenAmount b)) \<and> float_ok (ta_UiAmount (tb_UITokenAmount b))"

definition instruction_fits :: "instruction \<Rightarrow> bool" where
  "instruction_fits i \<longleftrightarrow> list_all int_ok (ix_Accounts i) \<and> int_ok (ix_ProgramIdIndex i)"

definition inner_fits :: "inner_instruction \<Rightarrow> bool" where
  "inner_fits i \<longleftrightarrow> int_ok (ii_Index i) \<and> list_all instruction_fits (ii_Instructions i)"

definition lookup_fits :: "address_table_lookup \<Rightarrow> bool" where
  "lookup_fits a \<longleftrightarrow> list_all int_ok (al_ReadonlyIndexes a) \<and> list_all int_ok (al_WritableIndexes a)"

definition message_fits :: "message \<Rightarrow> bool" where
  "message_fits m \<longleftrightarrow> list_all lookup_fits (ms_AddressTableLookups m) \<and> list_all instruction_fits (ms_Instructions m)"

definition meta_fits :: "transaction_meta \<Rightarrow> bool" where
  "meta_fits m \<longleftrightarrow> int_ok (tm_Fee m) \<and> list_all inner_fits (tm_InnerInstructions m) \<and>
     list_all balance_fits (tm_PostTokenBalances m) \<and> list_all balance_fits (tm_PreTokenBalances m)"

definition tx_fits :: "solana_tx \<Rightarrow> bool" where
  "tx_fits tx \<longleftrightarrow> meta_fits (tx_Meta tx) \<and> message_fits (td_Message (tx_Transaction tx))"

definition block_fits :: "block_data \<Rightarrow> bool" where
  "block_fits b \<longleftrightarrow> list_all tx_fits (bl_Transactions b) \<and> int_ok (bl_Timestamp b)"

text \<open>What omitempty loses: an empty slice of log messages comes back as nil.\<close>

definition after_queue :: "solana_tx \<Rightarrow> solana_tx" where
  "after_queue tx = tx\<lparr>tx_Meta := (tx_Meta tx)\<lparr>tm_LogMessages := (if tm_LogMessages (tx_Meta tx) = Some [] then None else tm_LogMessages (tx_Meta tx))\<rparr>\<rparr>"

definition block_after_queue :: "block_data \<Rightarrow> block_data" where
  "block_after_queue b = b\<lparr>bl_Transactions := map after_queue (bl_Transactions b)\<rparr>"

lemma lex_int_fits [simp]: "int_ok n \<Longrightarrow> lex_int (JNum (int_text n)) = Some n"
  by (simp add: int_ok_def lex_int_text)

lemma decode_object_JObj: "decode_object f (JObj members) out = decode_fields f members out"
  by (simp add: decode_object_def)

lemma decode_fields_append:
  "decode_fields f (as @ bs) out = (case decode_fields f as out of None \<Rightarrow> None | Some out' \<Rightarrow> decode_fields f bs out')"
  by (induction as arbitrary: out) (auto split: option.splits if_splits)

lemma int_slices [simp]: "list_all int_ok is \<Longrightarrow> decode_slice lex_int (encode_slice (\<lambda>i. JNum (int_text i)) is) = Some is"
  by (rule slice_round_trip) (simp add: list_all_iff)

lemma uint_slices [simp]: "decode_slice lex_uint (encode_slice (\<lambda>w. JNum (int_text (uint w))) ws) = Some ws"
  by (rule slice_round_trip) simp

lemma string_slices [simp]: "decode_slice lex_string (encode_slice JStr ss) = Some ss"
  by (rule slice_round_trip) simp

lemma balance_round_trip: "balance_fits b \<Longrightarrow> decode_TokenBalance (encode_TokenBalance b) out = Some b"
  by (simp add: balance_fits_def decode_TokenBalance_def encode_TokenBalance_def decode_UITokenAmount_def encode_UITokenAmount_def
      decode_object_JObj lex_float_text)

lemma instruction_round_trip: "instruction_fits i \<Longrightarrow> decode_Instruction (encode_Instruction i) out = Some i"
  by (simp add: instruction_fits_def decode_Instruction_def encode_Instruction_def decode_object_JObj)

lemma instruction_slices:
  "list_all instruction_fits is \<Longrightarrow> decode_slice (\<lambda>j. decode_Instruction j zero_Instruction) (encode_slice encode_Instruction is) = Some is"
  by (rule slice_round_trip) (simp add: list_all_iff instruction_round_trip)

lemma inner_round_trip: "inner_fits i \<Longrightarrow> decode_InnerInstruction (encode_InnerInstruction i) out = Some i"
  by (simp add: inner_fits_def decode_InnerInstruction_def encode_InnerInstruction_def decode_object_JObj instruction_slices)

lemma lookup_round_trip: "lookup_fits a \<Longrightarrow> decode_AddressTableLookup (encode_AddressTableLookup a) out = Some a"
  by (simp add: lookup_fits_def decode_AddressTableLookup_def encode_AddressTableLookup_def decode_object_JObj)

lemma lookup_slices:
  "list_all lookup_fits as \<Longrightarrow> decode_slice (\<lambda>j. decode_AddressTableLookup j zero_AddressTableLookup) (encode_slice encode_AddressTableLookup as) = Some as"
  by (rule slice_round_trip) (simp add: list_all_iff lookup_round_trip)

lemma message_round_trip: "message_fits m \<Longrightarrow> decode_Message (encode_Message m) out = Some m"
  by (simp add: message_fits_def decode_Message_def encode_Message_def decode_object_JObj instruction_slices lookup_slices)

lemma encoded_not_null [simp]:
  "encode_Message m \<noteq> JNull" "encode_TransactionData d \<noteq> JNull" "encode_TransactionMeta t \<noteq> JNull" "encode_LoadedAddresses l \<noteq> JNull"
  "encode_TransactionError e \<noteq> JNull"
  by (simp_all add: encode_Message_def encode_TransactionData_def encode_TransactionMeta_def encode_LoadedAddresses_def encode_TransactionError_def)

lemma data_round_trip: "message_fits (td_Message d) \<Longrightarrow> decode_TransactionData (encode_TransactionData d) out = Some d"
  by (simp add: decode_TransactionData_def encode_TransactionData_def decode_object_JObj message_round_trip)

lemma addresses_round_trip: "decode_LoadedAddresses (encode_LoadedAddresses l) out = Some l"
  by (simp add: decode_LoadedAddresses_def encode_LoadedAddresses_def decode_object_JObj)

lemma error_round_trip: "decode_TransactionError (encode_TransactionError e) out = Some e"
  by (simp add: decode_TransactionError_def encode_TransactionError_def decode_object_JObj)

lemma meta_round_trip:
  assumes "meta_fits m"
  shows "decode_TransactionMeta (encode_TransactionMeta m) zero_TransactionMeta =
     Some (m\<lparr>tm_LogMessages := (if tm_LogMessages m = Some [] then None else tm_LogMessages m)\<rparr>)"
proof -
  have inner: "decode_slice (\<lambda>j. decode_InnerInstruction j zero_InnerInstruction) (encode_slice encode_InnerInstruction (tm_InnerInstructions m)) =
      Some (tm_InnerInstructions m)"
    by (rule slice_round_trip) (use assms in \<open>simp add: meta_fits_def list_all_iff inner_round_trip\<close>)
  have balances: "decode_slice (\<lambda>j. decode_TokenBalance j zero_TokenBalance) (encode_slice encode_TokenBalance bs) = Some bs"
    if "list_all balance_fits bs" for bs
    by (rule slice_round_trip) (use that in \<open>simp add: list_all_iff balance_round_trip\<close>)
  show ?thesis
    using assms unfolding meta_fits_def decode_TransactionMeta_def encode_TransactionMeta_def decode_object_JObj decode_fields_append
    by (cases "tm_Err m"; cases "tm_LogMessages m")
      (simp_all add: zero_TransactionMeta_def optional_slice_def inner balances error_round_trip addresses_round_trip)
qed

lemma tx_round_trip: "tx_fits tx \<Longrightarrow> decode_SolanaTx (encode_SolanaTx tx) zero_SolanaTx = Some (after_queue tx)"
  by (simp add: tx_fits_def decode_SolanaTx_def encode_SolanaTx_def decode_object_JObj zero_SolanaTx_def meta_round_trip data_round_trip after_queue_def)

lemma tx_slices:
  assumes "list_all tx_fits txs"
  shows "decode_slice (\<lambda>j. decode_SolanaTx j zero_SolanaTx) (encode_slice encode_SolanaTx txs) = Some (map after_queue txs)"
proof -
  have "those (map (\<lambda>tx. decode_SolanaTx (encode_SolanaTx tx) zero_SolanaTx) txs) = Some (map after_queue txs)"
    using assms by (induction txs) (simp_all add: tx_round_trip)
  then show ?thesis by (simp add: decode_slice_def encode_slice_def o_def)
qed

lemma block_round_trip:
  assumes "block_fits b"
  shows "\<exists>j. BlockData_MarshalJSON b = Some j \<and> BlockData_UnmarshalJSON j = Some (block_after_queue b)"
  using assms
  by (simp add: block_fits_def BlockData_MarshalJSON_def BlockData_UnmarshalJSON_def decode_BlockData_def encode_BlockData_def
      decode_object_JObj tx_slices block_after_queue_def)

interpretation codec: block_codec BlockData_MarshalJSON BlockData_UnmarshalJSON block_fits block_after_queue
  by unfold_locales (rule block_round_trip)

text \<open>
  C8: A block that is put on the queue comes off it unchanged: UnmarshalJSON of MarshalJSON gives back every transaction,
  the time, the block number and the websocket flag, for integers of 64 bits and floats in the
  normal range. Only an empty list of log messages comes back as nil.
\<close>

theorem BlockData_round_trip:
  assumes "block_fits b"
  shows "\<exists>j. BlockData_MarshalJSON b = Some j \<and> BlockData_UnmarshalJSON j = Some (block_after_queue b)"
  by (rule block_round_trip [OF assms])

text \<open>What survives once survives again: the block that comes off the queue is a fixed point.\<close>

lemma block_after_queue_idem: "block_after_queue (block_after_queue b) = block_after_queue b"
  by (simp add: block_after_queue_def after_queue_def)

text \<open>
  A member of the wrong shape fails the whole message. In particular the error of a transaction that
  is a string (a node reports several errors that way) fails the decoding of its block.
\<close>

lemma decode_fields_fails:
  assumes "(key, v) \<in> set members" "v \<noteq> JNull" "\<And>out. f key v out = None"
  shows "decode_fields f members out = None"
  using assms(1)
proof (induction members arbitrary: out)
  case (Cons m members)
  then show ?case using assms(2,3) by (cases m) (auto split: option.splits)
qed simp

lemma string_error_fails:
  assumes "(''err'', JStr e) \<in> set members"
  shows "decode_TransactionMeta (JObj members) out = None"
  unfolding decode_TransactionMeta_def decode_object_JObj
  by (rule decode_fields_fails [OF assms]) (simp_all add: decode_TransactionError_def decode_object_def)

lemma slice_fails: "j \<in> set js \<Longrightarrow> d j = None \<Longrightarrow> decode_slice d (JArr js) = None"
proof -
  assume "j \<in> set js" "d j = None"
  then have "those (map d js) = None" by (induction js) (auto split: option.splits)
  then show ?thesis by (simp add: decode_slice_def)
qed

lemma block_with_string_error_fails:
  assumes "(''result'', JObj rs) \<in> set msg" "(''transactions'', JArr txs) \<in> set rs" "JObj tx \<in> set txs"
    and "(''meta'', JObj ms) \<in> set tx" "(''err'', JStr e) \<in> set ms"
  shows "HTTPBlockMessage_decode (JObj msg) = None"
proof -
  have "decode_SolanaTx (JObj tx) out = None" for out
    unfolding decode_SolanaTx_def decode_object_JObj
    by (rule decode_fields_fails [OF assms(4)]) (simp_all add: string_error_fails [OF assms(5)])
  then have "decode_slice (\<lambda>j. decode_SolanaTx j zero_SolanaTx) (JArr txs) = None" by (rule slice_fails [OF assms(3)])
  then have "decode_BlockResult (JObj rs) out = None" for out
    unfolding decode_BlockResult_def decode_object_JObj
    by (intro decode_fields_fails [OF assms(2)]) simp_all
  then show ?thesis
    unfolding HTTPBlockMessage_decode_def decode_HTTPBlockMessage_def decode_object_JObj
    by (intro decode_fields_fails [OF assms(1)]) simp_all
qed

section \<open>Witness\<close>

lemma sample_block_fits: "block_fits sample_block"
  by (simp add: sample_block_def sample_tx_def sample_balance_def block_fits_def tx_fits_def meta_fits_def message_fits_def
      balance_fits_def instruction_fits_def inner_fits_def lookup_fits_def int_ok_def float_ok_def)

lemma BlockData_round_trip_witness:
  "\<exists>j. BlockData_MarshalJSON sample_block = Some j \<and> BlockData_UnmarshalJSON j = Some (block_after_queue sample_block)"
  by (rule BlockData_round_trip [OF sample_block_fits])

end
