(* ===== verification/Pnl.thy ===== *)
theory Pnl
  imports Repo "HOL-Library.Signed_Division"
begin

text \<open>
  Profit and loss of a wallet in a token (cmd/api/routes/pnl_utils.go): the lots bought, sold first in
  first out, and the figures derived from the totals. Every big.Float here has precision 53 (a zero
  value takes the precision of the other operand). Conversions of a float64 to an integer that does
  not fit are implementation-defined in Go: \<open>oor\<close> is the value then.
\<close>

section \<open>Durations\<close>

text \<open>int64 with wrap-around, time.Time.Sub (which saturates), and time.Duration of a float64.\<close>

definition int64 :: "int \<Rightarrow> int" where
  "int64 n = (n + 2 ^ 63) mod 2 ^ 64 - 2 ^ 63"

definition time_sub :: "gotime \<Rightarrow> gotime \<Rightarrow> int" where
  "time_sub t u = max (- (2 ^ 63)) (min (2 ^ 63 - 1) (t - u))"

definition trunc :: "rat \<Rightarrow> int" where
  "trunc x = (if 0 \<le> x then \<lfloor>x\<rfloor> else \<lceil>x\<rceil>)"

definition to_int64 :: "int \<Rightarrow> gonum \<Rightarrow> int" where
  "to_int64 oor a = (case a of
     Fin x \<Rightarrow> if - (2 ^ 63) \<le> trunc x \<and> trunc x < 2 ^ 63 then trunc x else oor
   | _ \<Rightarrow> oor)"

definition held_for :: "int \<Rightarrow> gotime \<Rightarrow> gotime \<Rightarrow> gonum \<Rightarrow> int" where
  "held_for oor sold bought amount =
     to_int64 oor (f64_mul (f64_round (of_int (time_sub sold bought))) (bf_float64 amount))"

section \<open>Lots\<close>

record token_lot =
  lo_Amount :: gonum
  lo_Timestamp :: gotime

text \<open>
  The inner loop of a sale at time \<open>now\<close>: lots are consumed from the front while something is left
  to sell; the loop ends with the queue, with nothing left, or in a lot that is larger.
\<close>

fun sell_lots :: "int \<Rightarrow> gotime \<Rightarrow> gonum \<Rightarrow> int \<Rightarrow> gonum \<Rightarrow> token_lot list \<Rightarrow> (token_lot list \<times> int \<times> gonum) go" where
  "sell_lots oor now toSell held sold [] = Inr ([], held, sold)"
| "sell_lots oor now toSell held sold (lot # lots) =
     (if \<not> bf_less (Fin 0) toSell then Inr (lot # lots, held, sold)
      else if \<not> bf_less toSell (lo_Amount lot) then
        go_bind (bf_add 53 sold (lo_Amount lot)) (\<lambda>sold'.
        go_bind (bf_sub 53 toSell (lo_Amount lot)) (\<lambda>toSell'.
          sell_lots oor now toSell' (int64 (held + held_for oor now (lo_Timestamp lot) (lo_Amount lot))) sold' lots))
      else
        go_bind (bf_add 53 sold toSell) (\<lambda>sold'.
        go_bind (bf_sub 53 (lo_Amount lot) toSell) (\<lambda>amount.
          Inr (lot\<lparr>lo_Amount := amount\<rparr> # lots, int64 (held + held_for oor now (lo_Timestamp lot) toSell), sold'))))"

section \<open>CalculateTokenPnL\<close>

record pnl_totals =
  pt_BuyTokens :: gonum
  pt_SellTokens :: gonum
  pt_BuyValue :: gonum
  pt_SellValue :: gonum
  pt_Queue :: "token_lot list"
  pt_Held :: int
  pt_Sold :: gonum

definition no_totals :: pnl_totals where
  "no_totals = \<lparr>pt_BuyTokens = Fin 0, pt_SellTokens = Fin 0, pt_BuyValue = Fin 0, pt_SellValue = Fin 0, pt_Queue = [],
     pt_Held = 0, pt_Sold = Fin 0\<rparr>"

text \<open>The value of an amount of the quote token, added to a total.\<close>

definition add_value :: "gonum \<Rightarrow> gonum \<Rightarrow> gonum \<Rightarrow> gonum go" where
  "add_value tot amount usdPrice =
     go_bind (bf_of_f64 usdPrice) (\<lambda>p. go_bind (bf_mul 53 amount p) (\<lambda>v. bf_add 53 tot v))"

definition pnl_step :: "int \<Rightarrow> gonum \<Rightarrow> pnl_totals \<Rightarrow> swap_log \<Rightarrow> pnl_totals go" where
  "pnl_step oor usdPrice t swap =
     go_bind (bf_of_f64 (sl_AmountOut swap)) (\<lambda>amountOut.
     go_bind (bf_of_f64 (sl_AmountIn swap)) (\<lambda>amountIn.
       if sl_Action swap = ''BUY'' \<or> sl_Action swap = ''RECEIVE'' then
         go_bind (bf_add 53 (pt_BuyTokens t) amountIn) (\<lambda>buyTokens.
         go_bind (if sl_Action swap = ''BUY'' then add_value (pt_BuyValue t) amountOut usdPrice else Inr (pt_BuyValue t)) (\<lambda>buyValue.
           Inr (t\<lparr>pt_BuyTokens := buyTokens, pt_BuyValue := buyValue,
             pt_Queue := pt_Queue t @ [\<lparr>lo_Amount = amountIn, lo_Timestamp = sl_Timestamp swap\<rparr>]\<rparr>)))
       else if sl_Action swap = ''SELL'' \<or> sl_Action swap = ''TRANSFER'' then
         go_bind (bf_add 53 (pt_SellTokens t) amountOut) (\<lambda>sellTokens.
         go_bind (if sl_Action swap = ''SELL'' then add_value (pt_SellValue t) amountIn usdPrice else Inr (pt_SellValue t)) (\<lambda>sellValue.
         go_bind (sell_lots oor (sl_Timestamp swap) amountOut (pt_Held t) (pt_Sold t) (pt_Queue t)) (\<lambda>(queue, held, sold).
           Inr (t\<lparr>pt_SellTokens := sellTokens, pt_SellValue := sellValue, pt_Queue := queue, pt_Held := held, pt_Sold := sold\<rparr>))))
       else Inr t))"

text \<open>
  The most recent price: from the latest swap of the pair, if the query found one. The log line
  dereferences the token's symbol.
\<close>

definition recent_price :: "swap_log list \<Rightarrow> (string \<Rightarrow> swap_log list res) \<Rightarrow> gonum go" where
  "recent_price swapLogs findLatestSwap =
     (case swapLogs of
        [] \<Rightarrow> Inr (Fin 0)
      | first # _ \<Rightarrow>
          (case findLatestSwap (sl_Pair first) of
             Inr (latest # _) \<Rightarrow>
               go_bind (bf_of_f64 (sl_AmountOut latest)) (\<lambda>amountOut.
               go_bind (bf_of_f64 (sl_AmountIn latest)) (\<lambda>amountIn.
               go_bind (if sl_Action latest = ''BUY'' then bf_quo 53 amountOut amountIn
                        else if sl_Action latest = ''SELL'' then bf_quo 53 amountIn amountOut else Inr (Fin 0)) (\<lambda>price.
                 if sl_TokenSymbol first = None then Inl PanicNil else Inr price)))
           | _ \<Rightarrow> Inr (Fin 0)))"

text \<open>The unrealized profit and the value of what is left, when something is left.\<close>

definition unrealized :: "pnl_totals \<Rightarrow> gonum \<Rightarrow> gonum \<Rightarrow> (gonum \<times> gonum) go" where
  "unrealized t remaining price =
     go_bind (bf_mul 53 remaining price) (\<lambda>currentValue.
     go_bind (bf_add 53 (Fin 0) currentValue) (\<lambda>totalValueRemaining.
     go_bind (if bf_less (Fin 0) (pt_BuyTokens t) then bf_quo 53 (pt_BuyValue t) (pt_BuyTokens t) else Inr (Fin 0)) (\<lambda>avgBuyPrice.
     go_bind (bf_mul 53 remaining avgBuyPrice) (\<lambda>costBasis.
     go_bind (bf_sub 53 currentValue costBasis) (\<lambda>unrealizedPNL.
       Inr (unrealizedPNL, totalValueRemaining))))))"

text \<open>A ratio as a percentage.\<close>

definition percent_of :: "gonum \<Rightarrow> gonum \<Rightarrow> gonum go" where
  "percent_of a b = go_bind (bf_quo 53 a b) (\<lambda>r. Inr (f64_mul (bf_float64 r) (Fin 100)))"

record token_pnl =
  tp_PnLUSD :: gonum
  tp_ROI :: gonum
  tp_RealizedPnLUSD :: gonum
  tp_RealizedROI :: gonum
  tp_UnrealizedPnLUSD :: gonum
  tp_UnrealizedROI :: gonum
  tp_TotalTrades :: nat
  tp_HoldTime :: string
  tp_BoughtTokens :: gonum
  tp_BoughtUSD :: gonum
  tp_SoldTokens :: gonum
  tp_SoldUSD :: gonum
  tp_RemainingTokens :: gonum
  tp_RemainingUSD :: gonum

definition unrealized_roi :: "pnl_totals \<Rightarrow> gonum \<Rightarrow> gonum \<Rightarrow> gonum go" where
  "unrealized_roi t remaining unrealizedPNL =
     (if bf_less (Fin 0) remaining then
        go_bind (bf_quo 53 (pt_BuyValue t) (pt_BuyTokens t)) (\<lambda>avgBuyPrice.
        go_bind (bf_mul 53 avgBuyPrice remaining) (\<lambda>remainingCost.
          if bf_less (Fin 0) remainingCost then percent_of unrealizedPNL remainingCost else Inr (Fin 0)))
      else Inr (Fin 0))"

definition pnl_figures ::
  "swap_log list \<Rightarrow> (string \<Rightarrow> swap_log list res) \<Rightarrow> pnl_totals \<Rightarrow> (token_pnl \<times> gonum) go" where
  "pnl_figures swapLogs findLatestSwap t =
     go_bind (if pt_SellTokens t \<noteq> Fin 0 then bf_sub 53 (pt_SellValue t) (pt_BuyValue t) else Inr (Fin 0)) (\<lambda>realizedPNL.
     go_bind (bf_sub 53 (pt_BuyTokens t) (pt_SellTokens t)) (\<lambda>remaining.
     go_bind (if bf_less (Fin 0) remaining
              then go_bind (recent_price swapLogs findLatestSwap) (unrealized t remaining) else Inr (Fin 0, Fin 0)) (\<lambda>(unrealizedPNL, totalValueRemaining).
     go_bind (if bf_less (Fin 0) (pt_SellValue t) then percent_of realizedPNL (pt_SellValue t) else Inr (Fin 0)) (\<lambda>realizedROI.
     go_bind (unrealized_roi t remaining unrealizedPNL) (\<lambda>unrealizedROI.
     go_bind (if bf_less (Fin 0) (pt_BuyValue t)
              then go_bind (bf_add 53 realizedPNL unrealizedPNL) (\<lambda>s. percent_of s (pt_BuyValue t)) else Inr (Fin 0)) (\<lambda>roi.
       Inr (\<lparr>tp_PnLUSD = f64_add (bf_float64 realizedPNL) (bf_float64 unrealizedPNL), tp_ROI = roi,
             tp_RealizedPnLUSD = bf_float64 realizedPNL, tp_RealizedROI = realizedROI,
             tp_UnrealizedPnLUSD = bf_float64 unrealizedPNL, tp_UnrealizedROI = unrealizedROI,
             tp_TotalTrades = length swapLogs, tp_HoldTime = [],
             tp_BoughtTokens = bf_float64 (pt_BuyTokens t), tp_BoughtUSD = bf_float64 (pt_BuyValue t),
             tp_SoldTokens = bf_float64 (pt_SellTokens t), tp_SoldUSD = bf_float64 (pt_SellValue t),
             tp_RemainingTokens = bf_float64 remaining, tp_RemainingUSD = bf_float64 totalValueRemaining\<rparr>,
            totalValueRemaining)))))))"

text \<open>
  sort.Slice by time: the callers pass the rows GetSwapsOnDate ordered by time, on which it changes
  nothing; rows that tie keep their order. The result is the figures, the totals and the value left.
\<close>

definition CalculateTokenPnL ::
  "int \<Rightarrow> swap_log list \<Rightarrow> gonum \<Rightarrow> (string \<Rightarrow> swap_log list res) \<Rightarrow> (token_pnl \<times> pnl_totals \<times> gonum) go" where
  "CalculateTokenPnL oor swapLogs usdPrice findLatestSwap =
     (let swapLogs = sort_key sl_Timestamp swapLogs in
      go_bind (go_fold (pnl_step oor usdPrice) no_totals swapLogs) (\<lambda>t.
      go_bind (pnl_figures swapLogs findLatestSwap t) (\<lambda>(pnl, totalValueRemaining). Inr (pnl, t, totalValueRemaining))))"

section \<open>Normal return\<close>

definition finite_num :: "gonum \<Rightarrow> bool" where
  "finite_num a \<longleftrightarrow> (\<exists>x. a = Fin x)"

definition nonneg :: "gonum \<Rightarrow> bool" where
  "nonneg a \<longleftrightarrow> (\<exists>x \<ge> 0. a = Fin x)"

lemma finite_num_simps [simp]: "finite_num (Fin x)" "nonneg (Fin x) \<longleftrightarrow> 0 \<le> x"
  by (auto simp: finite_num_def nonneg_def)

lemma nonneg_finite: "nonneg a \<Longrightarrow> finite_num a"
  by (auto simp: nonneg_def)

lemma rnd_nonneg: "0 \<le> x \<Longrightarrow> 0 \<le> rnd 53 x"
  using rnd_sgn [of 53 x] by (cases "x = 0") (auto simp: sgn_if split: if_splits)

lemma finite_ops:
  "finite_num a \<Longrightarrow> finite_num b \<Longrightarrow> \<exists>c. bf_add 53 a b = Inr c \<and> finite_num c"
  "finite_num a \<Longrightarrow> finite_num b \<Longrightarrow> \<exists>c. bf_sub 53 a b = Inr c \<and> finite_num c"
  "finite_num a \<Longrightarrow> finite_num b \<Longrightarrow> \<exists>c. bf_mul 53 a b = Inr c \<and> finite_num c"
  "finite_num a \<Longrightarrow> finite_num b \<Longrightarrow> b \<noteq> Fin 0 \<Longrightarrow> \<exists>c. bf_quo 53 a b = Inr c \<and> finite_num c"
  by (auto simp: finite_num_def)

lemma add_nonneg: "nonneg a \<Longrightarrow> nonneg b \<Longrightarrow> \<exists>c. bf_add 53 a b = Inr c \<and> nonneg c"
  by (auto simp: nonneg_def rnd_nonneg)

definition lots_finite :: "token_lot list \<Rightarrow> bool" where
  "lots_finite lots \<longleftrightarrow> list_all (\<lambda>l. finite_num (lo_Amount l)) lots"

lemma sell_lots_ok:
  "finite_num toSell \<Longrightarrow> finite_num sold \<Longrightarrow> lots_finite lots \<Longrightarrow>
   \<exists>lots' held' sold'. sell_lots oor now toSell held sold lots = Inr (lots', held', sold') \<and> finite_num sold' \<and> lots_finite lots'"
proof (induction lots arbitrary: toSell sold held)
  case (Cons lot lots)
  obtain k where k: "toSell = Fin k" using Cons.prems(1) by (auto simp: finite_num_def)
  obtain s where s: "sold = Fin s" using Cons.prems(2) by (auto simp: finite_num_def)
  obtain a where a: "lo_Amount lot = Fin a" using Cons.prems(3) by (auto simp: finite_num_def lots_finite_def)
  have rest: "lots_finite lots" using Cons.prems(3) by (simp add: lots_finite_def)
  show ?case
  proof (cases "bf_less (Fin 0) toSell")
    case True
    show ?thesis
    proof (cases "bf_less toSell (lo_Amount lot)")
      case True
      then show ?thesis using \<open>bf_less (Fin 0) toSell\<close> rest by (simp add: k s a lots_finite_def)
    next
      case False
      then show ?thesis using \<open>bf_less (Fin 0) toSell\<close> Cons.IH [OF _ _ rest] by (simp add: k s a)
    qed
  next
    case False
    then show ?thesis using Cons.prems(3) by (simp add: s)
  qed
qed simp

definition totals_ok :: "pnl_totals \<Rightarrow> bool" where
  "totals_ok t \<longleftrightarrow> nonneg (pt_BuyTokens t) \<and> nonneg (pt_SellTokens t) \<and> finite_num (pt_BuyValue t) \<and> finite_num (pt_SellValue t) \<and>
     lots_finite (pt_Queue t) \<and> finite_num (pt_Sold t)"

definition amounts_ok :: "swap_log \<Rightarrow> bool" where
  "amounts_ok s \<longleftrightarrow> nonneg (sl_AmountOut s) \<and> nonneg (sl_AmountIn s)"

lemma of_f64_finite: "finite_num a \<Longrightarrow> bf_of_f64 a = Inr a"
  by (auto simp: finite_num_def bf_of_f64_def)

lemma add_value_ok:
  assumes "finite_num a" "finite_num b" "finite_num p"
  shows "\<exists>c. add_value a b p = Inr c \<and> finite_num c"
  using finite_ops(3) [OF assms(2,3)] finite_ops(1) [OF assms(1)] by (auto simp: add_value_def of_f64_finite assms(3))

lemma pnl_step_ok:
  assumes "totals_ok t" "amounts_ok s" "finite_num usdPrice"
  shows "\<exists>t'. pnl_step oor usdPrice t s = Inr t' \<and> totals_ok t'"
proof -
  have out: "bf_of_f64 (sl_AmountOut s) = Inr (sl_AmountOut s)" "finite_num (sl_AmountOut s)"
    and inn: "bf_of_f64 (sl_AmountIn s) = Inr (sl_AmountIn s)" "finite_num (sl_AmountIn s)"
    using assms(2) nonneg_finite of_f64_finite by (auto simp: amounts_ok_def)
  show ?thesis
  proof (cases "sl_Action s = ''BUY'' \<or> sl_Action s = ''RECEIVE''")
    case True
    obtain bt where bt: "bf_add 53 (pt_BuyTokens t) (sl_AmountIn s) = Inr bt" "nonneg bt"
      using add_nonneg assms(1,2) by (auto simp: totals_ok_def amounts_ok_def)
    have "\<exists>bv. (if sl_Action s = ''BUY'' then add_value (pt_BuyValue t) (sl_AmountOut s) usdPrice else Inr (pt_BuyValue t)) = Inr bv \<and>
        finite_num bv"
      using add_value_ok [OF _ out(2) assms(3), of "pt_BuyValue t"] assms(1) by (simp add: totals_ok_def)
    then obtain bv where bv: "(if sl_Action s = ''BUY'' then add_value (pt_BuyValue t) (sl_AmountOut s) usdPrice else Inr (pt_BuyValue t)) = Inr bv"
      "finite_num bv" by blast
    show ?thesis using True assms(1) bt(2) bv(2) inn(2)
      by (simp add: pnl_step_def out(1) inn(1) bt(1) bv(1) totals_ok_def lots_finite_def)
  next
    case False
    show ?thesis
    proof (cases "sl_Action s = ''SELL'' \<or> sl_Action s = ''TRANSFER''")
      case True
      obtain st where st: "bf_add 53 (pt_SellTokens t) (sl_AmountOut s) = Inr st" "nonneg st"
        using add_nonneg assms(1,2) by (auto simp: totals_ok_def amounts_ok_def)
      have "\<exists>sv. (if sl_Action s = ''SELL'' then add_value (pt_SellValue t) (sl_AmountIn s) usdPrice else Inr (pt_SellValue t)) = Inr sv \<and>
          finite_num sv"
        using add_value_ok [OF _ inn(2) assms(3), of "pt_SellValue t"] assms(1) by (simp add: totals_ok_def)
      then obtain sv where sv: "(if sl_Action s = ''SELL'' then add_value (pt_SellValue t) (sl_AmountIn s) usdPrice else Inr (pt_SellValue t)) = Inr sv"
        "finite_num sv" by blast
      obtain q h so where q: "sell_lots oor (sl_Timestamp s) (sl_AmountOut s) (pt_Held t) (pt_Sold t) (pt_Queue t) = Inr (q, h, so)"
        "finite_num so" "lots_finite q"
        using sell_lots_ok [OF out(2)] assms(1) by (fastforce simp: totals_ok_def)
      show ?thesis using True False assms(1) st(2) sv(2) q(2,3)
        by (simp add: pnl_step_def out(1) inn(1) st(1) sv(1) q(1) totals_ok_def)
    next
      case False
      then show ?thesis using \<open>\<not> (sl_Action s = ''BUY'' \<or> sl_Action s = ''RECEIVE'')\<close> assms(1)
        by (simp add: pnl_step_def out(1) inn(1))
    qed
  qed
qed

text \<open>The latest swap is usable: its amounts are finite and the one that is divided by is not zero.\<close>

definition price_ok :: "swap_log list \<Rightarrow> (string \<Rightarrow> swap_log list res) \<Rightarrow> bool" where
  "price_ok swapLogs findLatestSwap =
     (case swapLogs of
        [] \<Rightarrow> True
      | first # _ \<Rightarrow>
          (case findLatestSwap (sl_Pair first) of
             Inr (latest # _) \<Rightarrow> amounts_ok latest \<and> sl_TokenSymbol first \<noteq> None \<and>
               (sl_Action latest = ''BUY'' \<longrightarrow> sl_AmountIn latest \<noteq> Fin 0) \<and>
               (sl_Action latest = ''SELL'' \<longrightarrow> sl_AmountOut latest \<noteq> Fin 0)
           | _ \<Rightarrow> True))"

lemma recent_price_ok:
  assumes "price_ok swapLogs findLatestSwap"
  shows "\<exists>p. recent_price swapLogs findLatestSwap = Inr p \<and> finite_num p"
proof (cases swapLogs)
  case Nil
  then show ?thesis by (simp add: recent_price_def)
next
  case (Cons first rest)
  show ?thesis
  proof (cases "findLatestSwap (sl_Pair first)")
    case (Inl e)
    then show ?thesis using Cons by (simp add: recent_price_def)
  next
    case (Inr found)
    show ?thesis
    proof (cases found)
      case Nil
      then show ?thesis using Cons Inr by (simp add: recent_price_def)
    next
      case (Cons latest others)
      then have l: "nonneg (sl_AmountOut latest)" "nonneg (sl_AmountIn latest)" "sl_TokenSymbol first \<noteq> None"
        "sl_Action latest = ''BUY'' \<longrightarrow> sl_AmountIn latest \<noteq> Fin 0" "sl_Action latest = ''SELL'' \<longrightarrow> sl_AmountOut latest \<noteq> Fin 0"
        using assms \<open>swapLogs = first # rest\<close> Inr by (auto simp: price_ok_def amounts_ok_def)
      obtain x where x: "sl_AmountOut latest = Fin x" using l(1) by (auto simp: nonneg_def)
      obtain y where y: "sl_AmountIn latest = Fin y" using l(2) by (auto simp: nonneg_def)
      obtain sym where sym: "sl_TokenSymbol first = Some sym" using l(3) by blast
      show ?thesis using l(4,5) Cons \<open>swapLogs = first # rest\<close> Inr
        by (cases "sl_Action latest = ''BUY''"; cases "sl_Action latest = ''SELL''")
          (simp_all add: recent_price_def x y sym bf_of_f64_def)
    qed
  qed
qed

lemma percent_ok: "finite_num a \<Longrightarrow> bf_less (Fin 0) b \<Longrightarrow> finite_num b \<Longrightarrow> \<exists>c. percent_of a b = Inr c"
  by (auto simp: finite_num_def percent_of_def bf_less_def)

lemma unrealized_ok:
  assumes "totals_ok t" "finite_num remaining" "finite_num price"
  shows "\<exists>u v. unrealized t remaining price = Inr (u, v) \<and> finite_num u \<and> finite_num v"
proof -
  obtain b c r p where "pt_BuyTokens t = Fin b" "pt_BuyValue t = Fin c" "remaining = Fin r" "price = Fin p"
    using assms by (auto simp: totals_ok_def nonneg_def finite_num_def)
  then show ?thesis by (simp add: unrealized_def bf_less_def)
qed

lemma remaining_bought:
  assumes "totals_ok t" "bf_sub 53 (pt_BuyTokens t) (pt_SellTokens t) = Inr r" "bf_less (Fin 0) r"
  shows "bf_less (Fin 0) (pt_BuyTokens t)"
proof -
  obtain b s where b: "pt_BuyTokens t = Fin b" "0 \<le> b" "pt_SellTokens t = Fin s" "0 \<le> s" using assms(1) by (auto simp: totals_ok_def nonneg_def)
  have "0 < rnd 53 (b - s)" using assms(2,3) b by (auto simp: bf_less_def)
  then have "0 < b - s" using rnd_sgn [of 53 "b - s"] by (auto simp: sgn_if split: if_splits)
  then show ?thesis using b by (simp add: bf_less_def)
qed

lemma unrealized_roi_ok:
  assumes "totals_ok t" "bf_sub 53 (pt_BuyTokens t) (pt_SellTokens t) = Inr r" "finite_num u"
  shows "\<exists>c. unrealized_roi t r u = Inr c"
proof (cases "bf_less (Fin 0) r")
  case True
  have "bf_less (Fin 0) (pt_BuyTokens t)" by (rule remaining_bought [OF assms(1,2) True])
  then obtain b where b: "pt_BuyTokens t = Fin b" "b \<noteq> 0" using assms(1) by (auto simp: totals_ok_def nonneg_def bf_less_def)
  obtain v x y where v: "pt_BuyValue t = Fin v" "r = Fin x" "u = Fin y"
    using assms b by (auto simp: totals_ok_def finite_num_def nonneg_def)
  show ?thesis using True by (auto simp: unrealized_roi_def b v percent_of_def bf_less_def)
qed (simp add: unrealized_roi_def)

lemma pnl_figures_ok:
  assumes "totals_ok t" "price_ok swapLogs findLatestSwap"
  shows "\<exists>r. pnl_figures swapLogs findLatestSwap t = Inr r"
proof -
  have f: "finite_num (pt_BuyTokens t)" "finite_num (pt_SellTokens t)" "finite_num (pt_BuyValue t)" "finite_num (pt_SellValue t)"
    using assms(1) nonneg_finite by (auto simp: totals_ok_def)
  obtain re where re: "(if pt_SellTokens t \<noteq> Fin 0 then bf_sub 53 (pt_SellValue t) (pt_BuyValue t) else Inr (Fin 0)) = Inr re" "finite_num re"
    using finite_ops(2) [OF f(4,3)] by (cases "pt_SellTokens t = Fin 0") auto
  obtain rm where rm: "bf_sub 53 (pt_BuyTokens t) (pt_SellTokens t) = Inr rm" "finite_num rm"
    using finite_ops(2) [OF f(1,2)] by auto
  obtain p where p: "recent_price swapLogs findLatestSwap = Inr p" "finite_num p" using recent_price_ok [OF assms(2)] by blast
  obtain u v where u: "(if bf_less (Fin 0) rm then go_bind (recent_price swapLogs findLatestSwap) (unrealized t rm) else Inr (Fin 0, Fin 0)) = Inr (u, v)"
      "finite_num u"
    using unrealized_ok [OF assms(1) rm(2) p(2)] by (cases "bf_less (Fin 0) rm") (auto simp: p(1))
  obtain rr where rr: "(if bf_less (Fin 0) (pt_SellValue t) then percent_of re (pt_SellValue t) else Inr (Fin 0)) = Inr rr"
    using percent_ok [OF re(2) _ f(4)] by (cases "bf_less (Fin 0) (pt_SellValue t)") auto
  obtain ur where ur: "unrealized_roi t rm u = Inr ur" using unrealized_roi_ok [OF assms(1) rm(1) u(2)] by blast
  obtain s where s: "bf_add 53 re u = Inr s" "finite_num s" using finite_ops(1) [OF re(2) u(2)] by blast
  obtain ro where ro: "(if bf_less (Fin 0) (pt_BuyValue t) then go_bind (bf_add 53 re u) (\<lambda>s. percent_of s (pt_BuyValue t)) else Inr (Fin 0)) = Inr ro"
    using percent_ok [OF s(2) _ f(3)] by (cases "bf_less (Fin 0) (pt_BuyValue t)") (auto simp: s(1))
  show ?thesis unfolding pnl_figures_def re(1) rm(1) go_bind_Inr u(1) prod.case rr ur ro by blast
qed

lemma price_ok_sort: "price_ok (sort_key sl_Timestamp swapLogs) f" if "\<forall>s \<in> set swapLogs. price_ok [s] f"
proof (cases "sort_key sl_Timestamp swapLogs")
  case (Cons s ss)
  have "set (s # ss) = set swapLogs" unfolding Cons [symmetric] by simp
  then have "price_ok [s] f" using that by auto
  then show ?thesis using Cons by (simp add: price_ok_def)
qed (simp add: price_ok_def)

text \<open>
  C36: CalculateTokenPnL returns: no operation of math/big panics, when the amounts are finite and not negative,
  the price is finite, and the latest swap of the pair of each swap has a divisor that is not zero and the token a symbol.
\<close>

theorem CalculateTokenPnL_total:
  assumes "\<forall>s \<in> set swapLogs. amounts_ok s \<and> price_ok [s] findLatestSwap" "finite_num usdPrice"
  shows "ok (CalculateTokenPnL oor swapLogs usdPrice findLatestSwap)"
proof -
  let ?logs = "sort_key sl_Timestamp swapLogs"
  have "\<exists>t. go_fold (pnl_step oor usdPrice) no_totals ?logs = Inr t \<and> totals_ok t"
    by (rule go_fold_ok) (use pnl_step_ok assms in \<open>auto simp: totals_ok_def no_totals_def lots_finite_def\<close>)
  then obtain t where t: "go_fold (pnl_step oor usdPrice) no_totals ?logs = Inr t" "totals_ok t" by blast
  have "price_ok ?logs findLatestSwap" by (rule price_ok_sort) (use assms(1) in blast)
  then obtain r where "pnl_figures ?logs findLatestSwap t = Inr r" using pnl_figures_ok [OF t(2)] by blast
  then show ?thesis by (cases r) (simp add: CalculateTokenPnL_def t(1))
qed

section \<open>First in, first out\<close>

text \<open>The reference: what a sale of \<open>k\<close> leaves of the lots.\<close>

fun fifo :: "nat \<Rightarrow> (nat \<times> gotime) list \<Rightarrow> (nat \<times> gotime) list" where
  "fifo k [] = []"
| "fifo k ((n, t) # lots) = (if k = 0 then (n, t) # lots else if n \<le> k then fifo (k - n) lots else (n - k, t) # lots)"

definition lot_of :: "nat \<times> gotime \<Rightarrow> token_lot" where
  "lot_of x = \<lparr>lo_Amount = Fin (of_nat (fst x)), lo_Timestamp = snd x\<rparr>"

lemma rnd_of_nat: "n \<le> 2 ^ 53 \<Longrightarrow> rnd 53 (of_nat n) = of_nat n"
  using rnd_of_int [of "int n" 53] by simp

lemma exact_sub: "m \<le> n \<Longrightarrow> n \<le> 2 ^ 53 \<Longrightarrow> bf_sub 53 (Fin (of_nat n)) (Fin (of_nat m)) = Inr (Fin (of_nat (n - m)))"
  using rnd_of_nat [of "n - m"] by (simp add: of_nat_diff)

lemma exact_add: "n + m \<le> 2 ^ 53 \<Longrightarrow> bf_add 53 (Fin (of_nat n)) (Fin (of_nat m)) = Inr (Fin (of_nat (n + m)))"
  using rnd_of_nat [of "n + m"] by simp

lemma fifo_sum: "sum_list (map fst (fifo k lots)) = sum_list (map fst lots) - k"
  by (induction k lots rule: fifo.induct) auto

text \<open>
  C10: On whole amounts up to \<open>2 ^ 53\<close> the floating-point loop is exact: a sale consumes the oldest lots first, as the
  reference does, counts exactly the smaller of the sale and the holdings as sold, and leaves the rest.
\<close>

theorem sell_lots_fifo:
  assumes "k \<le> 2 ^ 53" "sold + sum_list (map fst lots) \<le> 2 ^ 53"
  shows "\<exists>held'. sell_lots oor now (Fin (of_nat k)) held (Fin (of_nat sold)) (map lot_of lots) =
     Inr (map lot_of (fifo k lots), held', Fin (of_nat (sold + min k (sum_list (map fst lots)))))"
  using assms
proof (induction k lots arbitrary: sold held rule: fifo.induct)
  case (2 k n t lots)
  have n: "n \<le> 2 ^ 53" "sold + n \<le> 2 ^ 53" using "2.prems" by simp_all
  consider "k = 0" | "0 < k" "n \<le> k" | "0 < k" "k < n" by linarith
  then show ?case
  proof cases
    case 1
    then show ?thesis by (simp add: bf_less_def)
  next
    case 2
    have l: "bf_less (Fin 0) (Fin (of_nat k))" "\<not> bf_less (Fin (of_nat k)) (Fin (of_nat n))"
      using 2 by (simp_all add: bf_less_def)
    have prems: "k - n \<le> 2 ^ 53" "sold + n + sum_list (map fst lots) \<le> 2 ^ 53" using "2.prems" by simp_all
    have "min k (n + sum_list (map fst lots)) = n + min (k - n) (sum_list (map fst lots))" using 2(2) by simp
    then show ?thesis
      using "2.IH" [OF _ _ prems, of "int64 (held + held_for oor now t (Fin (of_nat n)))"] 2 l exact_sub [OF 2(2) "2.prems"(1)] exact_add [OF n(2)]
      by (simp add: lot_of_def add.assoc)
  next
    case 3
    have l: "bf_less (Fin 0) (Fin (of_nat k))" "bf_less (Fin (of_nat k)) (Fin (of_nat n))"
      using 3 by (simp_all add: bf_less_def)
    have m: "min k (n + sum_list (map fst lots)) = k" "sold + k \<le> 2 ^ 53" using 3 n by simp_all
    show ?thesis
      using 3 l exact_sub [of k n] exact_add [OF m(2)] n(1) m(1) by (simp add: lot_of_def)
  qed
qed simp

text \<open>
  The report of a wallet panics when the latest swap of a pair whose token it still holds paid nothing for nothing:
  the price is the quotient of two zeros.
\<close>

lemma CalculateTokenPnL_panic:
  assumes "sort_key sl_Timestamp swapLogs = first # rest" "findLatestSwap (sl_Pair first) = Inr (latest # others)"
    and "sl_Action latest = ''BUY'' \<or> sl_Action latest = ''SELL''" "sl_AmountOut latest = Fin 0" "sl_AmountIn latest = Fin 0"
    and "go_fold (pnl_step oor usdPrice) no_totals (first # rest) = Inr t" "totals_ok t"
    and "bf_sub 53 (pt_BuyTokens t) (pt_SellTokens t) = Inr remaining" "bf_less (Fin 0) remaining"
  shows "CalculateTokenPnL oor swapLogs usdPrice findLatestSwap = Inl PanicNaN"
proof -
  have p: "recent_price (first # rest) findLatestSwap = Inl PanicNaN"
    using assms(2-5) by (auto simp: recent_price_def bf_of_f64_def bf_quo_zero)
  have f: "finite_num (pt_BuyValue t)" "finite_num (pt_SellValue t)" using assms(7) by (auto simp: totals_ok_def)
  obtain re where re: "(if pt_SellTokens t \<noteq> Fin 0 then bf_sub 53 (pt_SellValue t) (pt_BuyValue t) else Inr (Fin 0)) = Inr re"
    using finite_ops(2) [OF f(2,1)] by (cases "pt_SellTokens t = Fin 0") auto
  have "pnl_figures (first # rest) findLatestSwap t = Inl PanicNaN"
    unfolding pnl_figures_def re assms(8) go_bind_Inr by (simp add: assms(9) p)
  then show ?thesis unfolding CalculateTokenPnL_def assms(1) Let_def assms(6) by simp
qed

section \<open>Witnesses\<close>

definition round_trip :: "swap_log list" where
  "round_trip = [(plain_log ''w'' ''BUY'' (Fin 10) (Fin 10) 0)\<lparr>sl_TokenSymbol := Some ''MT''\<rparr>,
     (plain_log ''w'' ''SELL'' (Fin 5) (Fin 5) 1000)\<lparr>sl_TokenSymbol := Some ''MT''\<rparr>]"

definition latest_sale :: "string \<Rightarrow> swap_log list res" where
  "latest_sale pair = Inr [plain_log ''w'' ''SELL'' (Fin 5) (Fin 5) 1000]"

lemma CalculateTokenPnL_total_witness: "ok (CalculateTokenPnL 0 round_trip (Fin 1) latest_sale)"
  by (rule CalculateTokenPnL_total)
    (simp_all add: round_trip_def latest_sale_def amounts_ok_def price_ok_def plain_log_def)

lemma sell_lots_fifo_witness:
  "\<exists>held'. sell_lots 0 9 (Fin (of_nat 7)) 0 (Fin (of_nat 1)) (map lot_of [(5, 0), (4, 3), (2, 4)]) =
     Inr (map lot_of [(2, 3), (2, 4)], held', Fin (of_nat 8))"
  using sell_lots_fifo [of 7 1 "[(5, 0), (4, 3), (2, 4)]" 0 9 0] by simp

text \<open>
  Ten tokens bought for 10 dollars, five sold for 5, the rest worth 5: nothing was gained or lost, but
  the report says a loss of 5. The realized part subtracts the cost of all ten tokens, and the
  unrealized part subtracts the cost of the five that are left once more.
\<close>

lemma cost_counted_twice:
  "map_sum id (\<lambda>(pnl, _). (tp_RealizedPnLUSD pnl, tp_UnrealizedPnLUSD pnl, tp_PnLUSD pnl))
     (CalculateTokenPnL 0 round_trip (Fin 1) latest_sale) = Inr (Fin (- 5), Fin 0, Fin (- 5))"
  by code_simp

end
