(* ===== verification/Routes.thy ===== *)
theory Routes
  imports Pnl LogTree "HOL-Library.List_Lexorder" "HOL-Library.Char_ord"
begin

text \<open>
  The HTTP handlers of the API (cmd/api/routes): what each answers, from the parameters of the
  request and what the repository, the finder, the pricer and the node return. A panic in a
  handler's own goroutine is answered with status 500 (the router installs a recoverer); a panic in
  a goroutine it started ends the process, and is the \<open>Inl\<close> of the handler.
\<close>

section \<open>Answers and parameters\<close>

text \<open>\<open>Silent\<close> is the empty answer with status 200 of a handler that returns without writing.\<close>

datatype 'a answer = Answer 'a | Failed nat | Silent

definition stringToInt64 :: "string \<Rightarrow> int" where
  "stringToInt64 s = (case ParseInt 64 s of (i, okay) \<Rightarrow> if okay then i else 0)"

definition stringToFloat64 :: "string \<Rightarrow> gonum" where
  "stringToFloat64 s = (case parse_float s of None \<Rightarrow> Fin 0 | Some f \<Rightarrow> f)"

section \<open>Access\<close>

definition api_keys :: "string list" where
  "api_keys = [''9686032971eb850a002a86649e468253cc76e1e2'', ''24af1b0df83bc86621ce305203d9d11b5f698e62'',
     ''1edae2c22e997a5a3f1609e8832cea285abebcde'']"

definition APIKeyMiddleware :: "string \<Rightarrow> (string \<Rightarrow> 'a answer) \<Rightarrow> 'a answer" where
  "APIKeyMiddleware apiKey next' = (if apiKey \<notin> set api_keys then Failed 401 else next' apiKey)"

text \<open>\<open>allow\<close> is the limiter's answer for the key the request carries, if it carries one.\<close>

definition RateLimitMiddleware :: "(string \<Rightarrow> bool) \<Rightarrow> string option \<Rightarrow> 'a answer \<Rightarrow> 'a answer" where
  "RateLimitMiddleware allow limiter next' =
     (case limiter of None \<Rightarrow> Failed 429 | Some key \<Rightarrow> if \<not> allow key then Failed 429 else next')"

section \<open>Lookups\<close>

definition PairLookupHandler :: "(string \<Rightarrow> (pair \<times> quote_token) res) \<Rightarrow> string \<Rightarrow> (pair \<times> quote_token) answer" where
  "PairLookupHandler findPair address = (case findPair address of Inl e \<Rightarrow> Failed 500 | Inr r \<Rightarrow> Answer r)"

text \<open>The finder returns pointers; a nil one is answered with 400.\<close>

definition TokenLookupHandler :: "(string \<Rightarrow> (token option \<times> pair list option) res) \<Rightarrow> string \<Rightarrow> (token \<times> pair list) answer" where
  "TokenLookupHandler findToken address =
     (case findToken address of
        Inl e \<Rightarrow> Failed 500
      | Inr (Some t, Some pairs) \<Rightarrow> Answer (t, pairs)
      | Inr _ \<Rightarrow> Failed 400)"

definition PriceLookupHandler :: "(string \<Rightarrow> gonum) \<Rightarrow> string \<Rightarrow> (gonum \<times> string \<times> string) answer" where
  "PriceLookupHandler price symbol = Answer (price symbol, symbol, ''USD'')"

definition HoldingsLookupHandler :: "bool \<Rightarrow> string \<Rightarrow> string \<Rightarrow> database \<Rightarrow> gonum answer" where
  "HoldingsLookupHandler up token wallet db =
     (case FindWalletTokenHoldings up token wallet db of Inl e \<Rightarrow> Failed 500 | Inr h \<Rightarrow> Answer h)"

record query_response =
  qr_Source :: string
  qr_Wallet :: string
  qr_Token :: string
  qr_Name :: string
  qr_Symbol :: string
  qr_Pair :: string

text \<open>A NULL field becomes the empty string.\<close>

definition or_empty :: "string option \<Rightarrow> string" where
  "or_empty s = (case s of None \<Rightarrow> [] | Some t \<Rightarrow> t)"

definition ConvertToResponse :: "query_all \<Rightarrow> query_response" where
  "ConvertToResponse q = \<lparr>qr_Source = qa_Source q, qr_Wallet = or_empty (qa_Wallet q), qr_Token = or_empty (qa_Token q),
     qr_Name = or_empty (qa_Name q), qr_Symbol = or_empty (qa_Symbol q), qr_Pair = or_empty (qa_Pair q)\<rparr>"

definition SearchQueryHandler :: "bool \<Rightarrow> string \<Rightarrow> database \<Rightarrow> query_response list answer" where
  "SearchQueryHandler up searchQuery db =
     (case QueryAll up searchQuery db of Inl e \<Rightarrow> Failed 500 | Inr results \<Rightarrow> Answer (map ConvertToResponse results))"

definition FindSwapHandler :: "bool \<Rightarrow> string \<Rightarrow> string \<Rightarrow> string \<Rightarrow> database \<Rightarrow> swap_log option answer" where
  "FindSwapHandler up address amountStr timestampStr db =
     (case FindSwap up (stringToInt64 timestampStr) address (stringToFloat64 amountStr) db of
        Inl e \<Rightarrow> Failed 500
      | Inr swap \<Rightarrow> Answer swap)"

text \<open>The error of ParseInt is not looked at.\<close>

definition TopTradersHandler :: "bool \<Rightarrow> string \<Rightarrow> string \<Rightarrow> database \<Rightarrow> string list answer" where
  "TopTradersHandler up address limit db =
     (let limit = (if limit = [] then ''100'' else limit)
      in case FindTopTraders up address (fst (ParseInt 32 limit)) db of Inl e \<Rightarrow> Failed 500 | Inr traders \<Rightarrow> Answer traders)"

definition WalletActivityHandler :: "bool \<Rightarrow> string \<Rightarrow> string \<Rightarrow> string \<Rightarrow> database \<Rightarrow> swap_log list answer" where
  "WalletActivityHandler up address limitText offsetText db =
     (let (limitText, offsetText) = (if limitText = [] \<or> offsetText = [] then (''100'', ''0'') else (limitText, offsetText));
          (limit, limitOk) = ParseInt 32 limitText; (offset, offsetOk) = ParseInt 32 offsetText
      in if \<not> limitOk then Silent
         else if \<not> offsetOk then Silent
         else (case GetAllWalletSwaps up address limit offset db of Inl e \<Rightarrow> Failed 500 | Inr swaps \<Rightarrow> Answer swaps))"

section \<open>Bundled launches\<close>

text \<open>
  The first transaction, in the order of the swaps, whose logs show the creation of a mint; a failing
  request to the node ends the handler without an answer, logs that cannot be parsed panic.
\<close>

datatype creation = CreationAt nat | NoCreation | NodeFailed | LogsPanic

fun find_creation :: "(string \<Rightarrow> string list option) \<Rightarrow> nat \<Rightarrow> swap_log list \<Rightarrow> creation" where
  "find_creation getTx indx [] = NoCreation"
| "find_creation getTx indx (swap # swaps) =
     (case getTx (sl_ID swap) of
        None \<Rightarrow> NodeFailed
      | Some logMessages \<Rightarrow>
          (case GetLogs logMessages of
             Inl e \<Rightarrow> LogsPanic
           | Inr parsedLogs \<Rightarrow> if isTokenCreation parsedLogs then CreationAt indx else find_creation getTx (Suc indx) swaps))"

definition CheckBundledHandler ::
  "(string \<Rightarrow> token option res) \<Rightarrow> (string \<Rightarrow> string list option) \<Rightarrow> bool \<Rightarrow> string \<Rightarrow> database \<Rightarrow>
     (swap_log list \<times> token option) answer" where
  "CheckBundledHandler findToken getTx up address db =
     (case findToken address of
        Inl e \<Rightarrow> Failed 500
      | Inr token \<Rightarrow>
          (case FindFirstTokenSwaps up address db of
             Inl e \<Rightarrow> Failed 500
           | Inr [] \<Rightarrow> Failed 500
           | Inr (first # swaps) \<Rightarrow>
               let firstBlockSwaps = filter (\<lambda>s. sl_BlockNumber s = sl_BlockNumber first) (first # swaps) in
               if length firstBlockSwaps = 1 then Failed 500
               else (case find_creation getTx 0 firstBlockSwaps of
                   NodeFailed \<Rightarrow> Silent
                 | LogsPanic \<Rightarrow> Failed 500
                 | NoCreation \<Rightarrow> Failed 500
                 | CreationAt i \<Rightarrow> Answer (take i firstBlockSwaps @ drop (Suc i) firstBlockSwaps, token))))"

section \<open>Profit and loss\<close>

definition timeframe_days :: "string \<Rightarrow> int" where
  "timeframe_days timeframe =
     (if timeframe = ''1d'' then 1 else if timeframe = ''7d'' then 7 else if timeframe = ''14d'' then 14
      else if timeframe = ''30d'' then 30 else 30)"

definition start_date :: "gotime \<Rightarrow> string \<Rightarrow> gotime" where
  "start_date now timeframe = now div day * day - timeframe_days timeframe * day"

text \<open>\<open>tokenSwaps\<close>: the swaps of each token, in order.\<close>

definition token_groups :: "swap_log list \<Rightarrow> swap_log list list" where
  "token_groups swaps = map (\<lambda>t. filter (\<lambda>s. sl_Token s = t) swaps) (remdups (map sl_Token swaps))"

text \<open>A duration as float64 hours, minutes or seconds (\<open>unit'\<close> nanoseconds), cut to an integer, and as hh:mm:ss.\<close>

definition duration_in :: "int \<Rightarrow> int \<Rightarrow> int \<Rightarrow> int" where
  "duration_in oor unit' d = to_int64 oor (f64_add (f64_round (of_int (d sdiv unit'))) (f64_div (f64_round (of_int (d smod unit'))) (f64_round (of_int unit'))))"

definition pad2 :: "int \<Rightarrow> string" where
  "pad2 n = (let t = (if n < 0 then CHR ''-'' # dec (- n) else dec n)
     in if length t < 2 then CHR ''0'' # t else t)"

definition hms :: "int \<Rightarrow> int \<Rightarrow> string" where
  "hms oor d = pad2 (duration_in oor (3600 * 10 ^ 9) d) @ '':'' @ pad2 (duration_in oor (60 * 10 ^ 9) d smod 60) @ '':'' @
     pad2 (duration_in oor (10 ^ 9) d smod 60)"

record pnl_env =
  pe_oor :: int
  pe_price :: "string \<Rightarrow> gonum"
  pe_latest :: "string \<Rightarrow> swap_log list res"

text \<open>
  The opening of both goroutines: no quote symbol, no positive price, or neither a BUY nor a SELL ends
  them. The price cache holds what the pricer answered first.
\<close>

definition group_price :: "pnl_env \<Rightarrow> swap_log list \<Rightarrow> gonum option" where
  "group_price env swapLogs =
     (case sl_QuoteTokenSymbol (hd swapLogs) of
        None \<Rightarrow> None
      | Some symbol \<Rightarrow>
          if \<not> f64_less (Fin 0) (pe_price env symbol) then None
          else if \<not> list_ex (\<lambda>s. sl_Action s = ''BUY'' \<or> sl_Action s = ''SELL'') swapLogs then None
          else Some (pe_price env symbol))"

record token_and_pnl =
  tn_Token :: string
  tn_TokenSymbol :: string
  tn_PnL :: token_pnl

definition token_result :: "pnl_env \<Rightarrow> swap_log list \<Rightarrow> token_and_pnl list go" where
  "token_result env swapLogs =
     (case group_price env swapLogs of
        None \<Rightarrow> Inr []
      | Some usdPrice \<Rightarrow>
          go_bind (CalculateTokenPnL (pe_oor env) swapLogs usdPrice (pe_latest env)) (\<lambda>(pnl, totals, _).
            let first = hd (sort_key sl_Timestamp swapLogs) in
            Inr (if sl_Token first \<noteq> []
                 then [\<lparr>tn_Token = sl_Token first, tn_TokenSymbol = or_empty (sl_TokenSymbol first),
                        tn_PnL = pnl\<lparr>tp_HoldTime := hms (pe_oor env) (pt_Held totals)\<rparr>\<rparr>]
                 else [])))"

definition pageSize :: int where
  "pageSize = 100"

definition page_number :: "string \<Rightarrow> int" where
  "page_number pageStr =
     (if pageStr \<noteq> [] then (case ParseInt 64 pageStr of (p, okay) \<Rightarrow> if okay \<and> p > 0 then p else 1) else 1)"

definition paginate :: "int \<Rightarrow> 'a list \<Rightarrow> 'a list go" where
  "paginate pageNum results =
     (let totalResults = int (length results);
          startIndex = int64 (int64 (pageNum - 1) * pageSize);
          endIndex = int64 (startIndex + pageSize);
          startIndex = (if startIndex > totalResults then totalResults else startIndex);
          endIndex = (if endIndex > totalResults then totalResults else endIndex)
      in slice results startIndex endIndex)"

record token_pnl_page =
  pg_Tokens :: "token_and_pnl list"
  pg_Page :: int
  pg_PageSize :: int
  pg_Total :: int
  pg_TotalPages :: int

text \<open>
  The goroutines finish in any order; the results are sorted by token, of which there is one each.
\<close>

definition TokenPnlHandler ::
  "pnl_env \<Rightarrow> bool \<Rightarrow> gotime \<Rightarrow> string \<Rightarrow> string \<Rightarrow> string \<Rightarrow> database \<Rightarrow> token_pnl_page answer go" where
  "TokenPnlHandler env up now wallet timeframe pageStr db =
     (case GetSwapsOnDate up wallet (start_date now timeframe) db of
        Inl e \<Rightarrow> Inr (Failed 500)
      | Inr swaps \<Rightarrow>
          if length swaps = 0 then
            Inr (Answer \<lparr>pg_Tokens = [], pg_Page = 1, pg_PageSize = 100, pg_Total = 0, pg_TotalPages = 0\<rparr>)
          else
            go_bind (go_fold (\<lambda>results swapLogs. go_bind (token_result env swapLogs) (\<lambda>r. Inr (results @ r))) [] (token_groups swaps)) (\<lambda>results.
              let results = sort_key tn_Token results; totalResults = int (length results); pageNum = page_number pageStr in
              Inr (case paginate pageNum results of
                     Inl e \<Rightarrow> Failed 500
                   | Inr paginatedResults \<Rightarrow>
                       Answer \<lparr>pg_Tokens = paginatedResults, pg_Page = pageNum, pg_PageSize = pageSize, pg_Total = totalResults,
                         pg_TotalPages = (totalResults + pageSize - 1) div pageSize\<rparr>)))"

section \<open>Aggregated profit and loss\<close>

record aggregate =
  ag_RealizedPnLUSD :: gonum
  ag_UnrealizedPnLUSD :: gonum
  ag_RealizedROI :: gonum
  ag_UnrealizedROI :: gonum
  ag_winCount :: nat
  ag_investment :: gonum
  ag_weightedROI :: gonum
  ag_buys :: nat
  ag_sells :: nat
  ag_sellVolume :: gonum
  ag_buyVolume :: gonum
  ag_held :: int
  ag_sold :: gonum
  ag_active :: gonum
  ag_traded :: "string set"

definition no_aggregate :: aggregate where
  "no_aggregate = \<lparr>ag_RealizedPnLUSD = Fin 0, ag_UnrealizedPnLUSD = Fin 0, ag_RealizedROI = Fin 0, ag_UnrealizedROI = Fin 0,
     ag_winCount = 0, ag_investment = Fin 0, ag_weightedROI = Fin 0, ag_buys = 0, ag_sells = 0, ag_sellVolume = Fin 0,
     ag_buyVolume = Fin 0, ag_held = 0, ag_sold = Fin 0, ag_active = Fin 0, ag_traded = {}\<rparr>"

text \<open>
  The goroutine of one token. The two counters are incremented before the lock is taken; they are
  exact here, which the data race of the source does not guarantee. What is traded is counted by pair.
\<close>

definition aggregate_group :: "pnl_env \<Rightarrow> aggregate \<Rightarrow> swap_log list \<Rightarrow> aggregate go" where
  "aggregate_group env a swapLogs =
     (case group_price env swapLogs of
        None \<Rightarrow> Inr a
      | Some usdPrice \<Rightarrow>
          go_bind (CalculateTokenPnL (pe_oor env) swapLogs usdPrice (pe_latest env)) (\<lambda>(pnl, t, currentValue).
          go_bind (bf_add 53 (ag_buyVolume a) (pt_BuyValue t)) (\<lambda>buyVolume.
          go_bind (bf_add 53 (ag_sellVolume a) (pt_SellValue t)) (\<lambda>sellVolume.
          go_bind (bf_add 53 (ag_sold a) (pt_Sold t)) (\<lambda>sold.
          go_bind (bf_add 53 (ag_active a) currentValue) (\<lambda>active.
          go_bind (if bf_less (Fin 0) (pt_BuyValue t)
                   then go_bind (bf_of_f64 (f64_div (tp_ROI pnl) (Fin 100))) (\<lambda>roi.
                     go_bind (bf_mul 53 roi (pt_BuyValue t)) (\<lambda>w.
                     go_bind (bf_add 53 (ag_weightedROI a) w) (\<lambda>weighted.
                     go_bind (bf_add 53 (ag_investment a) (pt_BuyValue t)) (\<lambda>investment. Inr (weighted, investment)))))
                   else Inr (ag_weightedROI a, ag_investment a)) (\<lambda>(weighted, investment).
            Inr \<lparr>ag_RealizedPnLUSD = f64_add (ag_RealizedPnLUSD a) (tp_RealizedPnLUSD pnl),
                 ag_UnrealizedPnLUSD = f64_add (ag_UnrealizedPnLUSD a) (tp_UnrealizedPnLUSD pnl),
                 ag_RealizedROI = f64_add (ag_RealizedROI a) (tp_RealizedROI pnl),
                 ag_UnrealizedROI = f64_add (ag_UnrealizedROI a) (tp_UnrealizedROI pnl),
                 ag_winCount = (if f64_less (Fin 0) (tp_RealizedPnLUSD pnl) then Suc (ag_winCount a) else ag_winCount a),
                 ag_investment = investment, ag_weightedROI = weighted,
                 ag_buys = ag_buys a + length (filter (\<lambda>s. sl_Action s = ''BUY'') swapLogs),
                 ag_sells = ag_sells a + length (filter (\<lambda>s. sl_Action s = ''SELL'') swapLogs),
                 ag_sellVolume = sellVolume, ag_buyVolume = buyVolume, ag_held = int64 (ag_held a + pt_Held t), ag_sold = sold,
                 ag_active = active, ag_traded = insert (sl_Pair (hd swapLogs)) (ag_traded a)\<rparr>)))))))"

record aggregated_pnl =
  ap_PnLUSD :: gonum
  ap_ROI :: gonum
  ap_RealizedPnLUSD :: gonum
  ap_RealizedROI :: gonum
  ap_UnrealizedPnLUSD :: gonum
  ap_UnrealizedROI :: gonum
  ap_TokensTraded :: nat
  ap_WinRate :: gonum
  ap_AverageHoldTime :: string
  ap_TotalBuy :: nat
  ap_TotalSell :: nat
  ap_TotalBuyVolumeUSD :: gonum
  ap_TotalSellVolumeUSD :: gonum
  ap_TotalVolumeUSD :: gonum
  ap_TotalActivePositionsUSD :: gonum

definition f64_of_nat :: "nat \<Rightarrow> gonum" where
  "f64_of_nat n = f64_round (of_nat n)"

definition finish_aggregate :: "int \<Rightarrow> aggregate \<Rightarrow> aggregated_pnl go" where
  "finish_aggregate oor a =
     go_bind (if bf_less (Fin 0) (ag_investment a)
              then percent_of (ag_weightedROI a) (ag_investment a) else Inr (Fin 0)) (\<lambda>roi.
       let traded = card (ag_traded a);
           buyVolume = bf_float64 (ag_buyVolume a); sellVolume = bf_float64 (ag_sellVolume a); sold = bf_float64 (ag_sold a) in
       Inr \<lparr>ap_PnLUSD = f64_add (ag_RealizedPnLUSD a) (ag_UnrealizedPnLUSD a), ap_ROI = roi,
            ap_RealizedPnLUSD = ag_RealizedPnLUSD a, ap_RealizedROI = ag_RealizedROI a,
            ap_UnrealizedPnLUSD = ag_UnrealizedPnLUSD a, ap_UnrealizedROI = ag_UnrealizedROI a,
            ap_TokensTraded = traded,
            ap_WinRate = (if traded > 0 then f64_mul (f64_div (f64_of_nat (ag_winCount a)) (f64_of_nat traded)) (Fin 100) else Fin 0),
            ap_AverageHoldTime = (if bf_less (Fin 0) (ag_sold a) \<and> f64_less (Fin 0) sold
              then hms oor (to_int64 oor (f64_div (f64_round (of_int (ag_held a))) sold)) else []),
            ap_TotalBuy = ag_buys a, ap_TotalSell = ag_sells a,
            ap_TotalBuyVolumeUSD = buyVolume, ap_TotalSellVolumeUSD = sellVolume, ap_TotalVolumeUSD = f64_add buyVolume sellVolume,
            ap_TotalActivePositionsUSD = bf_float64 (ag_active a)\<rparr>)"

text \<open>\<open>order\<close> arranges the groups in the order in which their goroutines take the lock; \<open>None\<close> is the zero value.\<close>

definition AggregatedPnlHandler ::
  "pnl_env \<Rightarrow> (swap_log list list \<Rightarrow> swap_log list list) \<Rightarrow> bool \<Rightarrow> gotime \<Rightarrow> string \<Rightarrow> string \<Rightarrow> database \<Rightarrow>
     aggregated_pnl option answer go" where
  "AggregatedPnlHandler env order up now wallet timeframe db =
     (case GetSwapsOnDate up wallet (start_date now timeframe) db of
        Inl e \<Rightarrow> Inr (Failed 500)
      | Inr swaps \<Rightarrow>
          if length swaps = 0 then Inr (Answer None)
          else
            go_bind (go_fold (aggregate_group env) no_aggregate (order (token_groups swaps))) (\<lambda>a.
              Inr (case finish_aggregate (pe_oor env) a of Inl e \<Rightarrow> Failed 500 | Inr r \<Rightarrow> Answer (Some r))))"

section \<open>Pages\<close>

lemma int64_small: "- (2 ^ 63) \<le> n \<Longrightarrow> n < 2 ^ 63 \<Longrightarrow> int64 n = n"
  by (simp add: int64_def)

lemma chunks_concat: "concat (map (\<lambda>k. take c (drop (c * k) xs)) [0..<n]) = take (c * n) xs"
proof (induction n)
  case (Suc n)
  have "take (c * Suc n) xs = take (c * n) xs @ take c (drop (c * n) xs)"
    using take_add [of "c * n" c xs] by (simp add: add.commute)
  then show ?case using Suc by simp
qed simp

lemma paginate_small:
  assumes "1 \<le> n" "n < 2 ^ 56" "length results < 2 ^ 62"
  shows "paginate n results = Inr (take 100 (drop (100 * nat (n - 1)) results))"
proof -
  define s where "s = nat ((n - 1) * 100)"
  have s: "(n - 1) * 100 = int s" "s = 100 * nat (n - 1)" using assms(1) by (simp_all add: s_def nat_mult_distrib)
  have i: "int64 (n - 1) = n - 1" "int64 (int s) = int s" "int64 (int s + 100) = int s + 100"
    using assms(1,2) s(1) [symmetric] by (simp_all add: int64_small)
  have "paginate n results =
      slice results (if int (length results) < int s then int (length results) else int s)
        (if int (length results) < int s + 100 then int (length results) else int s + 100)"
    unfolding paginate_def pageSize_def i(1) s(1) i Let_def by simp
  also have "\<dots> = Inr (take 100 (drop s results))"
  proof (cases "length results < s")
    case True
    then show ?thesis by (simp add: slice_def)
  next
    case False
    show ?thesis
    proof (cases "int (length results) < int s + 100")
      case True
      then have "take 100 (drop s results) = drop s results" by simp
      then show ?thesis using False True by (simp add: slice_def)
    next
      case long: False
      have "nat (int s + 100) - s = 100" by linarith
      then show ?thesis using False long by (simp add: slice_def)
    qed
  qed
  finally show ?thesis using s(2) by simp
qed

text \<open>
  The pages of the token report are disjoint and complete: page n is the n-th hundred of the results in order, also
  the last, shorter one and the empty ones after it, and the pages of the announced number of pages
  are all results.
\<close>

lemma paginate_complete:
  assumes "1 \<le> n" "n < 2 ^ 56" "length results < 2 ^ 62"
  shows "paginate n results = Inr (take 100 (drop (100 * nat (n - 1)) results)) \<and>
    concat (map (\<lambda>k. take 100 (drop (100 * k) results)) [0..<nat ((int (length results) + pageSize - 1) div pageSize)]) = results"
proof -
  let ?n = "nat ((int (length results) + pageSize - 1) div pageSize)"
  have "?n = (length results + 99) div 100" by (simp add: pageSize_def nat_div_distrib nat_add_distrib)
  moreover have "length results \<le> 100 * ((length results + 99) div 100)"
    using div_mult_mod_eq [of "length results + 99" 100] mod_less_divisor [of 100 "length results + 99"] by linarith
  ultimately have "take (100 * ?n) results = results" by simp
  then show ?thesis using paginate_small [OF assms] chunks_concat [of 100 results ?n] by simp
qed

lemma paginate_complete_witness: "paginate 2 (replicate 150 True) = Inr (replicate 50 True)"
  using paginate_complete [of 2 "replicate 150 True"] by simp

text \<open>A page number whose first index does not fit in 64 bits wraps around to a negative index.\<close>

lemma paginate_overflow: "paginate 92233720368547760 results = Inl PanicSlice"
proof -
  have "int64 (int64 (92233720368547760 - 1) * pageSize) = - 9223372036854775716" by (simp add: int64_def pageSize_def)
  then show ?thesis by (simp add: paginate_def slice_def Let_def)
qed

section \<open>Bundled launches\<close>

lemma find_creation_at:
  "find_creation getTx j swaps = CreationAt i \<Longrightarrow> \<exists>k < length swaps. i = j + k \<and>
     (\<exists>ls logs. getTx (sl_ID (swaps ! k)) = Some ls \<and> GetLogs ls = Inr logs \<and> isTokenCreation logs) \<and>
     (\<forall>m < k. \<exists>ls logs. getTx (sl_ID (swaps ! m)) = Some ls \<and> GetLogs ls = Inr logs \<and> \<not> isTokenCreation logs)"
proof (induction swaps arbitrary: j)
  case (Cons swap swaps)
  obtain ls where ls: "getTx (sl_ID swap) = Some ls" using Cons.prems by (cases "getTx (sl_ID swap)") auto
  obtain logs where logs: "GetLogs ls = Inr logs" using Cons.prems ls by (cases "GetLogs ls") auto
  show ?case
  proof (cases "isTokenCreation logs")
    case True
    then show ?thesis using Cons.prems ls logs by (intro exI [of _ 0]) auto
  next
    case False
    then have "find_creation getTx (Suc j) swaps = CreationAt i" using Cons.prems ls logs by simp
    then obtain k where k: "k < length swaps" "i = Suc j + k"
      "\<exists>ls logs. getTx (sl_ID (swaps ! k)) = Some ls \<and> GetLogs ls = Inr logs \<and> isTokenCreation logs"
      "\<forall>m < k. \<exists>ls logs. getTx (sl_ID (swaps ! m)) = Some ls \<and> GetLogs ls = Inr logs \<and> \<not> isTokenCreation logs"
      using Cons.IH by blast
    have "\<exists>ls logs. getTx (sl_ID ((swap # swaps) ! m)) = Some ls \<and> GetLogs ls = Inr logs \<and> \<not> isTokenCreation logs" if "m < Suc k" for m
      using that k(4) ls logs False by (cases m) auto
    then show ?thesis using k(1-3) by (intro exI [of _ "Suc k"]) auto
  qed
qed simp

text \<open>
  C37: A launch is reported as bundled only when one of the first swaps of the token comes from the transaction
  that created it and others share its block: the answer is the other swaps of that first block, in
  order, and no earlier swap of the block is from a creation.
\<close>

theorem CheckBundled_answer:
  assumes "CheckBundledHandler findToken getTx up address db = Answer (swaps, token)"
  shows "\<exists>first rest block i. FindFirstTokenSwaps up address db = Inr (first # rest) \<and>
     block = filter (\<lambda>s. sl_BlockNumber s = sl_BlockNumber first) (first # rest) \<and> i < length block \<and>
     swaps = take i block @ drop (Suc i) block \<and> swaps \<noteq> [] \<and>
     (\<exists>ls logs. getTx (sl_ID (block ! i)) = Some ls \<and> GetLogs ls = Inr logs \<and> isTokenCreation logs) \<and>
     (\<forall>m < i. \<exists>ls logs. getTx (sl_ID (block ! m)) = Some ls \<and> GetLogs ls = Inr logs \<and> \<not> isTokenCreation logs)"
proof -
  obtain first rest where f: "FindFirstTokenSwaps up address db = Inr (first # rest)"
    using assms by (auto simp: CheckBundledHandler_def split: sum.splits list.splits)
  define block where "block = filter (\<lambda>s. sl_BlockNumber s = sl_BlockNumber first) (first # rest)"
  have c: "length block \<noteq> 1" "\<exists>i. find_creation getTx 0 block = CreationAt i \<and> swaps = take i block @ drop (Suc i) block"
    using assms unfolding CheckBundledHandler_def f sum.case list.case Let_def block_def [symmetric]
    by (auto split: sum.splits if_splits creation.splits)
  then obtain i where i: "find_creation getTx 0 block = CreationAt i" "swaps = take i block @ drop (Suc i) block" by blast
  obtain k where k: "k < length block" "i = 0 + k"
      "\<exists>ls logs. getTx (sl_ID (block ! k)) = Some ls \<and> GetLogs ls = Inr logs \<and> isTokenCreation logs"
      "\<forall>m < k. \<exists>ls logs. getTx (sl_ID (block ! m)) = Some ls \<and> GetLogs ls = Inr logs \<and> \<not> isTokenCreation logs"
    using find_creation_at [OF i(1)] by blast
  have "length swaps = length block - 1" using i(2) k(1,2) by simp
  then have "swaps \<noteq> []" using c(1) k(1) by auto
  then show ?thesis using f i(2) k by (intro exI [of _ first] exI [of _ rest] exI [of _ block] exI [of _ i]) (simp add: block_def)
qed

definition bundle_db :: database where
  "bundle_db = empty_db\<lparr>db_swaps := [plain_log ''a'' ''BUY'' (Fin 5) (Fin 7) 1, (plain_log ''b'' ''BUY'' (Fin 1) (Fin 2) 2)\<lparr>sl_ID := ''other''\<rparr>]\<rparr>"

definition bundle_logs :: "string \<Rightarrow> string list option" where
  "bundle_logs txid = Some (if txid = ''sig''
     then [''Program P invoke [1]'', ''Program log: InitializeMint'', ''Program log: MintTo'', ''Program P success''] else [])"

lemma bundle_answer: "CheckBundledHandler (\<lambda>_. Inr None) bundle_logs True ''mint'' bundle_db =
    Answer ([(plain_log ''b'' ''BUY'' (Fin 1) (Fin 2) 2)\<lparr>sl_ID := ''other''\<rparr>], None)"
  by code_simp

lemma CheckBundled_answer_witness:
  "\<exists>first rest. FindFirstTokenSwaps True ''mint'' bundle_db = Inr (first # rest) \<and>
     CheckBundledHandler (\<lambda>_. Inr None) bundle_logs True ''mint'' bundle_db =
       Answer ([(plain_log ''b'' ''BUY'' (Fin 1) (Fin 2) 2)\<lparr>sl_ID := ''other''\<rparr>], None)"
  using CheckBundled_answer [OF bundle_answer] bundle_answer by blast

text \<open>A limit that is no number is read as 0, and the answer is the empty list.\<close>

lemma TopTraders_bad_limit:
  assumes "FindTopTraders True address 0 db = Inr traders"
  shows "TopTradersHandler True address ''ten'' db = Answer []"
proof -
  have "traders = []" using assms by (auto simp: FindTopTraders_def limit_offset_def Let_def split: if_splits)
  moreover have "ParseInt 32 ''ten'' = (0, False)" by code_simp
  ultimately show ?thesis using assms by (simp add: TopTradersHandler_def)
qed

text \<open>An offset without a limit is ignored.\<close>

lemma WalletActivity_offset_ignored:
  "WalletActivityHandler up wallet [] offset db = WalletActivityHandler up wallet ''100'' ''0'' db"
  by (simp add: WalletActivityHandler_def)

end
