(* ===== verification/Tracker.thy ===== *)
theory Tracker
  imports Codec Routes "HOL-Library.Multiset"
begin

text \<open>
  The price tracker (internal/trackers/main.go, with the decoder of main_easyjson.go): looking up a
  price at the exchange's service, the cache in front of it, and the goroutines that use it. The
  answers of the service are passed in.
\<close>

section \<open>Answers of the service\<close>

record tracker_data =
  td_Amount :: string
  td_Base :: string
  td_Currency :: string

definition decode_tracker_data :: "json \<Rightarrow> tracker_data \<Rightarrow> tracker_data option" where
  "decode_tracker_data = decode_object (\<lambda>key v out.
     if key = ''amount'' then map_option (\<lambda>x. out\<lparr>td_Amount := x\<rparr>) (lex_string v)
     else if key = ''base'' then map_option (\<lambda>x. out\<lparr>td_Base := x\<rparr>) (lex_string v)
     else if key = ''currency'' then map_option (\<lambda>x. out\<lparr>td_Currency := x\<rparr>) (lex_string v)
     else Some out)"

definition decode_TrackerResponse :: "json \<Rightarrow> tracker_data \<Rightarrow> tracker_data option" where
  "decode_TrackerResponse = decode_object (\<lambda>key v out.
     if key = ''data'' then decode_tracker_data v out else Some out)"

text \<open>The GET fails, the body is not JSON, or it is a value; the status is not looked at.\<close>

datatype fetched = GetFails | NotJson | Body json

section \<open>Prices\<close>

definition validSymbols :: "string \<Rightarrow> bool" where
  "validSymbols symbol \<longleftrightarrow> symbol \<in> set [''BTC'', ''ETH'', ''WETH'', ''SOL'', ''USDT'', ''USDC'']"

definition upper_char :: "char \<Rightarrow> char" where
  "upper_char c = (if c \<in> set ''abcdefghijklmnopqrstuvwxyz'' then char_of (of_char c - 32 :: nat) else c)"

text \<open>ToUpper is only applied to a valid symbol, so the letters of ASCII suffice.\<close>

definition lookupPrice :: "(string \<Rightarrow> fetched) \<Rightarrow> string \<Rightarrow> gonum option" where
  "lookupPrice get symbol =
     (if \<not> validSymbols symbol then None
      else
        let symbol = map upper_char symbol in
        (case get (''https://api.coinbase.com/v2/prices/'' @ symbol @ ''-USD/buy'') of
           GetFails \<Rightarrow> None
         | NotJson \<Rightarrow> None
         | Body j \<Rightarrow>
             (case decode_TrackerResponse j \<lparr>td_Amount = [], td_Base = [], td_Currency = []\<rparr> of
                None \<Rightarrow> None
              | Some response \<Rightarrow>
                  (case parse_float (td_Amount response) of
                     None \<Rightarrow> None
                   | Some amount \<Rightarrow> if td_Base response \<noteq> symbol then None else Some amount))))"

type_synonym prices = "string \<rightharpoonup> gonum"

definition GetUSDPrice :: "(string \<Rightarrow> fetched) \<Rightarrow> string \<Rightarrow> prices \<Rightarrow> gonum \<times> prices" where
  "GetUSDPrice get symbol cache =
     (case cache symbol of
        Some price \<Rightarrow> (price, cache)
      | None \<Rightarrow> (case lookupPrice get symbol of
            None \<Rightarrow> (Fin 0, cache)
          | Some amount \<Rightarrow> (amount, cache(symbol \<mapsto> amount))))"

text \<open>
  One tick of Run: the symbols of the cache in the order the map yields them, with the answers of the
  service at each. A price that cannot be looked up keeps its old value.
\<close>

fun run_tick :: "(string \<times> (string \<Rightarrow> fetched)) list \<Rightarrow> prices \<Rightarrow> prices" where
  "run_tick [] cache = cache"
| "run_tick ((symbol, get) # rest) cache =
     run_tick rest (case lookupPrice get symbol of None \<Rightarrow> cache | Some amount \<Rightarrow> cache(symbol \<mapsto> amount))"

section \<open>Interleavings\<close>

text \<open>
  The handlers' calls of GetUSDPrice and the ticker run side by side. A call that misses looks up the
  price outside of the lock, so its store is a step of its own; Run does not take the lock at all.
\<close>

inductive tracker_step :: "prices \<times> (string \<times> gonum) multiset \<Rightarrow> prices \<times> (string \<times> gonum) multiset \<Rightarrow> bool" where
  missed: "cache symbol = None \<Longrightarrow> lookupPrice get symbol = Some amount \<Longrightarrow>
     tracker_step (cache, pending) (cache, add_mset (symbol, amount) pending)"
| stores: "tracker_step (cache, add_mset (symbol, amount) pending) (cache(symbol \<mapsto> amount), pending)"
| refreshes: "cache symbol \<noteq> None \<Longrightarrow> lookupPrice get symbol = Some amount \<Longrightarrow>
     tracker_step (cache, pending) (cache(symbol \<mapsto> amount), pending)"

inductive_cases tracker_stepE: "tracker_step s t"

section \<open>Lemmas\<close>

lemma lookup_valid: "lookupPrice get symbol = Some amount \<Longrightarrow> validSymbols symbol"
  by (simp add: lookupPrice_def split: if_splits)

text \<open>What the look-up returns is a price the service gave for this symbol.\<close>

lemma lookup_exact:
  "lookupPrice get symbol = Some amount \<longleftrightarrow> validSymbols symbol \<and>
     (\<exists>j r. get (''https://api.coinbase.com/v2/prices/'' @ map upper_char symbol @ ''-USD/buy'') = Body j \<and>
        decode_TrackerResponse j \<lparr>td_Amount = [], td_Base = [], td_Currency = []\<rparr> = Some r \<and>
        parse_float (td_Amount r) = Some amount \<and> td_Base r = map upper_char symbol)"
  by (auto simp: lookupPrice_def Let_def split: fetched.splits option.splits)

text \<open>The price endpoint answers 200 with the price 0 for a symbol it does not know, whatever the service says.\<close>

lemma unknown_symbol_free:
  assumes "\<not> validSymbols symbol" "cache symbol = None"
  shows "PriceLookupHandler (\<lambda>s. fst (GetUSDPrice get s cache)) symbol = Answer (Fin 0, symbol, ''USD'')"
  using assms by (simp add: PriceLookupHandler_def GetUSDPrice_def lookupPrice_def)

text \<open>
  \<open>offered\<close> holds the prices the service has given; the invariant is that the cache and the
  stores under way hold only such prices of valid symbols.
\<close>

definition prices_ok :: "(string \<times> gonum) set \<Rightarrow> prices \<times> (string \<times> gonum) multiset \<Rightarrow> bool" where
  "prices_ok offered = (\<lambda>(cache, pending).
     (\<forall>symbol price. cache symbol = Some price \<longrightarrow> validSymbols symbol \<and> (symbol, price) \<in> offered) \<and>
     (\<forall>(symbol, price) \<in># pending. validSymbols symbol \<and> (symbol, price) \<in> offered))"

lemma step_prices_ok:
  assumes "tracker_step s t" "prices_ok offered s"
    and "\<And>get symbol amount. lookupPrice get symbol = Some amount \<Longrightarrow> (symbol, amount) \<in> offered"
  shows "prices_ok offered t"
  using assms(1,2) by (elim tracker_stepE) (auto simp: prices_ok_def lookup_valid dest: assms(3))

text \<open>A cached price is served without asking, and a tick changes no symbol that is not cached.\<close>

lemma cached_price: "cache symbol = Some price \<Longrightarrow> GetUSDPrice get symbol cache = (price, cache)"
  by (simp add: GetUSDPrice_def)

lemma second_call:
  assumes "GetUSDPrice get symbol cache = (price, cache')" "lookupPrice get symbol \<noteq> None"
  shows "GetUSDPrice get' symbol cache' = (price, cache')"
  using assms by (auto simp: GetUSDPrice_def split: option.splits)

lemma tick_dom: "fst ` set answers \<subseteq> dom cache \<Longrightarrow> dom (run_tick answers cache) = dom cache"
proof (induction answers cache rule: run_tick.induct)
  case (2 symbol get rest cache)
  let ?c = "case lookupPrice get symbol of None \<Rightarrow> cache | Some amount \<Rightarrow> cache(symbol \<mapsto> amount)"
  have "dom ?c = dom cache" using 2(2) by (auto split: option.splits)
  then show ?case using 2 by simp
qed simp

text \<open>A tick whose requests all fail leaves every price as it is: a price is served however old it is.\<close>

lemma stale_prices: "(\<And>symbol get. (symbol, get) \<in> set answers \<Longrightarrow> lookupPrice get symbol = None) \<Longrightarrow> run_tick answers cache = cache"
  by (induction answers cache rule: run_tick.induct) auto

end
