(* ===== verification/Listener.thy ===== *)
theory Listener
  imports Codec
begin

text \<open>
  The block listener (internal/solana/newBlocks.go, with the conversions of utils.go): one update of the Geyser
  stream after the other is turned into a transaction and put on the queue. The messages of the
  stream are those of the yellowstone protocol; a pointer in them may be nil. Connecting, keeping
  the stream alive and subscribing are calls of the gRPC library.
\<close>

section \<open>The protocol's messages\<close>

record pb_ui_amount =
  pu_UiAmount :: gonum
  pu_Decimals :: "32 word"
  pu_Amount :: string
  pu_UiAmountString :: string

record pb_token_balance =
  pk_AccountIndex :: "32 word"
  pk_Mint :: string
  pk_UiTokenAmount :: "pb_ui_amount option"
  pk_Owner :: string
  pk_ProgramId :: string

record pb_instruction =
  pi_ProgramIdIndex :: "32 word"
  pi_Accounts :: "byte list"
  pi_Data :: "byte list"

record pb_inner =
  pn_Index :: "32 word"
  pn_Instructions :: "pb_instruction list"

record pb_lookup =
  pl_AccountKey :: "byte list"
  pl_WritableIndexes :: "byte list"
  pl_ReadonlyIndexes :: "byte list"

record pb_message =
  pm_AccountKeys :: "byte list list"
  pm_RecentBlockhash :: "byte list"
  pm_Instructions :: "pb_instruction list"
  pm_AddressTableLookups :: "pb_lookup list"

record pb_transaction =
  px_Signatures :: "byte list list"
  px_Message :: "pb_message option"

record pb_meta =
  pe_Fee :: "64 word"
  pe_PreBalances :: "64 word list"
  pe_PostBalances :: "64 word list"
  pe_InnerInstructions :: "pb_inner list"
  pe_LogMessages :: "string list"
  pe_PreTokenBalances :: "pb_token_balance list"
  pe_PostTokenBalances :: "pb_token_balance list"
  pe_LoadedWritableAddresses :: "byte list list"
  pe_LoadedReadonlyAddresses :: "byte list list"

record pb_tx_info =
  pf_Transaction :: "pb_transaction option"
  pf_Meta :: "pb_meta option"

text \<open>The oneof of an update: a transaction with its slot, the metadata of a block with its time, or another.\<close>

datatype stream_update = TransactionUpdate "64 word" "pb_tx_info option" | BlockMetaUpdate "int option" | OtherUpdate

definition deref :: "'a option \<Rightarrow> ('a \<Rightarrow> 'b go) \<Rightarrow> 'b go" where
  "deref p f = (case p of None \<Rightarrow> Inl PanicNil | Some x \<Rightarrow> f x)"

section \<open>Conversions\<close>

definition convert_balance :: "pb_token_balance \<Rightarrow> token_balance go" where
  "convert_balance v = deref (pk_UiTokenAmount v) (\<lambda>u. Inr \<lparr>tb_AccountIndex = uint (pk_AccountIndex v), tb_Mint = pk_Mint v,
     tb_Owner = pk_Owner v, tb_ProgramId = pk_ProgramId v,
     tb_UITokenAmount = \<lparr>ta_Amount = pu_Amount u, ta_Decimals = uint (pu_Decimals u), ta_UiAmount = pu_UiAmount u,
       ta_UiAmountString = pu_UiAmountString u\<rparr>\<rparr>)"

definition convertToTokenBalanceSlice :: "pb_token_balance list \<Rightarrow> token_balance list go" where
  "convertToTokenBalanceSlice input = go_map convert_balance input"

definition convertToInstructions :: "ext \<Rightarrow> pb_instruction list \<Rightarrow> instruction list" where
  "convertToInstructions E instrs = map (\<lambda>instr. \<lparr>ix_Accounts = convertToIntSlice (pi_Accounts instr),
     ix_Data = b58_encode E (pi_Data instr), ix_ProgramIdIndex = uint (pi_ProgramIdIndex instr)\<rparr>) instrs"

text \<open>The same code for the inner instructions.\<close>

definition convertToInnerInstructions :: "ext \<Rightarrow> pb_instruction list \<Rightarrow> instruction list" where
  "convertToInnerInstructions E instrs = map (\<lambda>instr. \<lparr>ix_Accounts = convertToIntSlice (pi_Accounts instr),
     ix_Data = b58_encode E (pi_Data instr), ix_ProgramIdIndex = uint (pi_ProgramIdIndex instr)\<rparr>) instrs"

definition convert_message :: "ext \<Rightarrow> pb_message \<Rightarrow> message" where
  "convert_message E m = \<lparr>ms_AccountKeys = map (b58_encode E) (pm_AccountKeys m),
     ms_AddressTableLookups = map (\<lambda>atl. \<lparr>al_AccountKey = b58_encode E (pl_AccountKey atl),
       al_ReadonlyIndexes = convertToIntSlice (pl_ReadonlyIndexes atl),
       al_WritableIndexes = convertToIntSlice (pl_WritableIndexes atl)\<rparr>) (pm_AddressTableLookups m),
     ms_Instructions = convertToInstructions E (pm_Instructions m), ms_RecentBlockhash = b58_encode E (pm_RecentBlockhash m)\<rparr>"

text \<open>A repeated field without elements is nil.\<close>

definition convert_meta :: "ext \<Rightarrow> pb_meta \<Rightarrow> transaction_meta go" where
  "convert_meta E m =
     go_bind (convertToTokenBalanceSlice (pe_PreTokenBalances m)) (\<lambda>pre.
     go_bind (convertToTokenBalanceSlice (pe_PostTokenBalances m)) (\<lambda>post.
       Inr \<lparr>tm_Err = Some (JNull, JNull), tm_Fee = sint (pe_Fee m),
            tm_InnerInstructions = map (\<lambda>instr. \<lparr>ii_Index = uint (pn_Index instr),
              ii_Instructions = convertToInnerInstructions E (pn_Instructions instr)\<rparr>) (pe_InnerInstructions m),
            tm_LogMessages = (if pe_LogMessages m = [] then None else Some (pe_LogMessages m)),
            tm_PostBalances = pe_PostBalances m, tm_PostTokenBalances = post, tm_PreBalances = pe_PreBalances m,
            tm_PreTokenBalances = pre,
            tm_LoadedAddresses = \<lparr>la_Readonly = convertToBase58Strings E (pe_LoadedReadonlyAddresses m),
              la_Writable = convertToBase58Strings E (pe_LoadedWritableAddresses m)\<rparr>\<rparr>))"

definition convert_transaction :: "ext \<Rightarrow> pb_tx_info option \<Rightarrow> solana_tx go" where
  "convert_transaction E info =
     deref info (\<lambda>i. deref (pf_Transaction i) (\<lambda>t. deref (px_Message t) (\<lambda>m. deref (pf_Meta i) (\<lambda>meta.
       go_bind (convert_meta E meta) (\<lambda>tm.
         Inr \<lparr>tx_Meta = tm, tx_Transaction = \<lparr>td_Message = convert_message E m,
           td_Signatures = map (b58_encode E) (px_Signatures t)\<rparr>\<rparr>)))))"

section \<open>The stream\<close>

definition HandleTransaction ::
  "(block_data \<Rightarrow> 'b option) \<Rightarrow> dials \<Rightarrow> broker \<Rightarrow> solana_tx \<Rightarrow> int \<Rightarrow> 64 word \<Rightarrow> 'b queue_state \<Rightarrow> 'b queue_state go" where
  "HandleTransaction marshal dials bk tx blockTime block q =
     AddToSolanaQueue marshal dials bk \<lparr>bl_Transactions = [tx], bl_Timestamp = blockTime, bl_Block = block, bl_IgnoreWS = False\<rparr> q"

text \<open>What one iteration of the receiving loop meets beside the update: the clock and the broker.\<close>

record arrival =
  ar_update :: stream_update
  ar_now :: int
  ar_dials :: dials
  ar_broker :: broker

text \<open>The state is the last block number, the last block time, and the queue.\<close>

definition listen_step ::
  "ext \<Rightarrow> (block_data \<Rightarrow> 'b option) \<Rightarrow> 64 word \<times> int \<times> 'b queue_state \<Rightarrow> arrival \<Rightarrow> (64 word \<times> int \<times> 'b queue_state) go" where
  "listen_step E marshal = (\<lambda>(blockNumber, blockTime, q) a.
     case ar_update a of
       TransactionUpdate slot info \<Rightarrow>
         go_bind (convert_transaction E info) (\<lambda>solanaTx.
           if td_Signatures (tx_Transaction solanaTx) \<noteq> [] then
             let blockTime = (if blockTime = 0 then ar_now a else blockTime) in
             go_bind (HandleTransaction marshal (ar_dials a) (ar_broker a) solanaTx blockTime slot q) (\<lambda>q.
               Inr (slot, blockTime, q))
           else Inr (slot, blockTime, q))
     | BlockMetaUpdate time \<Rightarrow> deref time (\<lambda>t. Inr (blockNumber, t, q))
     | OtherUpdate \<Rightarrow> Inr (blockNumber, blockTime, q))"

definition grpcSubscribe ::
  "ext \<Rightarrow> (block_data \<Rightarrow> 'b option) \<Rightarrow> arrival list \<Rightarrow> 'b queue_state \<Rightarrow> (64 word \<times> int \<times> 'b queue_state) go" where
  "grpcSubscribe E marshal arrivals q = go_fold (listen_step E marshal) (0, 0, q) arrivals"

text \<open>
  Listen tries for ever: a connection or a subscription that fails is tried again, and a stream that
  breaks off is subscribed to again, with the slot and the time forgotten. \<open>ListenLoop\<close> runs the
  attempts it is given.
\<close>

datatype attempt = ConnectFails | SubscribeFails | Stream "arrival list"

fun ListenLoop :: "ext \<Rightarrow> (block_data \<Rightarrow> 'b option) \<Rightarrow> attempt list \<Rightarrow> 'b queue_state \<Rightarrow> 'b queue_state go" where
  "ListenLoop E marshal [] q = Inr q"
| "ListenLoop E marshal (attempt # attempts) q =
     (case attempt of
        ConnectFails \<Rightarrow> ListenLoop E marshal attempts q
      | SubscribeFails \<Rightarrow> ListenLoop E marshal attempts q
      | Stream arrivals \<Rightarrow> go_bind (grpcSubscribe E marshal arrivals q) (\<lambda>(slot, time, q). ListenLoop E marshal attempts q))"

section \<open>Lemmas\<close>

lemma deref_Inr: "deref p f = Inr y \<longleftrightarrow> (\<exists>x. p = Some x \<and> f x = Inr y)"
  by (auto simp: deref_def split: option.splits)

lemma uint32_fits: "int_ok (uint (w :: 32 word))"
  using uint_lt2p [of w] by (simp add: int_ok_def order_trans [OF _ uint_ge_0])

lemma byte_fits: "list_all int_ok (convertToIntSlice bs)"
proof -
  have "int_ok (uint b)" for b :: byte
    using uint_lt2p [of b] by (simp add: int_ok_def order_trans [OF _ uint_ge_0])
  then show ?thesis by (auto simp: convertToIntSlice_def list_all_iff)
qed

lemma sint64_fits: "int_ok (sint (w :: 64 word))"
  using sint_lt [of w] sint_ge [of w] by (simp add: int_ok_def)

lemma instructions_fit: "list_all instruction_fits (convertToInstructions E is)" "list_all instruction_fits (convertToInnerInstructions E is)"
  by (simp_all add: convertToInstructions_def convertToInnerInstructions_def list_all_iff instruction_fits_def uint32_fits
      byte_fits [unfolded list_all_iff])

lemma message_converts: "message_fits (convert_message E m)"
  by (simp add: message_fits_def convert_message_def instructions_fit [unfolded list_all_iff] list_all_iff lookup_fits_def byte_fits [unfolded list_all_iff])

definition floats_ok :: "pb_token_balance list \<Rightarrow> bool" where
  "floats_ok bs \<longleftrightarrow> list_all (\<lambda>b. case pk_UiTokenAmount b of None \<Rightarrow> True | Some u \<Rightarrow> float_ok (pu_UiAmount u)) bs"

lemma balances_fit:
  assumes "convertToTokenBalanceSlice bs = Inr ts" "floats_ok bs"
  shows "list_all balance_fits ts"
  using assms
proof (induction bs arbitrary: ts)
  case (Cons b bs)
  obtain u where u: "pk_UiTokenAmount b = Some u"
    using Cons.prems(1) by (cases "pk_UiTokenAmount b") (simp_all add: convertToTokenBalanceSlice_def convert_balance_def deref_def)
  then obtain t where t: "convert_balance b = Inr t" "balance_fits t"
    using Cons.prems(2) by (auto simp: convert_balance_def deref_def floats_ok_def balance_fits_def uint32_fits)
  obtain ts' where ts': "convertToTokenBalanceSlice bs = Inr ts'" "ts = t # ts'"
    using Cons.prems(1) t(1) by (cases "go_map convert_balance bs") (auto simp: convertToTokenBalanceSlice_def)
  then show ?case using Cons.IH [OF ts'(1)] Cons.prems(2) t(2) by (simp add: floats_ok_def)
qed (simp add: convertToTokenBalanceSlice_def)

lemma meta_converts:
  assumes "convert_meta E m = Inr tm" "floats_ok (pe_PreTokenBalances m)" "floats_ok (pe_PostTokenBalances m)"
  shows "meta_fits tm"
proof -
  obtain pre where pre: "convertToTokenBalanceSlice (pe_PreTokenBalances m) = Inr pre"
    using assms(1) by (cases "convertToTokenBalanceSlice (pe_PreTokenBalances m)") (simp_all add: convert_meta_def)
  obtain post where post: "convertToTokenBalanceSlice (pe_PostTokenBalances m) = Inr post"
    using assms(1) pre by (cases "convertToTokenBalanceSlice (pe_PostTokenBalances m)") (simp_all add: convert_meta_def)
  show ?thesis
    using assms(1) balances_fit [OF pre assms(2)] balances_fit [OF post assms(3)]
    by (auto simp: convert_meta_def pre post meta_fits_def sint64_fits list_all_iff inner_fits_def uint32_fits
        instructions_fit [unfolded list_all_iff])
qed

lemma transaction_converts:
  assumes "convert_transaction E info = Inr tx"
  obtains i t m meta tm where "info = Some i" "pf_Transaction i = Some t" "px_Message t = Some m" "pf_Meta i = Some meta"
    "convert_meta E meta = Inr tm"
    "tx = \<lparr>tx_Meta = tm, tx_Transaction = \<lparr>td_Message = convert_message E m, td_Signatures = map (b58_encode E) (px_Signatures t)\<rparr>\<rparr>"
  using assms by (auto simp: convert_transaction_def deref_Inr go_bind_ok)

definition stream_floats_ok :: "pb_tx_info option \<Rightarrow> bool" where
  "stream_floats_ok info = (case info of None \<Rightarrow> True | Some i \<Rightarrow>
     (case pf_Meta i of None \<Rightarrow> True | Some m \<Rightarrow> floats_ok (pe_PreTokenBalances m) \<and> floats_ok (pe_PostTokenBalances m)))"

lemma converted_fits:
  assumes "convert_transaction E info = Inr tx" "stream_floats_ok info"
  shows "tx_fits tx"
proof -
  obtain i t m meta tm where c:
    "info = Some i" "pf_Transaction i = Some t" "px_Message t = Some m" "pf_Meta i = Some meta" "convert_meta E meta = Inr tm"
    "tx = \<lparr>tx_Meta = tm, tx_Transaction = \<lparr>td_Message = convert_message E m, td_Signatures = map (b58_encode E) (px_Signatures t)\<rparr>\<rparr>"
    by (rule transaction_converts [OF assms(1)])
  have "meta_fits tm" using meta_converts [OF c(5)] assms(2) c(1,4) by (simp add: stream_floats_ok_def)
  then show ?thesis by (simp add: c(6) tx_fits_def message_converts)
qed

text \<open>The conversion never produces an empty list of log messages, the one value the queue changes.\<close>

lemma converted_survives:
  assumes "convert_transaction E info = Inr tx"
  shows "after_queue tx = tx"
proof -
  obtain i t m meta tm where c:
    "info = Some i" "pf_Transaction i = Some t" "px_Message t = Some m" "pf_Meta i = Some meta" "convert_meta E meta = Inr tm"
    "tx = \<lparr>tx_Meta = tm, tx_Transaction = \<lparr>td_Message = convert_message E m, td_Signatures = map (b58_encode E) (px_Signatures t)\<rparr>\<rparr>"
    by (rule transaction_converts [OF assms])
  have "tm_LogMessages tm \<noteq> Some []" using c(5) by (auto simp: convert_meta_def go_bind_ok split: if_splits)
  then show ?thesis by (simp add: after_queue_def c(6))
qed

text \<open>A transaction without its parts (the stream's pointers may be nil) panics the listener.\<close>

lemma listen_step_panics:
  "listen_step E marshal (n, t, q) \<lparr>ar_update = TransactionUpdate slot None, ar_now = now, ar_dials = d, ar_broker = bk\<rparr> = Inl PanicNil"
  "listen_step E marshal (n, t, q) \<lparr>ar_update = BlockMetaUpdate None, ar_now = now, ar_dials = d, ar_broker = bk\<rparr> = Inl PanicNil"
  by (simp_all add: listen_step_def convert_transaction_def deref_def)

text \<open>The time a transaction gets is that of the block metadata received before it, which belong to an earlier block.\<close>

lemma stamped_by_previous_block:
  assumes "convert_transaction E info = Inr tx" "td_Signatures (tx_Transaction tx) \<noteq> []" "t \<noteq> 0"
  shows "go_fold (listen_step E marshal) (n, t0, q)
      [\<lparr>ar_update = BlockMetaUpdate (Some t), ar_now = now, ar_dials = d, ar_broker = bk\<rparr>,
       \<lparr>ar_update = TransactionUpdate slot info, ar_now = now', ar_dials = d', ar_broker = bk'\<rparr>] =
    go_bind (HandleTransaction marshal d' bk' tx t slot q) (\<lambda>q'. Inr (slot, t, q'))"
  using assms by (simp add: listen_step_def deref_def go_bind_def split: sum.splits)

text \<open>
  The listener only ever adds to the queue: whatever the stream sends, however often it breaks off,
  and whatever the broker answers.
\<close>

lemma AddToSolanaQueue_appends:
  "AddToSolanaQueue marshal dials bk b q = Inr q' \<Longrightarrow> \<exists>js. qs_messages q' = qs_messages q @ js \<and> length js \<le> 1"
  by (auto simp: AddToSolanaQueue_def go_bind_ok Let_def split: if_splits option.splits)

lemma listen_step_appends:
  assumes "listen_step E marshal (n, t, q) a = Inr (n', t', q')"
  shows "\<exists>js. qs_messages q' = qs_messages q @ js \<and> length js \<le> 1"
  using assms
  by (auto simp: listen_step_def HandleTransaction_def go_bind_ok deref_Inr Let_def dest: AddToSolanaQueue_appends
      split: stream_update.splits if_splits)

lemma grpcSubscribe_appends:
  assumes "go_fold (listen_step E marshal) (n, t, q) arrivals = Inr (n', t', q')"
  shows "\<exists>js. qs_messages q' = qs_messages q @ js \<and> length js \<le> length arrivals"
  using assms
proof (induction arrivals arbitrary: n t q)
  case (Cons a arrivals)
  obtain n1 t1 q1 where one: "listen_step E marshal (n, t, q) a = Inr (n1, t1, q1)"
    "go_fold (listen_step E marshal) (n1, t1, q1) arrivals = Inr (n', t', q')"
    using Cons.prems by (cases "listen_step E marshal (n, t, q) a") auto
  obtain js where js: "qs_messages q1 = qs_messages q @ js" "length js \<le> 1" using listen_step_appends [OF one(1)] by blast
  obtain ks where "qs_messages q' = qs_messages q1 @ ks" "length ks \<le> length arrivals" using Cons.IH [OF one(2)] by blast
  then show ?case using js by (intro exI [of _ "js @ ks"]) simp
qed simp

lemma Listen_appends: "ListenLoop E marshal attempts q = Inr q' \<Longrightarrow> \<exists>js. qs_messages q' = qs_messages q @ js"
proof (induction E marshal attempts q rule: ListenLoop.induct)
  case (2 E marshal attempt attempts q)
  show ?case
  proof (cases attempt)
    case (Stream arrivals)
    then obtain n t r where r: "grpcSubscribe E marshal arrivals q = Inr (n, t, r)" "ListenLoop E marshal attempts r = Inr q'"
      using "2.prems" by (auto simp: go_bind_ok)
    then obtain js where "qs_messages r = qs_messages q @ js"
      using grpcSubscribe_appends by (fastforce simp: grpcSubscribe_def)
    moreover obtain ks where "qs_messages q' = qs_messages r @ ks" using "2.IH"(3) [OF Stream r(1)] r(2) by blast
    ultimately show ?thesis by simp
  qed (use 2 in simp_all)
qed simp

section \<open>Property\<close>

lemma listener_publishes:
  assumes "ar_update a = TransactionUpdate slot info" "convert_transaction E info = Inr tx" "stream_floats_ok info"
    and "td_Signatures (tx_Transaction tx) \<noteq> []" "int_ok blockTime" "int_ok (ar_now a)"
    and "qs_open q" "bk_declare (ar_broker a)" "bk_publish (ar_broker a)"
  shows "\<exists>j time. time = (if blockTime = 0 then ar_now a else blockTime) \<and>
     listen_step E BlockData_MarshalJSON (n, blockTime, q) a = Inr (slot, time, q\<lparr>qs_open := True, qs_messages := qs_messages q @ [j]\<rparr>) \<and>
     BlockData_UnmarshalJSON j = Some \<lparr>bl_Transactions = [tx], bl_Timestamp = time, bl_Block = slot, bl_IgnoreWS = False\<rparr>"
proof -
  define time where "time = (if blockTime = 0 then ar_now a else blockTime)"
  define b where "b = \<lparr>bl_Transactions = [tx], bl_Timestamp = time, bl_Block = slot, bl_IgnoreWS = False\<rparr>"
  have fits: "block_fits b"
    using converted_fits [OF assms(2,3)] assms(5,6) by (simp add: b_def block_fits_def time_def)
  have "block_after_queue b = b" by (simp add: b_def block_after_queue_def converted_survives [OF assms(2)])
  then obtain j where j: "AddToSolanaQueue BlockData_MarshalJSON (ar_dials a) (ar_broker a) b q =
      Inr (q\<lparr>qs_open := True, qs_messages := qs_messages q @ [j]\<rparr>)" "BlockData_UnmarshalJSON j = Some b"
    using codec.published_is_read [OF fits assms(7-9)] by fastforce
  have "HandleTransaction BlockData_MarshalJSON (ar_dials a) (ar_broker a) tx time slot q =
      Inr (q\<lparr>qs_open := True, qs_messages := qs_messages q @ [j]\<rparr>)"
    unfolding HandleTransaction_def b_def [symmetric] by (rule j(1))
  then have "listen_step E BlockData_MarshalJSON (n, blockTime, q) a = Inr (slot, time, q\<lparr>qs_open := True, qs_messages := qs_messages q @ [j]\<rparr>)"
    using assms(1,2,4) by (simp add: listen_step_def Let_def flip: time_def)
  then show ?thesis using j(2) time_def b_def by blast
qed

text \<open>
  What the stream sends reaches the workers: a transaction of the stream puts exactly one message on the queue, and
  the decoder of the workers reads from it exactly that one converted transaction, its slot, and the
  time of the last block metadata (of the clock before there were any), to be broadcast.
\<close>

theorem listener_delivers:
  assumes "ar_update a = TransactionUpdate slot info" "convert_transaction E info = Inr tx" "stream_floats_ok info"
    and "td_Signatures (tx_Transaction tx) \<noteq> []" "int_ok blockTime" "int_ok (ar_now a)"
    and "qs_open q" "bk_declare (ar_broker a)" "bk_publish (ar_broker a)"
  shows "\<exists>j time. time = (if blockTime = 0 then ar_now a else blockTime) \<and>
     listen_step E BlockData_MarshalJSON (n, blockTime, q) a = Inr (slot, time, q\<lparr>qs_open := True, qs_messages := qs_messages q @ [j]\<rparr>) \<and>
     BlockData_UnmarshalJSON j = Some \<lparr>bl_Transactions = [tx], bl_Timestamp = time, bl_Block = slot, bl_IgnoreWS = False\<rparr>"
  by (rule listener_publishes [OF assms])

definition sample_update :: "pb_tx_info option" where
  "sample_update = Some \<lparr>
     pf_Transaction = Some \<lparr>px_Signatures = [[1, 2]],
       px_Message = Some \<lparr>pm_AccountKeys = [[3], [4]], pm_RecentBlockhash = [5],
         pm_Instructions = [\<lparr>pi_ProgramIdIndex = 1, pi_Accounts = [0, 1], pi_Data = [2]\<rparr>],
         pm_AddressTableLookups = []\<rparr>\<rparr>,
     pf_Meta = Some \<lparr>pe_Fee = 5, pe_PreBalances = [9], pe_PostBalances = [4], pe_InnerInstructions = [],
       pe_LogMessages = [''Program 11111111111111111111111111111111 invoke [1]''],
       pe_PreTokenBalances = [\<lparr>pk_AccountIndex = 1, pk_Mint = ''mint'',
         pk_UiTokenAmount = Some \<lparr>pu_UiAmount = Fin 0, pu_Decimals = 6, pu_Amount = ''0'', pu_UiAmountString = ''0''\<rparr>,
         pk_Owner = ''wallet'', pk_ProgramId = ''program''\<rparr>],
       pe_PostTokenBalances = [], pe_LoadedWritableAddresses = [], pe_LoadedReadonlyAddresses = []\<rparr>\<rparr>"

definition sample_arrival :: arrival where
  "sample_arrival = \<lparr>ar_update = TransactionUpdate 7 sample_update, ar_now = 100, ar_dials = (\<lambda>i. (True, True)),
     ar_broker = \<lparr>bk_declare = True, bk_publish = True\<rparr>\<rparr>"

definition sample_converted :: solana_tx where
  "sample_converted = \<lparr>
     tx_Meta = \<lparr>tm_Err = Some (JNull, JNull), tm_Fee = 5, tm_InnerInstructions = [],
       tm_LogMessages = Some [''Program 11111111111111111111111111111111 invoke [1]''],
       tm_PostBalances = [4], tm_PostTokenBalances = [], tm_PreBalances = [9],
       tm_PreTokenBalances = [\<lparr>tb_AccountIndex = 1, tb_Mint = ''mint'', tb_Owner = ''wallet'', tb_ProgramId = ''program'',
         tb_UITokenAmount = \<lparr>ta_Amount = ''0'', ta_Decimals = 6, ta_UiAmount = Fin 0, ta_UiAmountString = ''0''\<rparr>\<rparr>],
       tm_LoadedAddresses = \<lparr>la_Readonly = [], la_Writable = []\<rparr>\<rparr>,
     tx_Transaction = \<lparr>td_Message = \<lparr>ms_AccountKeys = [''bytes'', ''bytes''], ms_AddressTableLookups = [],
       ms_Instructions = [\<lparr>ix_Accounts = [0, 1], ix_Data = ''bytes'', ix_ProgramIdIndex = 1\<rparr>], ms_RecentBlockhash = ''bytes''\<rparr>,
       td_Signatures = [''bytes'']\<rparr>\<rparr>"

lemma sample_converts: "convert_transaction sample_ext sample_update = Inr sample_converted"
  by code_simp

lemma listener_delivers_witness:
  "\<exists>j time. time = (if (0 :: int) = 0 then ar_now sample_arrival else 0) \<and>
     listen_step sample_ext BlockData_MarshalJSON (0, 0, \<lparr>qs_open = True, qs_messages = []\<rparr>) sample_arrival =
       Inr (7, time, \<lparr>qs_open = True, qs_messages = []\<rparr>\<lparr>qs_open := True, qs_messages := [] @ [j]\<rparr>) \<and>
     BlockData_UnmarshalJSON j = Some \<lparr>bl_Transactions = [sample_converted], bl_Timestamp = time, bl_Block = 7, bl_IgnoreWS = False\<rparr>"
  using listener_delivers [of sample_arrival 7 sample_update sample_ext sample_converted 0 "\<lparr>qs_open = True, qs_messages = []\<rparr>" 0, OF _ sample_converts]
  by (simp add: sample_arrival_def stream_floats_ok_def floats_ok_def sample_update_def sample_converted_def float_ok_def int_ok_def)

end
