(* ===== verification/Pipeline.thy ===== *)
theory Pipeline
  imports Listener
begin

text \<open>
  The pipeline from the stream to the database: the listener publishes a transaction, a worker
  takes the message off the queue, processes it and stores its swaps.
\<close>

lemma order_one:
  assumes "is_order arrival 1"
  shows "arrival = [0]"
proof -
  have "length arrival = 1" using assms distinct_card [of arrival] by (simp add: is_order_def)
  then obtain x where "arrival = [x]" by (auto simp: length_Suc_conv)
  then show ?thesis using assms by (simp add: is_order_def lessThan_Suc)
qed

lemma stream_stored:
  assumes "ar_update a = TransactionUpdate slot info" "convert_transaction E info = Inr tx" "stream_floats_ok info"
    and "td_Signatures (tx_Transaction tx) \<noteq> []" "int_ok blockTime" "int_ok (ar_now a)"
    and "qs_open q" "bk_declare (ar_broker a)" "bk_publish (ar_broker a)"
    and "ProcessTransaction E ws tx (if blockTime = 0 then ar_now a else blockTime) slot False = Inr ou"
    and "is_order (ci_arrival ci) 1" "ci_open ci" "ci_ack ci" "k < maxRetries" "ci_up ci k" "acceptable P (ou_swaps ou)"
  shows "\<exists>n' time q' body db'. listen_step E BlockData_MarshalJSON (n, blockTime, q) a = Inr (n', time, q') \<and>
     qs_messages q' = qs_messages q @ [body] \<and>
     deliver E ws P BlockData_UnmarshalJSON ci body db = Inr (Acked, True, db', [ou]) \<and>
     (\<forall>s \<in> set (ou_swaps ou). \<exists>r \<in> set (db_swaps db'). swap_key r = swap_key s) \<and> set (db_swaps db) \<subseteq> set (db_swaps db')"
proof -
  obtain j time where j: "time = (if blockTime = 0 then ar_now a else blockTime)"
    "listen_step E BlockData_MarshalJSON (n, blockTime, q) a = Inr (slot, time, q\<lparr>qs_open := True, qs_messages := qs_messages q @ [j]\<rparr>)"
    "BlockData_UnmarshalJSON j = Some \<lparr>bl_Transactions = [tx], bl_Timestamp = time, bl_Block = slot, bl_IgnoreWS = False\<rparr>"
    using listener_publishes [OF assms(1-9), of n] by blast
  let ?b = "\<lparr>bl_Transactions = [tx], bl_Timestamp = time, bl_Block = slot, bl_IgnoreWS = False\<rparr>"
  have one: "ci_arrival ci = [0]" by (rule order_one [OF assms(11)])
  have p: "go_map (\<lambda>tx. ProcessTransaction E ws tx (bl_Timestamp ?b) (bl_Block ?b) (bl_IgnoreWS ?b)) (bl_Transactions ?b) = Inr [ou]"
    using assms(10) by (simp add: j(1))
  have "acceptable P (concat (map (\<lambda>i. ou_swaps ([ou] ! i)) (ci_arrival ci)))" using assms(16) by (simp add: one)
  then obtain db' where d: "deliver E ws P BlockData_UnmarshalJSON ci j db = Inr (Acked, True, db', [ou])"
    using deliver_progress [where P = P and db = db and ci = ci and unmarshal = BlockData_UnmarshalJSON and body = j and blockData = ?b and E = E
        and ws = ws and outcomes = "[ou]" and k = k] j(3) assms(12-15) p by blast
  have "is_order (ci_arrival ci) (length (bl_Transactions ?b))" using assms(11) by simp
  note stored = acked_stored [OF d j(3) this]
  have "\<forall>s \<in> set (ou_swaps ou). \<exists>r \<in> set (db_swaps db'). swap_key r = swap_key s"
    using stored assms(10) by (auto simp: j(1))
  then show ?thesis using stored d j(2) by (intro exI [of _ slot] exI [of _ time] exI conjI) auto
qed

text \<open>
  C1: A swap that the stream reports is stored: the listener puts a transaction of the stream on the queue, and a
  worker that can process it acknowledges its message after one good attempt of three, with a row for
  the key of every swap the transaction handler finds in it, and without losing a row.
\<close>

theorem stream_to_store:
  assumes "ar_update a = TransactionUpdate slot info" "convert_transaction E info = Inr tx" "stream_floats_ok info"
    and "td_Signatures (tx_Transaction tx) \<noteq> []" "int_ok blockTime" "int_ok (ar_now a)"
    and "qs_open q" "bk_declare (ar_broker a)" "bk_publish (ar_broker a)"
    and "ProcessTransaction E ws tx (if blockTime = 0 then ar_now a else blockTime) slot False = Inr ou"
    and "is_order (ci_arrival ci) 1" "ci_open ci" "ci_ack ci" "k < maxRetries" "ci_up ci k" "acceptable P (ou_swaps ou)"
  shows "\<exists>n' time q' body db'. listen_step E BlockData_MarshalJSON (n, blockTime, q) a = Inr (n', time, q') \<and>
     qs_messages q' = qs_messages q @ [body] \<and>
     deliver E ws P BlockData_UnmarshalJSON ci body db = Inr (Acked, True, db', [ou]) \<and>
     (\<forall>s \<in> set (ou_swaps ou). \<exists>r \<in> set (db_swaps db'). swap_key r = swap_key s) \<and> set (db_swaps db) \<subseteq> set (db_swaps db')"
  by (rule stream_stored [OF assms])

text \<open>The same for the backfill: the block it publishes is the one of the node's answer, marked to be kept from the websocket.\<close>

lemma backfill_publishes:
  assumes "0 < nodes" "0 \<le> i" "GetBlockMessage HTTPBlockMessage_decode (su_replies su (nat (i mod int nodes)) i) = Some block"
    and "su_decode su = HTTPBlockMessage_decode" "su_marshal su = BlockData_MarshalJSON"
    and "bm_Error block = None" "bm_Result block = Some result" "list_all tx_fits (br_Transactions result)" "int_ok (br_BlockTime result)"
    and "qs_open q" "bk_declare (su_broker su i)" "bk_publish (su_broker su i)"
  shows "\<exists>j. backfill_block su nodes ignoreWS i (db, q) =
      Inr (snd (MarkBlockProcessed (su_mark_up su i) i db), q\<lparr>qs_open := True, qs_messages := qs_messages q @ [j]\<rparr>) \<and>
    BlockData_UnmarshalJSON j = Some \<lparr>bl_Transactions = map after_queue (br_Transactions result), bl_Timestamp = br_BlockTime result,
      bl_Block = word_of_int i, bl_IgnoreWS = ignoreWS\<rparr>"
proof -
  let ?b = "\<lparr>bl_Transactions = br_Transactions result, bl_Timestamp = br_BlockTime result, bl_Block = word_of_int i, bl_IgnoreWS = ignoreWS\<rparr>"
  have "block_fits ?b" using assms(8,9) by (simp add: block_fits_def)
  from codec.published_is_read [OF this assms(10-12), of "su_dials su i"] show ?thesis
    using assms(1-7) by (auto simp: backfill_block_def Let_def block_after_queue_def)
qed

section \<open>Witness\<close>

text \<open>The sample transaction as the stream sends it, with the bytes of a text in place of base58.\<close>

definition stream_ext :: ext where
  "stream_ext = sample_ext\<lparr>b58_encode := map (\<lambda>b. char_of (unat b))\<rparr>"

definition stream_bytes :: "string \<Rightarrow> byte list" where
  "stream_bytes = map (\<lambda>c. of_nat (of_char c))"

lemma stream_bytes_encode: "b58_encode stream_ext (stream_bytes s) = s"
proof -
  have "char_of (unat (of_nat (of_char c) :: byte)) = c" for c :: char
    by (simp add: unat_of_nat)
  then show ?thesis by (induction s) (simp_all add: stream_ext_def stream_bytes_def)
qed

definition stream_balance :: "token_balance \<Rightarrow> pb_token_balance" where
  "stream_balance b = \<lparr>pk_AccountIndex = of_int (tb_AccountIndex b), pk_Mint = tb_Mint b,
     pk_UiTokenAmount = Some \<lparr>pu_UiAmount = ta_UiAmount (tb_UITokenAmount b), pu_Decimals = of_int (ta_Decimals (tb_UITokenAmount b)),
       pu_Amount = ta_Amount (tb_UITokenAmount b), pu_UiAmountString = ta_UiAmountString (tb_UITokenAmount b)\<rparr>,
     pk_Owner = tb_Owner b, pk_ProgramId = tb_ProgramId b\<rparr>"

definition stream_ix :: "instruction \<Rightarrow> pb_instruction" where
  "stream_ix i = \<lparr>pi_ProgramIdIndex = of_int (ix_ProgramIdIndex i), pi_Accounts = map of_int (ix_Accounts i), pi_Data = stream_bytes (ix_Data i)\<rparr>"

definition stream_sample :: pb_tx_info where
  "stream_sample = (let m = tx_Meta sample_tx; d = td_Message (tx_Transaction sample_tx) in \<lparr>
     pf_Transaction = Some \<lparr>px_Signatures = map stream_bytes (td_Signatures (tx_Transaction sample_tx)),
       px_Message = Some \<lparr>pm_AccountKeys = map stream_bytes (ms_AccountKeys d), pm_RecentBlockhash = stream_bytes (ms_RecentBlockhash d),
         pm_Instructions = map stream_ix (ms_Instructions d), pm_AddressTableLookups = []\<rparr>\<rparr>,
     pf_Meta = Some \<lparr>pe_Fee = of_int (tm_Fee m), pe_PreBalances = tm_PreBalances m, pe_PostBalances = tm_PostBalances m,
       pe_InnerInstructions = map (\<lambda>g. \<lparr>pn_Index = of_int (ii_Index g), pn_Instructions = map stream_ix (ii_Instructions g)\<rparr>) (tm_InnerInstructions m),
       pe_LogMessages = [], pe_PreTokenBalances = map stream_balance (tm_PreTokenBalances m),
       pe_PostTokenBalances = map stream_balance (tm_PostTokenBalances m), pe_LoadedWritableAddresses = [], pe_LoadedReadonlyAddresses = []\<rparr>\<rparr>)"

definition stream_tx :: solana_tx where
  "stream_tx = sample_tx\<lparr>tx_Meta := (tx_Meta sample_tx)\<lparr>tm_Err := Some (JNull, JNull), tm_LogMessages := None\<rparr>\<rparr>"

lemma stream_converts: "convert_transaction stream_ext (Some stream_sample) = Inr stream_tx"
  by (simp add: convert_transaction_def deref_def stream_sample_def Let_def convert_meta_def convertToTokenBalanceSlice_def
      convert_balance_def convert_message_def convertToInstructions_def convertToInnerInstructions_def stream_ix_def
      stream_balance_def convertToIntSlice_def convertToBase58Strings_def stream_bytes_encode o_def stream_tx_def
      sample_tx_def sample_balance_def)

lemma stream_parsed: "ParseTransaction stream_ext stream_tx =
    Inr \<lparr>pr_transfers = sample_transfers, pr_burns = [], pr_tokenMints = [], pr_tokensCreated = []\<rparr>"
  by code_simp

lemma stream_handled: "HandleSwaps stream_ext sample_transfers stream_tx 100 7 =
    Inr ([sample_log], \<lparr>ef_tokens = [''mint''], ef_pairs = [(''pool'', ''mint'')]\<rparr>)"
  by code_simp

lemma stream_processed: "ProcessTransaction stream_ext (None :: swap_log list ws_json option) stream_tx 100 7 False = Inr sample_outcome"
proof -
  have l: "GetLogs (case tm_LogMessages (tx_Meta stream_tx) of None \<Rightarrow> [] | Some ls \<Rightarrow> ls) = Inr []" by code_simp
  have "HandlePumpFunNewToken stream_ext [] PUMPFUN = Inr []" by (simp add: HandlePumpFunNewToken_def)
  then show ?thesis
    by (simp add: ProcessTransaction_def stream_parsed l stream_handled broadcasts_def token_calls_def sample_outcome_def)
qed

definition stream_arrival :: arrival where
  "stream_arrival = \<lparr>ar_update = TransactionUpdate 7 (Some stream_sample), ar_now = 100, ar_dials = (\<lambda>i. (True, True)),
     ar_broker = \<lparr>bk_declare = True, bk_publish = True\<rparr>\<rparr>"

lemma stream_sample_floats: "stream_floats_ok (Some stream_sample)"
  by (simp add: stream_floats_ok_def stream_sample_def floats_ok_def stream_balance_def sample_tx_def sample_balance_def float_ok_def Let_def)

lemma stream_sample_signed: "td_Signatures (tx_Transaction stream_tx) \<noteq> []"
  by (simp add: stream_tx_def sample_tx_def)

lemma good_day_order: "is_order (ci_arrival good_day) 1"
  by (simp add: is_order_def good_day_def lessThan_Suc)

lemma stream_to_store_witness:
  "\<exists>n' time q' body db'. listen_step stream_ext BlockData_MarshalJSON (0, 0, \<lparr>qs_open = True, qs_messages = []\<rparr>) stream_arrival = Inr (n', time, q') \<and>
     qs_messages q' = [body] \<and>
     deliver stream_ext (None :: swap_log list ws_json option) plain_pg BlockData_UnmarshalJSON good_day body empty_db =
       Inr (Acked, True, db', [sample_outcome]) \<and>
     (\<exists>r \<in> set (db_swaps db'). swap_key r = swap_key sample_log)"
proof -
  have acc: "acceptable plain_pg (ou_swaps sample_outcome)"
    by (simp add: sample_outcome_def acceptable_def plain_pg_def int4_def swap_texts_def) (simp add: sample_log_def)
  have proc: "ProcessTransaction stream_ext (None :: swap_log list ws_json option) stream_tx
      (if (0 :: int) = 0 then ar_now stream_arrival else 0) 7 False = Inr sample_outcome"
    by (simp add: stream_arrival_def stream_processed)
  note stored = stream_to_store [of stream_arrival 7 "Some stream_sample" stream_ext stream_tx 0 "\<lparr>qs_open = True, qs_messages = []\<rparr>"
      "None :: swap_log list ws_json option" sample_outcome good_day 2 plain_pg 0 empty_db,
      OF _ stream_converts stream_sample_floats stream_sample_signed _ _ _ _ _ proc good_day_order _ _ _ _ acc]
  show ?thesis
    using stored by (simp add: stream_arrival_def int_ok_def good_day_def maxRetries_def sample_outcome_def) blast
qed

end
