(* ===== verification/Followers.thy ===== *)
theory Followers
  imports Pipeline "HOL-Library.Multiset"
begin

text \<open>
  From a processed message to the clients of the websocket: the server runs its events one after the
  other (the lock makes each atomic), the transactions of a message send their broadcasts in any
  order, and other connections come, speak and go in between.
\<close>

section \<open>The server over time\<close>

definition ws_sent :: "'m ws_json \<Rightarrow> 'm ws_event \<Rightarrow> clients \<Rightarrow> (conn \<times> 'm) list" where
  "ws_sent js e cs = (case e of Broadcast writes msg \<Rightarrow> snd (handleMessages js writes msg cs) | _ \<Rightarrow> [])"

fun ws_run :: "'m ws_json \<Rightarrow> 'm ws_event list \<Rightarrow> clients \<Rightarrow> clients \<times> (conn \<times> 'm) list" where
  "ws_run js [] cs = (cs, [])"
| "ws_run js (e # es) cs = (case ws_run js es (ws_step js e cs) of (cs', sent) \<Rightarrow> (cs', ws_sent js e cs @ sent))"

text \<open>What one connection has received, and the broadcasts among the events.\<close>

definition received :: "conn \<Rightarrow> (conn \<times> 'm) list \<Rightarrow> 'm list" where
  "received c sent = map snd (filter (\<lambda>(c', _). c' = c) sent)"

definition event_messages :: "'m ws_event list \<Rightarrow> 'm ws_msg list" where
  "event_messages es = concat (map (\<lambda>e. case e of Broadcast writes msg \<Rightarrow> [msg] | _ \<Rightarrow> []) es)"

text \<open>The connection stays: it neither connects again nor speaks, and the writes to it succeed.\<close>

definition stays :: "conn \<Rightarrow> 'm ws_event \<Rightarrow> bool" where
  "stays c e = (case e of Connect c' \<Rightarrow> c' \<noteq> c | Message c' _ \<Rightarrow> c' \<noteq> c | Broadcast writes _ \<Rightarrow> writes c)"

text \<open>What a broadcast means for a client that follows wallets.\<close>

definition news_for :: "'m ws_json \<Rightarrow> client \<Rightarrow> 'm ws_msg \<Rightarrow> 'm list" where
  "news_for js d msg = (case msg of
     SwapsMsg m \<Rightarrow> (case js_unmarshal_swaps js m of None \<Rightarrow> []
       | Some swaps \<Rightarrow> (case message_for js swaps d of None \<Rightarrow> [] | Some m' \<Rightarrow> [m']))
   | PFTokensMsg _ \<Rightarrow> [])"

lemma received_append [simp]: "received c (as @ bs) = received c as @ received c bs"
  by (simp add: received_def)

lemma received_none: "c \<notin> fst ` set sent \<Longrightarrow> received c sent = []"
  by (force simp: received_def filter_empty_conv)

lemma put_other: "(c, d) \<in> set cs \<Longrightarrow> c' \<noteq> c \<Longrightarrow> (c, d) \<in> set (put_client c' d' cs)"
  by (induction c' d' cs rule: put_client.induct) auto

lemma stays_kept:
  assumes "stays c e" "(c, d) \<in> set cs"
  shows "(c, d) \<in> set (ws_step js e cs)"
proof (cases e)
  case (Broadcast writes msg)
  then have "writes c" using assms(1) by (simp add: stays_def)
  then show ?thesis using assms(2) Broadcast
    by (cases msg) (auto simp: ws_step_def handleMessages_def broadcastRelevantSwaps_spec broadcastPFTokens_kept split: option.split)
qed (use assms in \<open>auto simp: ws_step_def on_connect_def on_message_def delete_client_def stays_def put_other split: option.split\<close>)

lemma ws_step_ok: "clients_ok cs \<Longrightarrow> clients_ok (ws_step js e cs)"
proof (cases e)
  case (Broadcast writes msg)
  assume "clients_ok cs"
  moreover obtain P where "fst (handleMessages js writes msg cs) = filter P cs" using handleMessages_kept by blast
  ultimately show ?thesis using Broadcast filter_clients_ok by (simp add: ws_step_def)
qed (auto simp: ws_step_def on_connect_def on_message_def delete_client_def split: option.splits intro!: put_client_ok filter_clients_ok)

section \<open>One broadcast\<close>

text \<open>The entry of a connection is the only one that can send to it.\<close>

lemma received_swaps:
  assumes "distinct (map fst cs)" "(c, d) \<in> set cs" "writes c"
  shows "received c [(c, m). (c, d) \<leftarrow> cs, writes c, m \<leftarrow> (case message_for js swaps d of None \<Rightarrow> [] | Some m \<Rightarrow> [m])] =
    (case message_for js swaps d of None \<Rightarrow> [] | Some m \<Rightarrow> [m])"
  using assms(1,2)
proof (induction cs)
  case (Cons x cs)
  obtain c' d' where x: "x = (c', d')" by (rule prod.exhaust)
  show ?case
  proof (cases "c' = c")
    case True
    then have "c \<notin> fst ` set cs" "d' = d" using Cons.prems x by (force+)
    then have "received c [(c, m). (c, d) \<leftarrow> cs, writes c, m \<leftarrow> (case message_for js swaps d of None \<Rightarrow> [] | Some m \<Rightarrow> [m])] = []"
      by (intro received_none) force
    then show ?thesis using assms(3) True \<open>d' = d\<close> by (simp add: x received_def split: option.split)
  next
    case False
    then show ?thesis using Cons x by (auto simp: received_def split: option.split)
  qed
qed simp

lemma tokens_sent_to: "(c, m) \<in> set (snd (broadcastPFTokensToClients writes m' cs)) \<Longrightarrow> \<exists>d. (c, d) \<in> set cs \<and> cl_ClientType d = ''pf-tokens''"
proof -
  have "(c, m) \<in> set (snd (foldl (tokens_pass writes m') (k, s) cs)) \<Longrightarrow>
      (c, m) \<in> set s \<or> (\<exists>d. (c, d) \<in> set cs \<and> cl_ClientType d = ''pf-tokens'')" for k s
  proof (induction cs arbitrary: k s)
    case (Cons x cs)
    obtain c' d' where x: "x = (c', d')" by (rule prod.exhaust)
    show ?case using Cons.IH Cons.prems by (fastforce simp: x tokens_pass_eq split: if_splits)
  qed simp
  from this [of "[]" "[]"] show "(c, m) \<in> set (snd (broadcastPFTokensToClients writes m' cs)) \<Longrightarrow> ?thesis"
    by (simp add: broadcastPFTokensToClients_def)
qed

lemma received_broadcast:
  assumes "clients_ok cs" "(c, d) \<in> set cs" "cl_ClientType d = ''wallet''" "writes c"
  shows "received c (snd (handleMessages js writes msg cs)) = news_for js d msg"
proof (cases msg)
  case (SwapsMsg m)
  have "distinct (map fst cs)" using assms(1) by (simp add: clients_ok_def)
  from received_swaps [where writes = writes, OF this assms(2,4)] show ?thesis
    by (cases "js_unmarshal_swaps js m") (simp_all add: SwapsMsg handleMessages_def news_for_def broadcastRelevantSwaps_spec received_none)
next
  case (PFTokensMsg m)
  have "(c, d') \<in> set cs \<Longrightarrow> d' = d" for d'
    using assms(1,2) by (meson clients_ok_def eq_key_imp_eq_value)
  then have "c \<notin> fst ` set (snd (broadcastPFTokensToClients writes m cs))"
    using tokens_sent_to assms(3) by fastforce
  then show ?thesis by (simp add: PFTokensMsg handleMessages_def news_for_def received_none)
qed

text \<open>Over time a wallet client receives the news of every broadcast, in the order of the broadcasts.\<close>

lemma received_run:
  assumes "clients_ok cs" "(c, d) \<in> set cs" "cl_ClientType d = ''wallet''" "list_all (stays c) es"
  shows "received c (snd (ws_run js es cs)) = concat (map (news_for js d) (event_messages es))"
  using assms(1,2,4)
proof (induction es arbitrary: cs)
  case Nil
  show ?case by (simp add: received_def event_messages_def)
next
  case (Cons e es)
  have "received c (snd (ws_run js es (ws_step js e cs))) = concat (map (news_for js d) (event_messages es))"
    using Cons.prems by (intro Cons.IH ws_step_ok stays_kept) simp_all
  moreover have "received c (ws_sent js e cs) = concat (map (news_for js d) (event_messages [e]))"
  proof (cases e)
    case (Broadcast writes msg)
    then have "writes c" using Cons.prems(3) by (simp add: stays_def)
    from received_broadcast [where writes = writes, OF Cons.prems(1,2) assms(3) this] show ?thesis
      by (simp add: Broadcast ws_sent_def event_messages_def)
  qed (simp_all add: ws_sent_def event_messages_def received_def)
  ultimately show ?case by (cases "ws_run js es (ws_step js e cs)") (simp add: event_messages_def)
qed

section \<open>A message of the queue\<close>

text \<open>The swaps a client is told of by the transactions of a message, one message for each transaction.\<close>

definition told :: "'m ws_json \<Rightarrow> client \<Rightarrow> 'm tx_outcome \<Rightarrow> 'm list" where
  "told js d ou = (case message_for js (ou_swaps ou) d of None \<Rightarrow> [] | Some m \<Rightarrow> [m])"

text \<open>The JSON package encodes these swaps and decodes what it encoded.\<close>

definition json_carries :: "'m ws_json \<Rightarrow> swap_log list \<Rightarrow> bool" where
  "json_carries js ss \<longleftrightarrow> (case js_marshal_swaps js ss of None \<Rightarrow> False | Some m \<Rightarrow> js_unmarshal_swaps js m = Some ss)"

lemma news_of_broadcasts:
  assumes "json_carries js swaps"
  shows "concat (map (news_for js d) (broadcasts (Some js) False swaps tokens)) =
    (case message_for js swaps d of None \<Rightarrow> [] | Some m \<Rightarrow> [m])"
proof -
  have "concat (map (news_for js d) (BroadcastPumpFunTokens js tokens)) = []"
    by (cases "js_marshal_tokens js tokens") (simp_all add: BroadcastPumpFunTokens_def news_for_def)
  then show ?thesis
    using assms by (auto simp: broadcasts_def json_carries_def BroadcastSwaps_def news_for_def split: option.splits)
qed

lemma processed_messages:
  assumes "ProcessTransaction E ws tx timestamp block ignoreWS = Inr ou"
  shows "\<exists>tokens. ou_messages ou = broadcasts ws ignoreWS (ou_swaps ou) tokens"
  using assms by (auto simp: ProcessTransaction_def go_bind_ok)

lemma news_of_outcome:
  assumes "ProcessTransaction E (Some js) tx timestamp block False = Inr ou" "json_carries js (ou_swaps ou)"
  shows "concat (map (news_for js d) (ou_messages ou)) = told js d ou"
  using processed_messages [OF assms(1)] news_of_broadcasts [OF assms(2)] by (auto simp: told_def)

text \<open>A block of the backfill is kept from the clients.\<close>

lemma backfill_silent: "ProcessTransaction E ws tx timestamp block True = Inr ou \<Longrightarrow> ou_messages ou = []"
  using processed_messages by (fastforce simp: broadcasts_def split: option.splits)

lemma deliver_outcomes:
  assumes "deliver E ws P unmarshal ci body db = Inr (v, continue, db', outcomes)" "unmarshal body = Some b" "ou \<in> set outcomes"
  shows "\<exists>tx \<in> set (bl_Transactions b). ProcessTransaction E ws tx (bl_Timestamp b) (bl_Block b) (bl_IgnoreWS b) = Inr ou"
proof -
  have "go_map (\<lambda>tx. ProcessTransaction E ws tx (bl_Timestamp b) (bl_Block b) (bl_IgnoreWS b)) (bl_Transactions b) = Inr outcomes"
    using deliver_parts [OF assms(1,2)] assms(3) by auto
  from go_map_nth [OF this] obtain i where "i < length (bl_Transactions b)" "ou = outcomes ! i"
    "ProcessTransaction E ws (bl_Transactions b ! i) (bl_Timestamp b) (bl_Block b) (bl_IgnoreWS b) = Inr (outcomes ! i)"
    using assms(3) by (auto simp: in_set_conv_nth)
  then show ?thesis using nth_mem by blast
qed

lemma mset_concat_cong: "mset xs = mset ys \<Longrightarrow> mset (concat (map f xs)) = mset (concat (map f ys))"
proof -
  assume "mset xs = mset ys"
  then have "mset (map (\<lambda>x. mset (f x)) xs) = mset (map (\<lambda>x. mset (f x)) ys)" by (simp del: mset_map add: mset_map)
  then show ?thesis by (simp add: mset_concat o_def sum_mset_sum_list [symmetric] del: mset_map)
qed

lemma told_of_message:
  assumes "deliver E (Some js) P unmarshal ci body db = Inr (v, continue, db', outcomes)" "unmarshal body = Some b" "\<not> bl_IgnoreWS b"
    and "list_all (\<lambda>ou. json_carries js (ou_swaps ou)) outcomes"
    and "mset (event_messages es) = mset (concat (map ou_messages outcomes))"
    and "clients_ok cs" "(c, d) \<in> set cs" "cl_ClientType d = ''wallet''" "list_all (stays c) es"
  shows "mset (received c (snd (ws_run js es cs))) = mset (concat (map (told js d) outcomes))"
proof -
  have told: "concat (map (news_for js d) (ou_messages ou)) = told js d ou" if "ou \<in> set outcomes" for ou
    using deliver_outcomes [OF assms(1,2) that] assms(3,4) that news_of_outcome by (force simp: list_all_iff)
  have "mset (concat (map (news_for js d) (event_messages es))) = mset (concat (map (news_for js d) (concat (map ou_messages outcomes))))"
    by (rule mset_concat_cong [OF assms(5)])
  moreover have "concat (map (news_for js d) (concat (map ou_messages outcomes))) = concat (map (told js d) outcomes)"
    using told by (induction outcomes) simp_all
  ultimately show ?thesis using received_run [OF assms(6-9)] by simp
qed

section \<open>Properties\<close>

text \<open>
  Whatever happens on other connections meanwhile, and in whatever order the transactions of a message send
  their broadcasts, a connected wallet client receives, for every transaction of a message that a
  worker has processed, one message with exactly the swaps of the wallets it follows, and nothing else.
\<close>

theorem message_to_followers:
  assumes "deliver E (Some js) P unmarshal ci body db = Inr (v, continue, db', outcomes)" "unmarshal body = Some b" "\<not> bl_IgnoreWS b"
    and "list_all (\<lambda>ou. json_carries js (ou_swaps ou)) outcomes"
    and "mset (event_messages es) = mset (concat (map ou_messages outcomes))"
    and "clients_ok cs" "(c, d) \<in> set cs" "cl_ClientType d = ''wallet''" "list_all (stays c) es"
  shows "mset (received c (snd (ws_run js es cs))) = mset (concat (map (told js d) outcomes))"
  by (rule told_of_message [OF assms])

text \<open>
  C3: End to end: when the stream reports a transaction, the listener publishes it, a worker acknowledges it with
  its swaps stored, and a connected client that follows wallets is sent one message with the swaps of
  its wallets if there are any, and nothing otherwise, whatever other connections do.
\<close>

theorem stream_to_followers:
  assumes "ar_update a = TransactionUpdate slot info" "convert_transaction E info = Inr tx" "stream_floats_ok info"
    and "td_Signatures (tx_Transaction tx) \<noteq> []" "int_ok blockTime" "int_ok (ar_now a)"
    and "qs_open q" "bk_declare (ar_broker a)" "bk_publish (ar_broker a)"
    and "ProcessTransaction E (Some js) tx (if blockTime = 0 then ar_now a else blockTime) slot False = Inr ou"
    and "is_order (ci_arrival ci) 1" "ci_open ci" "ci_ack ci" "k < maxRetries" "ci_up ci k" "acceptable P (ou_swaps ou)"
    and "json_carries js (ou_swaps ou)" "event_messages es = ou_messages ou"
    and "clients_ok cs" "(c, d) \<in> set cs" "cl_ClientType d = ''wallet''" "list_all (stays c) es"
  shows "\<exists>n' time q' body db'. listen_step E BlockData_MarshalJSON (n, blockTime, q) a = Inr (n', time, q') \<and>
     qs_messages q' = qs_messages q @ [body] \<and>
     deliver E (Some js) P BlockData_UnmarshalJSON ci body db = Inr (Acked, True, db', [ou]) \<and>
     (\<forall>s \<in> set (ou_swaps ou). \<exists>r \<in> set (db_swaps db'). swap_key r = swap_key s) \<and>
     received c (snd (ws_run js es cs)) =
       (if swaps_for (ou_swaps ou) d = [] then [] else
        case js_marshal_swaps js (swaps_for (ou_swaps ou) d) of None \<Rightarrow> [] | Some m \<Rightarrow> [m])"
proof -
  have "received c (snd (ws_run js es cs)) = told js d ou"
    using received_run [OF assms(19-22), of js] news_of_outcome [OF assms(10,17), of d] assms(18) by simp
  then show ?thesis
    using stream_stored [OF assms(1-16), of n db] by (auto simp: told_def message_for_def)
qed

section \<open>Witness\<close>

definition told_outcome :: "swap_log list tx_outcome" where
  "told_outcome = sample_outcome\<lparr>ou_messages := [SwapsMsg [sample_log]]\<rparr>"

lemma told_processed: "ProcessTransaction stream_ext (Some witness_json) stream_tx 100 7 False = Inr told_outcome"
proof -
  have l: "GetLogs (case tm_LogMessages (tx_Meta stream_tx) of None \<Rightarrow> [] | Some ls \<Rightarrow> ls) = Inr []" by code_simp
  have "HandlePumpFunNewToken stream_ext [] PUMPFUN = Inr []" by (simp add: HandlePumpFunNewToken_def)
  then show ?thesis
    by (simp add: ProcessTransaction_def stream_parsed l stream_handled broadcasts_def token_calls_def told_outcome_def sample_outcome_def
        BroadcastSwaps_def witness_json_def)
qed

definition follower :: client where
  "follower = \<lparr>cl_ClientType = ''wallet'', cl_Wallets = [sl_Wallet sample_log]\<rparr>"

definition busy_server :: "swap_log list ws_event list" where
  "busy_server = [Connect 4, Broadcast (\<lambda>c. c = 3) (SwapsMsg [sample_log]), Message 5 None]"

lemma follower_stays: "clients_ok [(3, follower), (5, zero_client)]" "list_all (stays 3) busy_server"
    "event_messages busy_server = ou_messages told_outcome" "json_carries witness_json (ou_swaps told_outcome)"
  by (simp_all add: clients_ok_def follower_def validateClientType_def stays_def busy_server_def event_messages_def told_outcome_def
      json_carries_def witness_json_def)

lemma stream_to_followers_witness:
  "\<exists>n' time q' body db'. listen_step stream_ext BlockData_MarshalJSON (0, 0, \<lparr>qs_open = True, qs_messages = []\<rparr>) stream_arrival = Inr (n', time, q') \<and>
     qs_messages q' = [body] \<and>
     deliver stream_ext (Some witness_json) plain_pg BlockData_UnmarshalJSON good_day body empty_db =
       Inr (Acked, True, db', [told_outcome]) \<and>
     received 3 (snd (ws_run witness_json busy_server [(3, follower), (5, zero_client)])) = [[sample_log]]"
proof -
  have acc: "acceptable plain_pg (ou_swaps told_outcome)"
    by (simp add: told_outcome_def sample_outcome_def acceptable_def plain_pg_def int4_def swap_texts_def) (simp add: sample_log_def)
  have proc: "ProcessTransaction stream_ext (Some witness_json) stream_tx
      (if (0 :: int) = 0 then ar_now stream_arrival else 0) 7 False = Inr told_outcome"
    by (simp add: stream_arrival_def told_processed)
  note told = stream_to_followers [where a = stream_arrival and slot = 7 and info = "Some stream_sample" and E = stream_ext and tx = stream_tx
      and blockTime = 0 and q = "\<lparr>qs_open = True, qs_messages = []\<rparr>" and js = witness_json and ou = told_outcome and ci = good_day and k = 2
      and P = plain_pg and n = 0 and db = empty_db and c = 3 and d = follower and cs = "[(3, follower), (5, zero_client)]" and es = busy_server,
      OF _ stream_converts stream_sample_floats stream_sample_signed _ _ _ _ _ proc good_day_order _ _ _ _ acc follower_stays(4,3,1) _ _ follower_stays(2)]
  show ?thesis
    using told
    by (simp add: stream_arrival_def int_ok_def good_day_def maxRetries_def follower_def swaps_for_def told_outcome_def sample_outcome_def witness_json_def) blast
qed

lemma message_to_followers_witness:
  "mset (received 3 (snd (ws_run witness_json busy_server [(3, follower), (5, zero_client)]))) = {#[sample_log]#}"
proof -
  let ?b = "\<lparr>bl_Transactions = [stream_tx], bl_Timestamp = 100, bl_Block = 7, bl_IgnoreWS = False\<rparr>"
  have "deliver stream_ext (Some witness_json) plain_pg (\<lambda>_ :: unit. Some ?b) good_day () empty_db =
      Inr (Acked, True, stored_db, [told_outcome])"
    using good_day_batch [OF sample_insert] by (simp add: deliver_def told_processed) (simp add: good_day_def told_outcome_def sample_outcome_def)
  from message_to_followers [where c = 3 and d = follower and cs = "[(3, follower), (5, zero_client)]" and es = busy_server,
      OF this refl _ _ _ follower_stays(1) _ _ follower_stays(2)] show ?thesis
    using follower_stays(3,4)
    by (simp add: follower_def told_def message_for_def swaps_for_def told_outcome_def sample_outcome_def witness_json_def)
qed

end
