(* ===== verification/Redelivery.thy ===== *)
theory Redelivery
  imports Queue
begin

text \<open>
  What a message that is delivered twice does to the table of tokens (internal/solana/queue.go and
  txHandler.go): the swaps are stored once, but the statements that the goroutines of ProcessTransaction leave running
  are run again.
\<close>

section \<open>The statements of one delivery\<close>







section \<open>Two deliveries\<close>


section \<open>Witness\<close>












end
