(* ===== verification/JsonCodec.thy ===== *)
theory JsonCodec
  imports Codec
begin

text \<open>
  What every generated pair of an encoder and a decoder has in common, as the locale \<open>json_codec\<close>, and
  the members the other structs need: small unsigned integers, pointers that are left out or written as
  null, and the interpretations for the structs of a block.
\<close>

section \<open>Small integers and pointers\<close>

text \<open>in.Uint8 and in.Uint16: the range is checked by strconv.\<close>

definition lex_small :: "nat \<Rightarrow> json \<Rightarrow> int option" where
  "lex_small n j = (case j of
     JNum t \<Rightarrow> if number_token t \<and> t \<noteq> [] \<and> list_all is_digit t \<and> parse_digits t < 2 ^ n then Some (parse_digits t) else None
   | _ \<Rightarrow> None)"

definition lex_uint8 :: "json \<Rightarrow> 8 word option" where
  "lex_uint8 j = map_option word_of_int (lex_small 8 j)"

definition lex_uint16 :: "json \<Rightarrow> 16 word option" where
  "lex_uint16 j = map_option word_of_int (lex_small 16 j)"

text \<open>A pointer with omitempty, and one that is written as null.\<close>

definition optional :: "string \<Rightarrow> ('a \<Rightarrow> json) \<Rightarrow> 'a option \<Rightarrow> (string \<times> json) list" where
  "optional key e p = (case p of None \<Rightarrow> [] | Some x \<Rightarrow> [(key, e x)])"

definition or_null :: "('a \<Rightarrow> json) \<Rightarrow> 'a option \<Rightarrow> json" where
  "or_null e p = (case p of None \<Rightarrow> JNull | Some x \<Rightarrow> e x)"

text \<open>What a decoder of a pointer starts from: the value already there, or a new one.\<close>

definition or_new :: "'a \<Rightarrow> 'a option \<Rightarrow> 'a" where
  "or_new zero p = (case p of None \<Rightarrow> zero | Some x \<Rightarrow> x)"

lemma or_new_simps [simp]: "or_new zero None = zero" "or_new zero (Some x) = x"
  by (simp_all add: or_new_def)

lemma lex_small_text:
  assumes "0 \<le> n" "n < 2 ^ k"
  shows "lex_small k (JNum (int_text n)) = Some n"
proof -
  have "parse_digits (dec n) = n" "list_all is_digit (dec n)" "dec n \<noteq> []" using dec_props [of n] assms(1) by (simp_all add: list_all_iff)
  moreover have "int_text n = dec n" using assms(1) by (simp add: int_text_def)
  ultimately show ?thesis using assms(2) int_text_token [of n] by (simp add: lex_small_def)
qed

lemma lex_uint8_text [simp]: "lex_uint8 (JNum (int_text (uint w))) = Some w"
  using uint_lt2p [of w] by (simp add: lex_uint8_def lex_small_text)

lemma lex_uint16_text [simp]: "lex_uint16 (JNum (int_text (uint w))) = Some w"
  using uint_lt2p [of w] by (simp add: lex_uint16_def lex_small_text)

lemma optional_None [simp]: "optional key e None = []"
  by (simp add: optional_def)

lemma decode_member:
  "v \<noteq> JNull \<Longrightarrow> f key v out = Some out' \<Longrightarrow> decode_fields f ((key, v) # ms) out = decode_fields f ms out'"
  by simp

lemma optional_Some: "optional key e (Some x) = [(key, e x)]"
  by (simp add: optional_def)

lemma decode_optional:
  assumes "\<And>x. e x \<noteq> JNull" "\<And>x. p = Some x \<Longrightarrow> f key (e x) out = Some (g x)"
  shows "decode_fields f (optional key e p @ ms) out = decode_fields f ms (case p of None \<Rightarrow> out | Some x \<Rightarrow> g x)"
  using assms by (cases p) (simp_all add: optional_def)

lemma decode_or_null:
  assumes "\<And>x. e x \<noteq> JNull" "\<And>x. p = Some x \<Longrightarrow> f key (e x) out = Some (g x)"
  shows "decode_fields f ((key, or_null e p) # ms) out = decode_fields f ms (case p of None \<Rightarrow> out | Some x \<Rightarrow> g x)"
  using assms by (cases p) (simp_all add: or_null_def)

section \<open>The contract\<close>

lemma list_all_True [simp]: "list_all (\<lambda>_. True) xs"
  by (simp add: list_all_iff)

text \<open>
  Decoding into a new value inverts encoding for the values that fit, and no value is written as
  null. It follows that a slice round-trips and that different values have different encodings.
\<close>

locale json_codec =
  fixes enc :: "'a \<Rightarrow> json" and dec :: "json \<Rightarrow> 'a \<Rightarrow> 'a option" and zero :: 'a and fits :: "'a \<Rightarrow> bool"
  assumes round_trip: "fits v \<Longrightarrow> dec (enc v) zero = Some v"
    and not_null [simp]: "enc v \<noteq> JNull"
begin

lemma slices [simp]: "list_all fits vs \<Longrightarrow> decode_slice (\<lambda>j. dec j zero) (encode_slice enc vs) = Some vs"
  by (rule slice_round_trip) (simp add: list_all_iff round_trip)

lemma injective: "fits v \<Longrightarrow> fits w \<Longrightarrow> enc v = enc w \<longleftrightarrow> v = w"
  using round_trip by (metis option.inject)

lemma slices_injective: "list_all fits vs \<Longrightarrow> list_all fits ws \<Longrightarrow> encode_slice enc vs = encode_slice enc ws \<longleftrightarrow> vs = ws"
  using slices by (metis option.inject)

lemma slice_error: "dec j zero = None \<Longrightarrow> j \<in> set js \<Longrightarrow> decode_slice (\<lambda>j. dec j zero) (JArr js) = None"
  by (rule slice_fails)

end

section \<open>The structs of a block\<close>

interpretation balance_json: json_codec encode_TokenBalance decode_TokenBalance zero_TokenBalance balance_fits
  by unfold_locales (rule balance_round_trip, assumption, simp add: encode_TokenBalance_def)

interpretation instruction_json: json_codec encode_Instruction decode_Instruction zero_Instruction instruction_fits
  by unfold_locales (rule instruction_round_trip, assumption, simp add: encode_Instruction_def)

interpretation inner_json: json_codec encode_InnerInstruction decode_InnerInstruction zero_InnerInstruction inner_fits
  by unfold_locales (rule inner_round_trip, assumption, simp add: encode_InnerInstruction_def)

interpretation lookup_json: json_codec encode_AddressTableLookup decode_AddressTableLookup zero_AddressTableLookup lookup_fits
  by unfold_locales (rule lookup_round_trip, assumption, simp add: encode_AddressTableLookup_def)

interpretation message_json: json_codec encode_Message decode_Message zero_Message message_fits
  by unfold_locales (rule message_round_trip, assumption, simp)

text \<open>The amount of a balance on its own, and a transaction whose log messages are nil or present.\<close>

definition amount_fits :: "ui_token_amount \<Rightarrow> bool" where
  "amount_fits a \<longleftrightarrow> int_ok (ta_Decimals a) \<and> float_ok (ta_UiAmount a)"

lemma amount_round_trip: "amount_fits a \<Longrightarrow> decode_UITokenAmount (encode_UITokenAmount a) out = Some a"
  by (simp add: amount_fits_def decode_UITokenAmount_def encode_UITokenAmount_def decode_object_JObj lex_float_text)

interpretation amount_json: json_codec encode_UITokenAmount decode_UITokenAmount zero_UITokenAmount amount_fits
  by unfold_locales (rule amount_round_trip, assumption, simp add: encode_UITokenAmount_def)

definition whole_tx :: "solana_tx \<Rightarrow> bool" where
  "whole_tx tx \<longleftrightarrow> tx_fits tx \<and> tm_LogMessages (tx_Meta tx) \<noteq> Some []"

interpretation tx_json: json_codec encode_SolanaTx decode_SolanaTx zero_SolanaTx whole_tx
  by unfold_locales (simp add: whole_tx_def tx_round_trip after_queue_def, simp add: encode_SolanaTx_def)

end
