(* ===== verification/CodecChain.thy ===== *)
theory CodecChain
  imports JsonCodec
begin

text \<open>
  The generated codecs (internal/types/sol_easyjson.go) of decoded instructions, the program's log tree,
  parsed instruction data, the messages of a block subscription and the answers of a node. The JSON
  methods of a public key are the key library's, an argument here.
\<close>

section \<open>Decoded instructions\<close>

text \<open>The methods of a public key; the hypothesis says that UnmarshalJSON reads what MarshalJSON wrote for a key of 32 bytes.\<close>

record key_json =
  kj_marshal :: "pubkey \<Rightarrow> json"
  kj_unmarshal :: "json \<Rightarrow> pubkey option"

definition is_key :: "pubkey \<Rightarrow> bool" where
  "is_key k \<longleftrightarrow> length k = 32"

definition key_json_ok :: "key_json \<Rightarrow> bool" where
  "key_json_ok K \<longleftrightarrow> (\<forall>k. is_key k \<longrightarrow> kj_unmarshal K (kj_marshal K k) = Some k) \<and> (\<forall>k. kj_marshal K k \<noteq> JNull)"

definition decode_SystemProgramData :: "key_json \<Rightarrow> json \<Rightarrow> system_program_data \<Rightarrow> system_program_data option" where
  "decode_SystemProgramData K = decode_object (\<lambda>key v out.
     if key = ''RawType'' then map_option (\<lambda>x. out\<lparr>sd_RawType := x\<rparr>) (lex_uint8 v)
     else if key = ''Type'' then map_option (\<lambda>x. out\<lparr>sd_Type := x\<rparr>) (lex_string v)
     else if key = ''Lamports'' then map_option (\<lambda>x. out\<lparr>sd_Lamports := x\<rparr>) (lex_uint v)
     else if key = ''Space'' then map_option (\<lambda>x. out\<lparr>sd_Space := x\<rparr>) (lex_uint v)
     else if key = ''ProgramID'' then map_option (\<lambda>x. out\<lparr>sd_ProgramID := x\<rparr>) (kj_unmarshal K v)
     else Some out)"

definition encode_SystemProgramData :: "key_json \<Rightarrow> system_program_data \<Rightarrow> json" where
  "encode_SystemProgramData K v = JObj [(''RawType'', JNum (int_text (uint (sd_RawType v)))), (''Type'', JStr (sd_Type v)),
     (''Lamports'', JNum (int_text (uint (sd_Lamports v)))), (''Space'', JNum (int_text (uint (sd_Space v)))),
     (''ProgramID'', kj_marshal K (sd_ProgramID v))]"

definition SystemProgramData_fits :: "system_program_data \<Rightarrow> bool" where
  "SystemProgramData_fits v \<longleftrightarrow> is_key (sd_ProgramID v)"

lemma SystemProgramData_round_trip:
  "key_json_ok K \<Longrightarrow> SystemProgramData_fits v \<Longrightarrow> decode_SystemProgramData K (encode_SystemProgramData K v) zero_system_data = Some v"
  by (simp add: key_json_ok_def SystemProgramData_fits_def decode_SystemProgramData_def encode_SystemProgramData_def zero_system_data_def decode_object_JObj)

definition decode_TokenProgramData :: "key_json \<Rightarrow> json \<Rightarrow> token_program_data \<Rightarrow> token_program_data option" where
  "decode_TokenProgramData K = decode_object (\<lambda>key v out.
     if key = ''RawType'' then map_option (\<lambda>x. out\<lparr>tk_RawType := x\<rparr>) (lex_uint8 v)
     else if key = ''Type'' then map_option (\<lambda>x. out\<lparr>tk_Type := x\<rparr>) (lex_string v)
     else if key = ''Decimals'' then map_option (\<lambda>x. out\<lparr>tk_Decimals := x\<rparr>) (lex_int v)
     else if key = ''Amount'' then map_option (\<lambda>x. out\<lparr>tk_Amount := x\<rparr>) (lex_uint v)
     else if key = ''Owner'' then map_option (\<lambda>x. out\<lparr>tk_Owner := x\<rparr>) (kj_unmarshal K v)
     else if key = ''MintAuthority'' then map_option (\<lambda>x. out\<lparr>tk_MintAuthority := x\<rparr>) (kj_unmarshal K v)
     else if key = ''FreezeAuthority'' then map_option (\<lambda>x. out\<lparr>tk_FreezeAuthority := x\<rparr>) (kj_unmarshal K v)
     else if key = ''AuthorityType'' then map_option (\<lambda>x. out\<lparr>tk_AuthorityType := x\<rparr>) (lex_uint8 v)
     else if key = ''NewAuthority'' then map_option (\<lambda>x. out\<lparr>tk_NewAuthority := x\<rparr>) (kj_unmarshal K v)
     else Some out)"

definition encode_TokenProgramData :: "key_json \<Rightarrow> token_program_data \<Rightarrow> json" where
  "encode_TokenProgramData K v = JObj [(''RawType'', JNum (int_text (uint (tk_RawType v)))), (''Type'', JStr (tk_Type v)),
     (''Decimals'', JNum (int_text (tk_Decimals v))), (''Amount'', JNum (int_text (uint (tk_Amount v)))),
     (''Owner'', kj_marshal K (tk_Owner v)), (''MintAuthority'', kj_marshal K (tk_MintAuthority v)),
     (''FreezeAuthority'', kj_marshal K (tk_FreezeAuthority v)),
     (''AuthorityType'', JNum (int_text (uint (tk_AuthorityType v)))), (''NewAuthority'', kj_marshal K (tk_NewAuthority v))]"

definition TokenProgramData_fits :: "token_program_data \<Rightarrow> bool" where
  "TokenProgramData_fits v \<longleftrightarrow> int_ok (tk_Decimals v) \<and> is_key (tk_Owner v) \<and> is_key (tk_MintAuthority v) \<and> is_key (tk_FreezeAuthority v) \<and> is_key (tk_NewAuthority v)"

lemma TokenProgramData_round_trip:
  "key_json_ok K \<Longrightarrow> TokenProgramData_fits v \<Longrightarrow> decode_TokenProgramData K (encode_TokenProgramData K v) zero_token_data = Some v"
  by (simp add: key_json_ok_def TokenProgramData_fits_def decode_TokenProgramData_def encode_TokenProgramData_def zero_token_data_def decode_object_JObj)

section \<open>The log tree\<close>

text \<open>The codec of LogDetails calls itself for the nested entries; the nesting of the message bounds the calls.\<close>

fun members_of :: "json \<Rightarrow> (string \<times> json) list" where
  "members_of (JObj ms) = ms"
| "members_of _ = []"

fun elements_of :: "json \<Rightarrow> json list" where
  "elements_of (JArr js) = js"
| "elements_of _ = []"

lemma decode_fields_cong:
  "(\<And>key v out. (key, v) \<in> set ms \<Longrightarrow> f key v out = g key v out) \<Longrightarrow> decode_fields f ms out = decode_fields g ms out"
proof (induction ms arbitrary: out)
  case (Cons m ms)
  obtain key v where m: "m = (key, v)" by (rule prod.exhaust)
  have "f key v out = g key v out" for out by (rule Cons.prems) (simp add: m)
  moreover have "decode_fields f ms out = decode_fields g ms out" for out
    by (rule Cons.IH) (rule Cons.prems, simp)
  ultimately show ?case by (simp add: m split: option.split)
qed simp

lemma decode_object_cong [fundef_cong]:
  assumes "j = j'" "out = out'" "\<And>key v out. (key, v) \<in> set (members_of j') \<Longrightarrow> f key v out = g key v out"
  shows "decode_object f j out = decode_object g j' out'"
proof (cases j')
  case (JObj ms)
  then have "decode_fields f ms out' = decode_fields g ms out'" by (intro decode_fields_cong assms(3)) simp
  then show ?thesis by (simp add: assms(1,2) JObj decode_object_JObj)
qed (simp_all add: assms(1,2) decode_object_def)

lemma decode_slice_cong [fundef_cong]:
  assumes "j = j'" "\<And>x. x \<in> set (elements_of j') \<Longrightarrow> d x = e x"
  shows "decode_slice d j = decode_slice e j'"
proof (cases j')
  case (JArr js)
  then have "map d js = map e js" using assms(2) by simp
  then show ?thesis by (simp only: assms(1) JArr decode_slice_def json.case)
qed (simp_all add: assms(1) decode_slice_def)

lemma encode_slice_cong [fundef_cong]: "xs = ys \<Longrightarrow> (\<And>x. x \<in> set ys \<Longrightarrow> d x = e x) \<Longrightarrow> encode_slice d xs = encode_slice e ys"
  by (simp add: encode_slice_def)

lemma member_size: "(key, v) \<in> set (members_of j) \<Longrightarrow> size v < size j"
proof (cases j)
  case (JObj ms)
  have "size v \<le> size_list (\<lambda>m. size (snd m)) ms" if "(key, v) \<in> set ms" for ms :: "(string \<times> json) list"
    using that by (induction ms) auto
  moreover have "size_list (\<lambda>m. size (snd m)) ms \<le> size_list (size_prod (\<lambda>_. 0) size) ms" for ms :: "(string \<times> json) list"
    by (rule size_list_pointwise) (simp add: size_prod_simp)
  moreover assume "(key, v) \<in> set (members_of j)"
  ultimately show ?thesis using JObj by (simp add: less_Suc_eq_le) (meson le_trans)
qed simp_all

lemma element_size: "x \<in> set (elements_of j) \<Longrightarrow> size x < size j"
  by (cases j) (auto simp: less_Suc_eq_le intro: size_list_estimation')

definition zero_LogDetails :: log_details where
  "zero_LogDetails = LogDetails [] [] []"

function decode_LogDetails :: "json \<Rightarrow> log_details \<Rightarrow> log_details option" where
  "decode_LogDetails j out = decode_object (\<lambda>key v out.
     if key = ''Program'' then map_option (\<lambda>x. LogDetails x (ld_Logs out) (ld_SubLogs out)) (lex_string v)
     else if key = ''Logs'' then map_option (\<lambda>x. LogDetails (ld_Program out) x (ld_SubLogs out)) (decode_slice lex_string v)
     else if key = ''SubLogs'' then
       map_option (\<lambda>x. LogDetails (ld_Program out) (ld_Logs out) x) (decode_slice (\<lambda>j. decode_LogDetails j zero_LogDetails) v)
     else Some out) j out"
  by pat_completeness auto
termination
  by (relation "measure (\<lambda>(j, out). size j)") (auto dest!: member_size element_size)

fun encode_LogDetails :: "log_details \<Rightarrow> json" where
  "encode_LogDetails (LogDetails program logs sublogs) = JObj [(''Program'', JStr program), (''Logs'', encode_slice JStr logs),
     (''SubLogs'', encode_slice encode_LogDetails sublogs)]"

lemmas decode_LogDetails_unfold = decode_LogDetails.simps
declare decode_LogDetails.simps [simp del]

lemma LogDetails_round_trip: "decode_LogDetails (encode_LogDetails v) zero_LogDetails = Some v"
proof (induction v)
  case (LogDetails program logs sublogs)
  have "decode_slice (\<lambda>j. decode_LogDetails j zero_LogDetails) (encode_slice encode_LogDetails sublogs) = Some sublogs"
    by (rule slice_round_trip) (rule LogDetails.IH)
  then show ?case by (simp add: decode_LogDetails_unfold [of "JObj _"] zero_LogDetails_def decode_object_JObj)
qed

interpretation log_details_json: json_codec encode_LogDetails decode_LogDetails zero_LogDetails "\<lambda>_. True"
proof unfold_locales
  show "encode_LogDetails v \<noteq> JNull" for v by (cases v) simp
qed (rule LogDetails_round_trip)

section \<open>Parsed instruction data\<close>

record parsed_data_info =
  pd_Amount :: "string option"
  pd_Destination :: "string option"
  pd_Source :: "string option"
  pd_Authority :: "string option"
  pd_Mint :: "string option"
  pd_Wallet :: "string option"
  pd_TokenAmount :: "ui_token_amount option"
  pd_Account :: "string option"
  pd_NewAccount :: "string option"
  pd_Owner :: "string option"
  pd_Lamports :: "int option"

definition decode_ParsedDataInfo :: "json \<Rightarrow> parsed_data_info \<Rightarrow> parsed_data_info option" where
  "decode_ParsedDataInfo = decode_object (\<lambda>key v out.
     if key = ''amount'' then map_option (\<lambda>x. out\<lparr>pd_Amount := Some x\<rparr>) (lex_string v)
     else if key = ''destination'' then map_option (\<lambda>x. out\<lparr>pd_Destination := Some x\<rparr>) (lex_string v)
     else if key = ''source'' then map_option (\<lambda>x. out\<lparr>pd_Source := Some x\<rparr>) (lex_string v)
     else if key = ''authority'' then map_option (\<lambda>x. out\<lparr>pd_Authority := Some x\<rparr>) (lex_string v)
     else if key = ''mint'' then map_option (\<lambda>x. out\<lparr>pd_Mint := Some x\<rparr>) (lex_string v)
     else if key = ''wallet'' then map_option (\<lambda>x. out\<lparr>pd_Wallet := Some x\<rparr>) (lex_string v)
     else if key = ''tokenAmount'' then
       map_option (\<lambda>x. out\<lparr>pd_TokenAmount := Some x\<rparr>) (decode_UITokenAmount v (or_new zero_UITokenAmount (pd_TokenAmount out)))
     else if key = ''account'' then map_option (\<lambda>x. out\<lparr>pd_Account := Some x\<rparr>) (lex_string v)
     else if key = ''newAccount'' then map_option (\<lambda>x. out\<lparr>pd_NewAccount := Some x\<rparr>) (lex_string v)
     else if key = ''owner'' then map_option (\<lambda>x. out\<lparr>pd_Owner := Some x\<rparr>) (lex_string v)
     else if key = ''lamports'' then map_option (\<lambda>x. out\<lparr>pd_Lamports := Some x\<rparr>) (lex_int v)
     else Some out)"

definition encode_ParsedDataInfo :: "parsed_data_info \<Rightarrow> json" where
  "encode_ParsedDataInfo v = JObj (optional ''amount'' JStr (pd_Amount v) @ optional ''destination'' JStr (pd_Destination v) @
     optional ''source'' JStr (pd_Source v) @ optional ''authority'' JStr (pd_Authority v) @
     optional ''mint'' JStr (pd_Mint v) @ optional ''wallet'' JStr (pd_Wallet v) @
     optional ''tokenAmount'' encode_UITokenAmount (pd_TokenAmount v) @ optional ''account'' JStr (pd_Account v) @
     optional ''newAccount'' JStr (pd_NewAccount v) @ optional ''owner'' JStr (pd_Owner v) @
     optional ''lamports'' (\<lambda>i. JNum (int_text i)) (pd_Lamports v) @ [])"

definition zero_ParsedDataInfo :: parsed_data_info where
  "zero_ParsedDataInfo = \<lparr>pd_Amount = None, pd_Destination = None, pd_Source = None, pd_Authority = None,
     pd_Mint = None, pd_Wallet = None, pd_TokenAmount = None, pd_Account = None, pd_NewAccount = None, pd_Owner = None,
     pd_Lamports = None\<rparr>"

definition ParsedDataInfo_fits :: "parsed_data_info \<Rightarrow> bool" where
  "ParsedDataInfo_fits v \<longleftrightarrow> pred_option amount_fits (pd_TokenAmount v) \<and>
     pred_option int_ok (pd_Lamports v)"

text \<open>An optional member sets its field, whether it is there or not.\<close>

lemma parsed_updates:
  "pd_Amount out = None \<Longrightarrow> (case p0 of None \<Rightarrow> out | Some x \<Rightarrow> out\<lparr>pd_Amount := Some x\<rparr>) = out\<lparr>pd_Amount := p0\<rparr>"
  "pd_Destination out = None \<Longrightarrow> (case p1 of None \<Rightarrow> out | Some x \<Rightarrow> out\<lparr>pd_Destination := Some x\<rparr>) = out\<lparr>pd_Destination := p1\<rparr>"
  "pd_Source out = None \<Longrightarrow> (case p2 of None \<Rightarrow> out | Some x \<Rightarrow> out\<lparr>pd_Source := Some x\<rparr>) = out\<lparr>pd_Source := p2\<rparr>"
  "pd_Authority out = None \<Longrightarrow> (case p3 of None \<Rightarrow> out | Some x \<Rightarrow> out\<lparr>pd_Authority := Some x\<rparr>) = out\<lparr>pd_Authority := p3\<rparr>"
  "pd_Mint out = None \<Longrightarrow> (case p4 of None \<Rightarrow> out | Some x \<Rightarrow> out\<lparr>pd_Mint := Some x\<rparr>) = out\<lparr>pd_Mint := p4\<rparr>"
  "pd_Wallet out = None \<Longrightarrow> (case p5 of None \<Rightarrow> out | Some x \<Rightarrow> out\<lparr>pd_Wallet := Some x\<rparr>) = out\<lparr>pd_Wallet := p5\<rparr>"
  "pd_TokenAmount out = None \<Longrightarrow> (case p6 of None \<Rightarrow> out | Some x \<Rightarrow> out\<lparr>pd_TokenAmount := Some x\<rparr>) = out\<lparr>pd_TokenAmount := p6\<rparr>"
  "pd_Account out = None \<Longrightarrow> (case p7 of None \<Rightarrow> out | Some x \<Rightarrow> out\<lparr>pd_Account := Some x\<rparr>) = out\<lparr>pd_Account := p7\<rparr>"
  "pd_NewAccount out = None \<Longrightarrow> (case p8 of None \<Rightarrow> out | Some x \<Rightarrow> out\<lparr>pd_NewAccount := Some x\<rparr>) = out\<lparr>pd_NewAccount := p8\<rparr>"
  "pd_Owner out = None \<Longrightarrow> (case p9 of None \<Rightarrow> out | Some x \<Rightarrow> out\<lparr>pd_Owner := Some x\<rparr>) = out\<lparr>pd_Owner := p9\<rparr>"
  "pd_Lamports out = None \<Longrightarrow> (case p10 of None \<Rightarrow> out | Some x \<Rightarrow> out\<lparr>pd_Lamports := Some x\<rparr>) = out\<lparr>pd_Lamports := p10\<rparr>"
  for out :: parsed_data_info
  by (simp_all split: option.split)

lemma zero_parsed_fields:
  "pd_Amount zero_ParsedDataInfo = None"
  "pd_Destination zero_ParsedDataInfo = None"
  "pd_Source zero_ParsedDataInfo = None"
  "pd_Authority zero_ParsedDataInfo = None"
  "pd_Mint zero_ParsedDataInfo = None"
  "pd_Wallet zero_ParsedDataInfo = None"
  "pd_TokenAmount zero_ParsedDataInfo = None"
  "pd_Account zero_ParsedDataInfo = None"
  "pd_NewAccount zero_ParsedDataInfo = None"
  "pd_Owner zero_ParsedDataInfo = None"
  "pd_Lamports zero_ParsedDataInfo = None"
  by (simp_all add: zero_ParsedDataInfo_def)

lemma ParsedDataInfo_round_trip: "ParsedDataInfo_fits v \<Longrightarrow> decode_ParsedDataInfo (encode_ParsedDataInfo v) zero_ParsedDataInfo = Some v"
  unfolding decode_ParsedDataInfo_def encode_ParsedDataInfo_def decode_object_JObj ParsedDataInfo_fits_def
  by (cases "pd_TokenAmount v"; cases "pd_Lamports v")
    (simp_all add: optional_Some decode_optional decode_optional [where ms = "[]", simplified] parsed_updates zero_parsed_fields amount_round_trip)

interpretation parsed_data_info_json: json_codec encode_ParsedDataInfo decode_ParsedDataInfo zero_ParsedDataInfo ParsedDataInfo_fits
  by unfold_locales (rule ParsedDataInfo_round_trip, assumption, simp add: encode_ParsedDataInfo_def)

text \<open>
  ParsedData has its own UnmarshalEasyJSON: the JSON package decodes the struct from the raw value
  (\<open>unmarshal\<close>, \<open>None\<close> an error return); when that fails, a string leaves the zero value, and anything
  else is an error.
\<close>

record parsed_data =
  pt_Info :: parsed_data_info
  pt_Type :: "string option"

definition decode_ParsedData :: "(json \<Rightarrow> parsed_data option) \<Rightarrow> json \<Rightarrow> parsed_data \<Rightarrow> parsed_data option" where
  "decode_ParsedData unmarshal data out =
     (case unmarshal data of
        Some parsedStruct \<Rightarrow> Some parsedStruct
      | None \<Rightarrow>
          (case data of
             JStr _ \<Rightarrow> Some \<lparr>pt_Info = zero_ParsedDataInfo, pt_Type = None\<rparr>
           | JNull \<Rightarrow> Some \<lparr>pt_Info = zero_ParsedDataInfo, pt_Type = None\<rparr>
           | _ \<Rightarrow> None))"

record account_key =
  ak_Pubkey :: string
  ak_Signer :: bool
  ak_Source :: string
  ak_Writable :: bool

definition decode_AccountKey :: "json \<Rightarrow> account_key \<Rightarrow> account_key option" where
  "decode_AccountKey = decode_object (\<lambda>key v out.
     if key = ''pubkey'' then map_option (\<lambda>x. out\<lparr>ak_Pubkey := x\<rparr>) (lex_string v)
     else if key = ''signer'' then map_option (\<lambda>x. out\<lparr>ak_Signer := x\<rparr>) (lex_bool v)
     else if key = ''source'' then map_option (\<lambda>x. out\<lparr>ak_Source := x\<rparr>) (lex_string v)
     else if key = ''writable'' then map_option (\<lambda>x. out\<lparr>ak_Writable := x\<rparr>) (lex_bool v)
     else Some out)"

definition encode_AccountKey :: "account_key \<Rightarrow> json" where
  "encode_AccountKey v = JObj [(''pubkey'', JStr (ak_Pubkey v)), (''signer'', JBool (ak_Signer v)),
     (''source'', JStr (ak_Source v)), (''writable'', JBool (ak_Writable v))]"

definition zero_AccountKey :: account_key where
  "zero_AccountKey = \<lparr>ak_Pubkey = [], ak_Signer = False, ak_Source = [], ak_Writable = False\<rparr>"

lemma AccountKey_round_trip: "decode_AccountKey (encode_AccountKey v) zero_AccountKey = Some v"
  by (simp add: decode_AccountKey_def encode_AccountKey_def zero_AccountKey_def decode_object_JObj)

interpretation account_key_json: json_codec encode_AccountKey decode_AccountKey zero_AccountKey "\<lambda>_. True"
  by unfold_locales (rule AccountKey_round_trip, simp add: encode_AccountKey_def)

text \<open>An interface value is the JSON value itself; nil is written as null.\<close>

record transaction_status =
  ts_Err :: json

definition decode_TransactionStatus :: "json \<Rightarrow> transaction_status \<Rightarrow> transaction_status option" where
  "decode_TransactionStatus = decode_object (\<lambda>key v out.
     if key = ''Err'' then Some (out\<lparr>ts_Err := v\<rparr>)
     else Some out)"

definition encode_TransactionStatus :: "transaction_status \<Rightarrow> json" where
  "encode_TransactionStatus v = JObj [(''Err'', ts_Err v)]"

definition zero_TransactionStatus :: transaction_status where
  "zero_TransactionStatus = \<lparr>ts_Err = JNull\<rparr>"

lemma TransactionStatus_round_trip: "decode_TransactionStatus (encode_TransactionStatus v) zero_TransactionStatus = Some v"
  by (cases "ts_Err v = JNull") (simp_all add: decode_TransactionStatus_def encode_TransactionStatus_def zero_TransactionStatus_def decode_object_JObj)

interpretation transaction_status_json: json_codec encode_TransactionStatus decode_TransactionStatus zero_TransactionStatus "\<lambda>_. True"
  by unfold_locales (rule TransactionStatus_round_trip, simp add: encode_TransactionStatus_def)

section \<open>Blocks\<close>

record solana_block_tx =
  bt_Tx :: solana_tx
  bt_Block :: "64 word"
  bt_Timestamp :: int

definition decode_SolanaBlockTx :: "json \<Rightarrow> solana_block_tx \<Rightarrow> solana_block_tx option" where
  "decode_SolanaBlockTx = decode_object (\<lambda>key v out.
     if key = ''tx'' then map_option (\<lambda>x. out\<lparr>bt_Tx := x\<rparr>) (decode_SolanaTx v (bt_Tx out))
     else if key = ''block'' then map_option (\<lambda>x. out\<lparr>bt_Block := x\<rparr>) (lex_uint v)
     else if key = ''timestamp'' then map_option (\<lambda>x. out\<lparr>bt_Timestamp := x\<rparr>) (lex_int v)
     else Some out)"

definition encode_SolanaBlockTx :: "solana_block_tx \<Rightarrow> json" where
  "encode_SolanaBlockTx v = JObj [(''tx'', encode_SolanaTx (bt_Tx v)), (''block'', JNum (int_text (uint (bt_Block v)))),
     (''timestamp'', JNum (int_text (bt_Timestamp v)))]"

definition zero_SolanaBlockTx :: solana_block_tx where
  "zero_SolanaBlockTx = \<lparr>bt_Tx = zero_SolanaTx, bt_Block = 0, bt_Timestamp = 0\<rparr>"

definition SolanaBlockTx_fits :: "solana_block_tx \<Rightarrow> bool" where
  "SolanaBlockTx_fits v \<longleftrightarrow> whole_tx (bt_Tx v) \<and> int_ok (bt_Timestamp v)"

lemma SolanaBlockTx_round_trip: "SolanaBlockTx_fits v \<Longrightarrow> decode_SolanaBlockTx (encode_SolanaBlockTx v) zero_SolanaBlockTx = Some v"
   by (simp add: SolanaBlockTx_fits_def decode_SolanaBlockTx_def encode_SolanaBlockTx_def zero_SolanaBlockTx_def
      decode_object_JObj tx_json.round_trip)

interpretation solana_block_tx_json: json_codec encode_SolanaBlockTx decode_SolanaBlockTx zero_SolanaBlockTx SolanaBlockTx_fits
  by unfold_locales (rule SolanaBlockTx_round_trip, assumption, simp add: encode_SolanaBlockTx_def)

text \<open>The notification of a block subscription.\<close>

record ws_block =
  wb_BlockTime :: "int option"
  wb_ParentSlot :: "int option"
  wb_Transactions :: "solana_tx list"

definition decode_WSBlock :: "json \<Rightarrow> ws_block \<Rightarrow> ws_block option" where
  "decode_WSBlock = decode_object (\<lambda>key v out.
     if key = ''blockTime'' then map_option (\<lambda>x. out\<lparr>wb_BlockTime := Some x\<rparr>) (lex_int v)
     else if key = ''parentSlot'' then map_option (\<lambda>x. out\<lparr>wb_ParentSlot := Some x\<rparr>) (lex_int v)
     else if key = ''transactions'' then
       map_option (\<lambda>x. out\<lparr>wb_Transactions := x\<rparr>) (decode_slice (\<lambda>j. decode_SolanaTx j zero_SolanaTx) v)
     else Some out)"

definition encode_WSBlock :: "ws_block \<Rightarrow> json" where
  "encode_WSBlock v = JObj (optional ''blockTime'' (\<lambda>i. JNum (int_text i)) (wb_BlockTime v) @
     optional ''parentSlot'' (\<lambda>i. JNum (int_text i)) (wb_ParentSlot v) @
     [(''transactions'', encode_slice encode_SolanaTx (wb_Transactions v))])"

definition zero_WSBlock :: ws_block where
  "zero_WSBlock = \<lparr>wb_BlockTime = None, wb_ParentSlot = None, wb_Transactions = []\<rparr>"

definition WSBlock_fits :: "ws_block \<Rightarrow> bool" where
  "WSBlock_fits v \<longleftrightarrow> pred_option int_ok (wb_BlockTime v) \<and> pred_option int_ok (wb_ParentSlot v) \<and>
     list_all whole_tx (wb_Transactions v)"

lemma WSBlock_round_trip: "WSBlock_fits v \<Longrightarrow> decode_WSBlock (encode_WSBlock v) zero_WSBlock = Some v"
  by (cases "wb_BlockTime v"; cases "wb_ParentSlot v")
     (simp_all add: WSBlock_fits_def decode_WSBlock_def encode_WSBlock_def zero_WSBlock_def decode_object_JObj tx_json.round_trip
      or_null_def optional_def)

interpretation ws_block_json: json_codec encode_WSBlock decode_WSBlock zero_WSBlock WSBlock_fits
  by unfold_locales (rule WSBlock_round_trip, assumption, simp add: encode_WSBlock_def)

record ws_value =
  wv_Slot :: "int option"
  wv_Block :: ws_block

definition decode_WSValue :: "json \<Rightarrow> ws_value \<Rightarrow> ws_value option" where
  "decode_WSValue = decode_object (\<lambda>key v out.
     if key = ''slot'' then map_option (\<lambda>x. out\<lparr>wv_Slot := Some x\<rparr>) (lex_int v)
     else if key = ''block'' then map_option (\<lambda>x. out\<lparr>wv_Block := x\<rparr>) (decode_WSBlock v (wv_Block out))
     else Some out)"

definition encode_WSValue :: "ws_value \<Rightarrow> json" where
  "encode_WSValue v = JObj [(''slot'', or_null (\<lambda>i. JNum (int_text i)) (wv_Slot v)),
     (''block'', encode_WSBlock (wv_Block v))]"

definition zero_WSValue :: ws_value where
  "zero_WSValue = \<lparr>wv_Slot = None, wv_Block = zero_WSBlock\<rparr>"

definition WSValue_fits :: "ws_value \<Rightarrow> bool" where
  "WSValue_fits v \<longleftrightarrow> pred_option int_ok (wv_Slot v) \<and> WSBlock_fits (wv_Block v)"

lemma WSValue_round_trip: "WSValue_fits v \<Longrightarrow> decode_WSValue (encode_WSValue v) zero_WSValue = Some v"
  by (cases "wv_Slot v")
     (simp_all add: WSValue_fits_def decode_WSValue_def encode_WSValue_def zero_WSValue_def decode_object_JObj
      ws_block_json.round_trip or_null_def optional_def)

interpretation ws_value_json: json_codec encode_WSValue decode_WSValue zero_WSValue WSValue_fits
  by unfold_locales (rule WSValue_round_trip, assumption, simp add: encode_WSValue_def)

record ws_result =
  wr_Value :: ws_value

definition decode_WSResult :: "json \<Rightarrow> ws_result \<Rightarrow> ws_result option" where
  "decode_WSResult = decode_object (\<lambda>key v out.
     if key = ''value'' then map_option (\<lambda>x. out\<lparr>wr_Value := x\<rparr>) (decode_WSValue v (wr_Value out))
     else Some out)"

definition encode_WSResult :: "ws_result \<Rightarrow> json" where
  "encode_WSResult v = JObj [(''value'', encode_WSValue (wr_Value v))]"

definition zero_WSResult :: ws_result where
  "zero_WSResult = \<lparr>wr_Value = zero_WSValue\<rparr>"

definition WSResult_fits :: "ws_result \<Rightarrow> bool" where
  "WSResult_fits v \<longleftrightarrow> WSValue_fits (wr_Value v)"

lemma WSResult_round_trip: "WSResult_fits v \<Longrightarrow> decode_WSResult (encode_WSResult v) zero_WSResult = Some v"
   by (simp add: WSResult_fits_def decode_WSResult_def encode_WSResult_def zero_WSResult_def decode_object_JObj
      ws_value_json.round_trip)

interpretation ws_result_json: json_codec encode_WSResult decode_WSResult zero_WSResult WSResult_fits
  by unfold_locales (rule WSResult_round_trip, assumption, simp add: encode_WSResult_def)

record ws_params =
  wp_Result :: "ws_result option"

definition decode_WSParams :: "json \<Rightarrow> ws_params \<Rightarrow> ws_params option" where
  "decode_WSParams = decode_object (\<lambda>key v out.
     if key = ''result'' then
       map_option (\<lambda>x. out\<lparr>wp_Result := Some x\<rparr>) (decode_WSResult v (or_new zero_WSResult (wp_Result out)))
     else Some out)"

definition encode_WSParams :: "ws_params \<Rightarrow> json" where
  "encode_WSParams v = JObj (optional ''result'' encode_WSResult (wp_Result v) @ [])"

definition zero_WSParams :: ws_params where
  "zero_WSParams = \<lparr>wp_Result = None\<rparr>"

definition WSParams_fits :: "ws_params \<Rightarrow> bool" where
  "WSParams_fits v \<longleftrightarrow> pred_option WSResult_fits (wp_Result v)"

lemma WSParams_round_trip: "WSParams_fits v \<Longrightarrow> decode_WSParams (encode_WSParams v) zero_WSParams = Some v"
  by (cases "wp_Result v")
     (simp_all add: WSParams_fits_def decode_WSParams_def encode_WSParams_def zero_WSParams_def decode_object_JObj
      ws_result_json.round_trip or_null_def optional_def)

interpretation ws_params_json: json_codec encode_WSParams decode_WSParams zero_WSParams WSParams_fits
  by unfold_locales (rule WSParams_round_trip, assumption, simp add: encode_WSParams_def)

record ws_block_message =
  wm_Result :: "int option"
  wm_Params :: "ws_params option"

definition decode_WSBlockMessage :: "json \<Rightarrow> ws_block_message \<Rightarrow> ws_block_message option" where
  "decode_WSBlockMessage = decode_object (\<lambda>key v out.
     if key = ''result'' then map_option (\<lambda>x. out\<lparr>wm_Result := Some x\<rparr>) (lex_int v)
     else if key = ''params'' then
       map_option (\<lambda>x. out\<lparr>wm_Params := Some x\<rparr>) (decode_WSParams v (or_new zero_WSParams (wm_Params out)))
     else Some out)"

definition encode_WSBlockMessage :: "ws_block_message \<Rightarrow> json" where
  "encode_WSBlockMessage v = JObj (optional ''result'' (\<lambda>i. JNum (int_text i)) (wm_Result v) @
     optional ''params'' encode_WSParams (wm_Params v) @ [])"

definition zero_WSBlockMessage :: ws_block_message where
  "zero_WSBlockMessage = \<lparr>wm_Result = None, wm_Params = None\<rparr>"

definition WSBlockMessage_fits :: "ws_block_message \<Rightarrow> bool" where
  "WSBlockMessage_fits v \<longleftrightarrow> pred_option int_ok (wm_Result v) \<and> pred_option WSParams_fits (wm_Params v)"

lemma WSBlockMessage_round_trip: "WSBlockMessage_fits v \<Longrightarrow> decode_WSBlockMessage (encode_WSBlockMessage v) zero_WSBlockMessage = Some v"
  by (cases "wm_Result v"; cases "wm_Params v")
     (simp_all add: WSBlockMessage_fits_def decode_WSBlockMessage_def encode_WSBlockMessage_def zero_WSBlockMessage_def
      decode_object_JObj ws_params_json.round_trip or_null_def optional_def)

interpretation ws_block_message_json: json_codec encode_WSBlockMessage decode_WSBlockMessage zero_WSBlockMessage WSBlockMessage_fits
  by unfold_locales (rule WSBlockMessage_round_trip, assumption, simp add: encode_WSBlockMessage_def)

section \<open>The answers of a node\<close>

text \<open>The encoders of what \<open>GetBlockMessage\<close> and \<open>GetTx\<close> decode.\<close>

definition encode_BlockResult :: "block_result \<Rightarrow> json" where
  "encode_BlockResult v = JObj [(''blockTime'', JNum (int_text (br_BlockTime v))), (''parentSlot'', JNum (int_text (br_ParentSlot v))),
     (''transactions'', encode_slice encode_SolanaTx (br_Transactions v))]"

definition encode_block_error :: "block_error \<Rightarrow> json" where
  "encode_block_error v = JObj [(''code'', JNum (int_text (be_Code v))), (''message'', JStr (be_Message v))]"

definition encode_HTTPBlockMessage :: "block_message \<Rightarrow> json" where
  "encode_HTTPBlockMessage v = JObj (optional ''result'' encode_BlockResult (bm_Result v) @
     optional ''error'' encode_block_error (bm_Error v))"

definition encode_HTTPTxMessage :: "solana_tx \<Rightarrow> json" where
  "encode_HTTPTxMessage tx = JObj [(''result'', encode_SolanaTx tx)]"

definition BlockResult_fits :: "block_result \<Rightarrow> bool" where
  "BlockResult_fits v \<longleftrightarrow> int_ok (br_BlockTime v) \<and> int_ok (br_ParentSlot v) \<and> list_all whole_tx (br_Transactions v)"

interpretation block_result_json: json_codec encode_BlockResult decode_BlockResult zero_BlockResult BlockResult_fits
  by unfold_locales (simp_all add: BlockResult_fits_def encode_BlockResult_def decode_BlockResult_def zero_BlockResult_def decode_object_JObj)

definition block_error_fits :: "block_error \<Rightarrow> bool" where
  "block_error_fits v \<longleftrightarrow> int_ok (be_Code v)"

interpretation block_error_json: json_codec encode_block_error decode_block_error zero_block_error block_error_fits
  by unfold_locales (simp_all add: block_error_fits_def encode_block_error_def decode_block_error_def zero_block_error_def decode_object_JObj)

definition block_message_fits :: "block_message \<Rightarrow> bool" where
  "block_message_fits v \<longleftrightarrow> pred_option BlockResult_fits (bm_Result v) \<and> pred_option block_error_fits (bm_Error v)"

lemma block_message_round_trip:
  "block_message_fits v \<Longrightarrow> decode_HTTPBlockMessage (encode_HTTPBlockMessage v) \<lparr>bm_Result = None, bm_Error = None\<rparr> = Some v"
  by (cases "bm_Result v"; cases "bm_Error v")
    (simp_all add: block_message_fits_def encode_HTTPBlockMessage_def decode_HTTPBlockMessage_def decode_object_JObj optional_def
      block_result_json.round_trip block_error_json.round_trip)

interpretation block_message_json: json_codec encode_HTTPBlockMessage decode_HTTPBlockMessage "\<lparr>bm_Result = None, bm_Error = None\<rparr>" block_message_fits
  by unfold_locales (rule block_message_round_trip, assumption, simp add: encode_HTTPBlockMessage_def)

interpretation tx_message_json: json_codec encode_HTTPTxMessage decode_HTTPTxMessage zero_SolanaTx whole_tx
  by unfold_locales (simp_all add: encode_HTTPTxMessage_def decode_HTTPTxMessage_def decode_object_JObj tx_json.round_trip)

end
