(* ===== verification/CodecMetaplex.thy ===== *)
theory CodecMetaplex
  imports JsonCodec
begin

text \<open>
  The generated codecs (internal/types/sol_easyjson.go) of the Metaplex structs: the account's data, the
  document its URI points to, and their parts. A pointer to a slice that is nil is written as null, like
  the nil pointer, and both are \<open>None\<close>.
\<close>

section \<open>Parts\<close>

record metaplex_attribute =
  atr_Type :: string
  atr_Value :: string

definition decode_Attribute :: "json \<Rightarrow> metaplex_attribute \<Rightarrow> metaplex_attribute option" where
  "decode_Attribute = decode_object (\<lambda>key v out.
     if key = ''trait_type'' then map_option (\<lambda>x. out\<lparr>atr_Type := x\<rparr>) (lex_string v)
     else if key = ''value'' then map_option (\<lambda>x. out\<lparr>atr_Value := x\<rparr>) (lex_string v)
     else Some out)"

definition encode_Attribute :: "metaplex_attribute \<Rightarrow> json" where
  "encode_Attribute v = JObj [(''trait_type'', JStr (atr_Type v)), (''value'', JStr (atr_Value v))]"

definition zero_Attribute :: metaplex_attribute where
  "zero_Attribute = \<lparr>atr_Type = [], atr_Value = []\<rparr>"

lemma Attribute_round_trip: "decode_Attribute (encode_Attribute v) zero_Attribute = Some v"
  by (simp add: decode_Attribute_def encode_Attribute_def zero_Attribute_def decode_object_JObj)

interpretation metaplex_attribute_json: json_codec encode_Attribute decode_Attribute zero_Attribute "\<lambda>_. True"
  by unfold_locales (rule Attribute_round_trip, simp add: encode_Attribute_def)

record metaplex_collection =
  mcl_Name :: string
  mcl_Family :: string

definition decode_Collection :: "json \<Rightarrow> metaplex_collection \<Rightarrow> metaplex_collection option" where
  "decode_Collection = decode_object (\<lambda>key v out.
     if key = ''name'' then map_option (\<lambda>x. out\<lparr>mcl_Name := x\<rparr>) (lex_string v)
     else if key = ''family'' then map_option (\<lambda>x. out\<lparr>mcl_Family := x\<rparr>) (lex_string v)
     else Some out)"

definition encode_Collection :: "metaplex_collection \<Rightarrow> json" where
  "encode_Collection v = JObj [(''name'', JStr (mcl_Name v)), (''family'', JStr (mcl_Family v))]"

definition zero_Collection :: metaplex_collection where
  "zero_Collection = \<lparr>mcl_Name = [], mcl_Family = []\<rparr>"

lemma Collection_round_trip: "decode_Collection (encode_Collection v) zero_Collection = Some v"
  by (simp add: decode_Collection_def encode_Collection_def zero_Collection_def decode_object_JObj)

interpretation metaplex_collection_json: json_codec encode_Collection decode_Collection zero_Collection "\<lambda>_. True"
  by unfold_locales (rule Collection_round_trip, simp add: encode_Collection_def)

record metaplex_creator =
  mcr_Address :: string
  mcr_Share :: "8 word"

definition decode_Creator :: "json \<Rightarrow> metaplex_creator \<Rightarrow> metaplex_creator option" where
  "decode_Creator = decode_object (\<lambda>key v out.
     if key = ''address'' then map_option (\<lambda>x. out\<lparr>mcr_Address := x\<rparr>) (lex_string v)
     else if key = ''share'' then map_option (\<lambda>x. out\<lparr>mcr_Share := x\<rparr>) (lex_uint8 v)
     else Some out)"

definition encode_Creator :: "metaplex_creator \<Rightarrow> json" where
  "encode_Creator v = JObj [(''address'', JStr (mcr_Address v)), (''share'', JNum (int_text (uint (mcr_Share v))))]"

definition zero_Creator :: metaplex_creator where
  "zero_Creator = \<lparr>mcr_Address = [], mcr_Share = 0\<rparr>"

lemma Creator_round_trip: "decode_Creator (encode_Creator v) zero_Creator = Some v"
  by (simp add: decode_Creator_def encode_Creator_def zero_Creator_def decode_object_JObj)

interpretation metaplex_creator_json: json_codec encode_Creator decode_Creator zero_Creator "\<lambda>_. True"
  by unfold_locales (rule Creator_round_trip, simp add: encode_Creator_def)

record metaplex_file =
  mfl_Uri :: string
  mfl_Type :: string

definition decode_MediaFile :: "json \<Rightarrow> metaplex_file \<Rightarrow> metaplex_file option" where
  "decode_MediaFile = decode_object (\<lambda>key v out.
     if key = ''uri'' then map_option (\<lambda>x. out\<lparr>mfl_Uri := x\<rparr>) (lex_string v)
     else if key = ''type'' then map_option (\<lambda>x. out\<lparr>mfl_Type := x\<rparr>) (lex_string v)
     else Some out)"

definition encode_MediaFile :: "metaplex_file \<Rightarrow> json" where
  "encode_MediaFile v = JObj [(''uri'', JStr (mfl_Uri v)), (''type'', JStr (mfl_Type v))]"

definition zero_MediaFile :: metaplex_file where
  "zero_MediaFile = \<lparr>mfl_Uri = [], mfl_Type = []\<rparr>"

lemma MediaFile_round_trip: "decode_MediaFile (encode_MediaFile v) zero_MediaFile = Some v"
  by (simp add: decode_MediaFile_def encode_MediaFile_def zero_MediaFile_def decode_object_JObj)

interpretation metaplex_file_json: json_codec encode_MediaFile decode_MediaFile zero_MediaFile "\<lambda>_. True"
  by unfold_locales (rule MediaFile_round_trip, simp add: encode_MediaFile_def)

record metaplex_properties =
  mpr_Files :: "metaplex_file list"
  mpr_Creators :: "metaplex_creator list"

definition decode_Properties :: "json \<Rightarrow> metaplex_properties \<Rightarrow> metaplex_properties option" where
  "decode_Properties = decode_object (\<lambda>key v out.
     if key = ''files'' then
       map_option (\<lambda>x. out\<lparr>mpr_Files := x\<rparr>) (decode_slice (\<lambda>j. decode_MediaFile j zero_MediaFile) v)
     else if key = ''creators'' then
       map_option (\<lambda>x. out\<lparr>mpr_Creators := x\<rparr>) (decode_slice (\<lambda>j. decode_Creator j zero_Creator) v)
     else Some out)"

definition encode_Properties :: "metaplex_properties \<Rightarrow> json" where
  "encode_Properties v = JObj [(''files'', encode_slice encode_MediaFile (mpr_Files v)),
     (''creators'', encode_slice encode_Creator (mpr_Creators v))]"

definition zero_Properties :: metaplex_properties where
  "zero_Properties = \<lparr>mpr_Files = [], mpr_Creators = []\<rparr>"

lemma Properties_round_trip: "decode_Properties (encode_Properties v) zero_Properties = Some v"
   by (simp add: decode_Properties_def encode_Properties_def zero_Properties_def decode_object_JObj
      metaplex_creator_json.round_trip metaplex_file_json.round_trip)

interpretation metaplex_properties_json: json_codec encode_Properties decode_Properties zero_Properties "\<lambda>_. True"
  by unfold_locales (rule Properties_round_trip, simp add: encode_Properties_def)

record metaplex_uses =
  mus_UseMethod :: "8 word"
  mus_Remaining :: "64 word"
  mus_Total :: "64 word"

definition decode_Uses :: "json \<Rightarrow> metaplex_uses \<Rightarrow> metaplex_uses option" where
  "decode_Uses = decode_object (\<lambda>key v out.
     if key = ''UseMethod'' then map_option (\<lambda>x. out\<lparr>mus_UseMethod := x\<rparr>) (lex_uint8 v)
     else if key = ''Remaining'' then map_option (\<lambda>x. out\<lparr>mus_Remaining := x\<rparr>) (lex_uint v)
     else if key = ''Total'' then map_option (\<lambda>x. out\<lparr>mus_Total := x\<rparr>) (lex_uint v)
     else Some out)"

definition encode_Uses :: "metaplex_uses \<Rightarrow> json" where
  "encode_Uses v = JObj [(''UseMethod'', JNum (int_text (uint (mus_UseMethod v)))),
     (''Remaining'', JNum (int_text (uint (mus_Remaining v)))), (''Total'', JNum (int_text (uint (mus_Total v))))]"

definition zero_Uses :: metaplex_uses where
  "zero_Uses = \<lparr>mus_UseMethod = 0, mus_Remaining = 0, mus_Total = 0\<rparr>"

lemma Uses_round_trip: "decode_Uses (encode_Uses v) zero_Uses = Some v"
  by (simp add: decode_Uses_def encode_Uses_def zero_Uses_def decode_object_JObj)

interpretation metaplex_uses_json: json_codec encode_Uses decode_Uses zero_Uses "\<lambda>_. True"
  by unfold_locales (rule Uses_round_trip, simp add: encode_Uses_def)

section \<open>The structs\<close>

record metaplex_metadata_data =
  mmd_Name :: string
  mmd_Symbol :: string
  mmd_URI :: string
  mmd_IsMutable :: bool

definition decode_MetaplexMetadataData :: "json \<Rightarrow> metaplex_metadata_data \<Rightarrow> metaplex_metadata_data option" where
  "decode_MetaplexMetadataData = decode_object (\<lambda>key v out.
     if key = ''Name'' then map_option (\<lambda>x. out\<lparr>mmd_Name := x\<rparr>) (lex_string v)
     else if key = ''Symbol'' then map_option (\<lambda>x. out\<lparr>mmd_Symbol := x\<rparr>) (lex_string v)
     else if key = ''URI'' then map_option (\<lambda>x. out\<lparr>mmd_URI := x\<rparr>) (lex_string v)
     else if key = ''IsMutable'' then map_option (\<lambda>x. out\<lparr>mmd_IsMutable := x\<rparr>) (lex_bool v)
     else Some out)"

definition encode_MetaplexMetadataData :: "metaplex_metadata_data \<Rightarrow> json" where
  "encode_MetaplexMetadataData v = JObj [(''Name'', JStr (mmd_Name v)), (''Symbol'', JStr (mmd_Symbol v)),
     (''URI'', JStr (mmd_URI v)), (''IsMutable'', JBool (mmd_IsMutable v))]"

definition zero_MetaplexMetadataData :: metaplex_metadata_data where
  "zero_MetaplexMetadataData = \<lparr>mmd_Name = [], mmd_Symbol = [], mmd_URI = [], mmd_IsMutable = False\<rparr>"

lemma MetaplexMetadataData_round_trip: "decode_MetaplexMetadataData (encode_MetaplexMetadataData v) zero_MetaplexMetadataData = Some v"
  by (simp add: decode_MetaplexMetadataData_def encode_MetaplexMetadataData_def zero_MetaplexMetadataData_def decode_object_JObj)

interpretation metaplex_metadata_data_json: json_codec encode_MetaplexMetadataData decode_MetaplexMetadataData zero_MetaplexMetadataData "\<lambda>_. True"
  by unfold_locales (rule MetaplexMetadataData_round_trip, simp add: encode_MetaplexMetadataData_def)

record metaplex_metadata =
  mmx_Name :: string
  mmx_Symbol :: string
  mmx_Description :: string
  mmx_Image :: string
  mmx_SellerFeeBasisPoints :: int
  mmx_Properties :: metaplex_properties
  mmx_Collection :: metaplex_collection
  mmx_Attributes :: "metaplex_attribute list"

definition decode_MetaplexMetadata :: "json \<Rightarrow> metaplex_metadata \<Rightarrow> metaplex_metadata option" where
  "decode_MetaplexMetadata = decode_object (\<lambda>key v out.
     if key = ''name'' then map_option (\<lambda>x. out\<lparr>mmx_Name := x\<rparr>) (lex_string v)
     else if key = ''symbol'' then map_option (\<lambda>x. out\<lparr>mmx_Symbol := x\<rparr>) (lex_string v)
     else if key = ''description'' then map_option (\<lambda>x. out\<lparr>mmx_Description := x\<rparr>) (lex_string v)
     else if key = ''image'' then map_option (\<lambda>x. out\<lparr>mmx_Image := x\<rparr>) (lex_string v)
     else if key = ''seller_fee_basis_points'' then
       map_option (\<lambda>x. out\<lparr>mmx_SellerFeeBasisPoints := x\<rparr>) (lex_int v)
     else if key = ''properties'' then
       map_option (\<lambda>x. out\<lparr>mmx_Properties := x\<rparr>) (decode_Properties v (mmx_Properties out))
     else if key = ''collection'' then
       map_option (\<lambda>x. out\<lparr>mmx_Collection := x\<rparr>) (decode_Collection v (mmx_Collection out))
     else if key = ''attributes'' then
       map_option (\<lambda>x. out\<lparr>mmx_Attributes := x\<rparr>) (decode_slice (\<lambda>j. decode_Attribute j zero_Attribute) v)
     else Some out)"

definition encode_MetaplexMetadata :: "metaplex_metadata \<Rightarrow> json" where
  "encode_MetaplexMetadata v = JObj ([(''name'', JStr (mmx_Name v)), (''symbol'', JStr (mmx_Symbol v)),
     (''description'', JStr (mmx_Description v)), (''image'', JStr (mmx_Image v))] @
     (if mmx_SellerFeeBasisPoints v = 0 then [] else [(''seller_fee_basis_points'', JNum (int_text (mmx_SellerFeeBasisPoints v)))]) @
     [(''properties'', encode_Properties (mmx_Properties v)), (''collection'', encode_Collection (mmx_Collection v)),
     (''attributes'', encode_slice encode_Attribute (mmx_Attributes v))])"

definition zero_MetaplexMetadata :: metaplex_metadata where
  "zero_MetaplexMetadata = \<lparr>mmx_Name = [], mmx_Symbol = [], mmx_Description = [], mmx_Image = [],
     mmx_SellerFeeBasisPoints = 0, mmx_Properties = zero_Properties, mmx_Collection = zero_Collection,
     mmx_Attributes = []\<rparr>"

definition MetaplexMetadata_fits :: "metaplex_metadata \<Rightarrow> bool" where
  "MetaplexMetadata_fits v \<longleftrightarrow> int_ok (mmx_SellerFeeBasisPoints v)"

lemma MetaplexMetadata_round_trip: "MetaplexMetadata_fits v \<Longrightarrow> decode_MetaplexMetadata (encode_MetaplexMetadata v) zero_MetaplexMetadata = Some v"
  by (cases "mmx_SellerFeeBasisPoints v = 0")
     (simp_all add: MetaplexMetadata_fits_def decode_MetaplexMetadata_def encode_MetaplexMetadata_def zero_MetaplexMetadata_def
      decode_object_JObj metaplex_attribute_json.round_trip metaplex_collection_json.round_trip
      metaplex_properties_json.round_trip)

interpretation metaplex_metadata_json: json_codec encode_MetaplexMetadata decode_MetaplexMetadata zero_MetaplexMetadata MetaplexMetadata_fits
  by unfold_locales (rule MetaplexMetadata_round_trip, assumption, simp add: encode_MetaplexMetadata_def)

record metaplex_data =
  mda_Name :: string
  mda_Symbol :: string
  mda_Uri :: string
  mda_SellerFeeBasisPoints :: "16 word"
  mda_Creators :: "metaplex_creator list option"
  mda_Collection :: "metaplex_collection option"
  mda_Uses :: "metaplex_uses option"

definition decode_MetaplexData :: "json \<Rightarrow> metaplex_data \<Rightarrow> metaplex_data option" where
  "decode_MetaplexData = decode_object (\<lambda>key v out.
     if key = ''name'' then map_option (\<lambda>x. out\<lparr>mda_Name := x\<rparr>) (lex_string v)
     else if key = ''symbol'' then map_option (\<lambda>x. out\<lparr>mda_Symbol := x\<rparr>) (lex_string v)
     else if key = ''uri'' then map_option (\<lambda>x. out\<lparr>mda_Uri := x\<rparr>) (lex_string v)
     else if key = ''seller_fee_basis_points'' then
       map_option (\<lambda>x. out\<lparr>mda_SellerFeeBasisPoints := x\<rparr>) (lex_uint16 v)
     else if key = ''creators'' then
       map_option (\<lambda>x. out\<lparr>mda_Creators := Some x\<rparr>) (decode_slice (\<lambda>j. decode_Creator j zero_Creator) v)
     else if key = ''collection'' then
       map_option (\<lambda>x. out\<lparr>mda_Collection := Some x\<rparr>) (decode_Collection v (or_new zero_Collection (mda_Collection out)))
     else if key = ''Uses'' then
       map_option (\<lambda>x. out\<lparr>mda_Uses := Some x\<rparr>) (decode_Uses v (or_new zero_Uses (mda_Uses out)))
     else Some out)"

definition encode_MetaplexData :: "metaplex_data \<Rightarrow> json" where
  "encode_MetaplexData v = JObj ([(''name'', JStr (mda_Name v)), (''symbol'', JStr (mda_Symbol v)),
     (''uri'', JStr (mda_Uri v))] @
     (if mda_SellerFeeBasisPoints v = 0 then [] else [(''seller_fee_basis_points'', JNum (int_text (uint (mda_SellerFeeBasisPoints v))))]) @
     [(''creators'', or_null (encode_slice encode_Creator) (mda_Creators v)),
     (''collection'', or_null encode_Collection (mda_Collection v)), (''Uses'', or_null encode_Uses (mda_Uses v))])"

definition zero_MetaplexData :: metaplex_data where
  "zero_MetaplexData = \<lparr>mda_Name = [], mda_Symbol = [], mda_Uri = [], mda_SellerFeeBasisPoints = 0, mda_Creators = None,
     mda_Collection = None, mda_Uses = None\<rparr>"

lemma MetaplexData_round_trip: "decode_MetaplexData (encode_MetaplexData v) zero_MetaplexData = Some v"
  by (cases "mda_Creators v"; cases "mda_Collection v"; cases "mda_Uses v"; cases "mda_SellerFeeBasisPoints v = 0")
     (simp_all add: decode_MetaplexData_def encode_MetaplexData_def zero_MetaplexData_def decode_object_JObj
      metaplex_collection_json.round_trip metaplex_creator_json.round_trip metaplex_uses_json.round_trip or_null_def
      optional_def)

interpretation metaplex_data_json: json_codec encode_MetaplexData decode_MetaplexData zero_MetaplexData "\<lambda>_. True"
  by unfold_locales (rule MetaplexData_round_trip, simp add: encode_MetaplexData_def)

end
