(* ===== verification/CodecSwaps.thy ===== *)
theory CodecSwaps
  imports JsonCodec
begin

text \<open>
  The generated codecs (internal/types/sol_easyjson.go) of the structs between the parser and the
  database: transfers, swaps and their older forms, decoded instructions, the program's log tree and the
  logs of the Raydium pools. A field without a json tag has its Go name as its key. Each codec
  interprets \<open>json_codec\<close>.
\<close>

section \<open>Transfers and swaps\<close>

definition decode_SolTransfer :: "json \<Rightarrow> sol_transfer \<Rightarrow> sol_transfer option" where
  "decode_SolTransfer = decode_object (\<lambda>key v out.
     if key = ''InnerIndex'' then map_option (\<lambda>x. out\<lparr>tr_InnerIndex := x\<rparr>) (lex_int v)
     else if key = ''IxIndex'' then map_option (\<lambda>x. out\<lparr>tr_IxIndex := x\<rparr>) (lex_int v)
     else if key = ''ToUserAccount'' then map_option (\<lambda>x. out\<lparr>tr_ToUserAccount := x\<rparr>) (lex_string v)
     else if key = ''ToTokenAccount'' then map_option (\<lambda>x. out\<lparr>tr_ToTokenAccount := x\<rparr>) (lex_string v)
     else if key = ''FromUserAccount'' then map_option (\<lambda>x. out\<lparr>tr_FromUserAccount := x\<rparr>) (lex_string v)
     else if key = ''FromTokenAccount'' then map_option (\<lambda>x. out\<lparr>tr_FromTokenAccount := x\<rparr>) (lex_string v)
     else if key = ''Authority'' then map_option (\<lambda>x. out\<lparr>tr_Authority := x\<rparr>) (lex_string v)
     else if key = ''Mint'' then map_option (\<lambda>x. out\<lparr>tr_Mint := x\<rparr>) (lex_string v)
     else if key = ''Decimals'' then map_option (\<lambda>x. out\<lparr>tr_Decimals := x\<rparr>) (lex_int v)
     else if key = ''Amount'' then map_option (\<lambda>x. out\<lparr>tr_Amount := x\<rparr>) (lex_string v)
     else if key = ''Type'' then map_option (\<lambda>x. out\<lparr>tr_Type := x\<rparr>) (lex_string v)
     else if key = ''ParentProgramId'' then map_option (\<lambda>x. out\<lparr>tr_ParentProgramId := x\<rparr>) (lex_string v)
     else if key = ''IxAccounts'' then map_option (\<lambda>x. out\<lparr>tr_IxAccounts := x\<rparr>) (decode_slice lex_int v)
     else if key = ''EventData'' then map_option (\<lambda>x. out\<lparr>tr_EventData := x\<rparr>) (lex_string v)
     else Some out)"

definition encode_SolTransfer :: "sol_transfer \<Rightarrow> json" where
  "encode_SolTransfer v = JObj [(''InnerIndex'', JNum (int_text (tr_InnerIndex v))),
     (''IxIndex'', JNum (int_text (tr_IxIndex v))), (''ToUserAccount'', JStr (tr_ToUserAccount v)),
     (''ToTokenAccount'', JStr (tr_ToTokenAccount v)), (''FromUserAccount'', JStr (tr_FromUserAccount v)),
     (''FromTokenAccount'', JStr (tr_FromTokenAccount v)), (''Authority'', JStr (tr_Authority v)), (''Mint'', JStr (tr_Mint v)),
     (''Decimals'', JNum (int_text (tr_Decimals v))), (''Amount'', JStr (tr_Amount v)), (''Type'', JStr (tr_Type v)),
     (''ParentProgramId'', JStr (tr_ParentProgramId v)),
     (''IxAccounts'', encode_slice (\<lambda>i. JNum (int_text i)) (tr_IxAccounts v)), (''EventData'', JStr (tr_EventData v))]"

definition SolTransfer_fits :: "sol_transfer \<Rightarrow> bool" where
  "SolTransfer_fits v \<longleftrightarrow> int_ok (tr_InnerIndex v) \<and> int_ok (tr_IxIndex v) \<and>
     int_ok (tr_Decimals v) \<and> list_all int_ok (tr_IxAccounts v)"

lemma SolTransfer_round_trip: "SolTransfer_fits v \<Longrightarrow> decode_SolTransfer (encode_SolTransfer v) zero_transfer = Some v"
  by (simp add: SolTransfer_fits_def decode_SolTransfer_def encode_SolTransfer_def zero_transfer_def decode_object_JObj)

interpretation sol_transfer_json: json_codec encode_SolTransfer decode_SolTransfer zero_transfer SolTransfer_fits
  by unfold_locales (rule SolTransfer_round_trip, assumption, simp add: encode_SolTransfer_def)

definition decode_SolBalanceDiff :: "json \<Rightarrow> sol_balance_diff \<Rightarrow> sol_balance_diff option" where
  "decode_SolBalanceDiff = decode_object (\<lambda>key v out.
     if key = ''token'' then map_option (\<lambda>x. out\<lparr>bd_Mint := x\<rparr>) (lex_string v)
     else if key = ''decimals'' then map_option (\<lambda>x. out\<lparr>bd_Decimals := x\<rparr>) (lex_int v)
     else if key = ''amount'' then map_option (\<lambda>x. out\<lparr>bd_Amount := x\<rparr>) (lex_string v)
     else if key = ''owner'' then map_option (\<lambda>x. out\<lparr>bd_Owner := x\<rparr>) (lex_string v)
     else Some out)"

definition encode_SolBalanceDiff :: "sol_balance_diff \<Rightarrow> json" where
  "encode_SolBalanceDiff v = JObj [(''token'', JStr (bd_Mint v)), (''decimals'', JNum (int_text (bd_Decimals v))),
     (''amount'', JStr (bd_Amount v)), (''owner'', JStr (bd_Owner v))]"

definition SolBalanceDiff_fits :: "sol_balance_diff \<Rightarrow> bool" where
  "SolBalanceDiff_fits v \<longleftrightarrow> int_ok (bd_Decimals v)"

lemma SolBalanceDiff_round_trip: "SolBalanceDiff_fits v \<Longrightarrow> decode_SolBalanceDiff (encode_SolBalanceDiff v) zero_diff = Some v"
  by (simp add: SolBalanceDiff_fits_def decode_SolBalanceDiff_def encode_SolBalanceDiff_def zero_diff_def decode_object_JObj)

interpretation sol_balance_diff_json: json_codec encode_SolBalanceDiff decode_SolBalanceDiff zero_diff SolBalanceDiff_fits
  by unfold_locales (rule SolBalanceDiff_round_trip, assumption, simp add: encode_SolBalanceDiff_def)

definition decode_SolSwap :: "json \<Rightarrow> sol_swap \<Rightarrow> sol_swap option" where
  "decode_SolSwap = decode_object (\<lambda>key v out.
     if key = ''Pair'' then map_option (\<lambda>x. out\<lparr>sw_Pair := x\<rparr>) (lex_string v)
     else if key = ''Exchange'' then map_option (\<lambda>x. out\<lparr>sw_Exchange := x\<rparr>) (lex_string v)
     else if key = ''TokenOut'' then map_option (\<lambda>x. out\<lparr>sw_TokenOut := x\<rparr>) (lex_string v)
     else if key = ''TokenIn'' then map_option (\<lambda>x. out\<lparr>sw_TokenIn := x\<rparr>) (lex_string v)
     else if key = ''AmountOut'' then map_option (\<lambda>x. out\<lparr>sw_AmountOut := x\<rparr>) (lex_string v)
     else if key = ''AmountIn'' then map_option (\<lambda>x. out\<lparr>sw_AmountIn := x\<rparr>) (lex_string v)
     else if key = ''Wallet'' then map_option (\<lambda>x. out\<lparr>sw_Wallet := x\<rparr>) (lex_string v)
     else if key = ''Source'' then map_option (\<lambda>x. out\<lparr>sw_Source := x\<rparr>) (lex_string v)
     else Some out)"

definition encode_SolSwap :: "sol_swap \<Rightarrow> json" where
  "encode_SolSwap v = JObj [(''Pair'', JStr (sw_Pair v)), (''Exchange'', JStr (sw_Exchange v)),
     (''TokenOut'', JStr (sw_TokenOut v)), (''TokenIn'', JStr (sw_TokenIn v)), (''AmountOut'', JStr (sw_AmountOut v)),
     (''AmountIn'', JStr (sw_AmountIn v)), (''Wallet'', JStr (sw_Wallet v)), (''Source'', JStr (sw_Source v))]"

lemma SolSwap_round_trip: "decode_SolSwap (encode_SolSwap v) zero_swap = Some v"
  by (simp add: decode_SolSwap_def encode_SolSwap_def zero_swap_def decode_object_JObj)

interpretation sol_swap_json: json_codec encode_SolSwap decode_SolSwap zero_swap "\<lambda>_. True"
  by unfold_locales (rule SolSwap_round_trip, simp add: encode_SolSwap_def)

section \<open>The older form of a swap\<close>

text \<open>The data of a swap in a form that nothing under src/ builds any more.\<close>

record native_in_out =
  nio_Account :: string
  nio_Amount :: string

definition decode_NativeInOutData :: "json \<Rightarrow> native_in_out \<Rightarrow> native_in_out option" where
  "decode_NativeInOutData = decode_object (\<lambda>key v out.
     if key = ''account'' then map_option (\<lambda>x. out\<lparr>nio_Account := x\<rparr>) (lex_string v)
     else if key = ''amount'' then map_option (\<lambda>x. out\<lparr>nio_Amount := x\<rparr>) (lex_string v)
     else Some out)"

definition encode_NativeInOutData :: "native_in_out \<Rightarrow> json" where
  "encode_NativeInOutData v = JObj [(''account'', JStr (nio_Account v)), (''amount'', JStr (nio_Amount v))]"

definition zero_NativeInOutData :: native_in_out where
  "zero_NativeInOutData = \<lparr>nio_Account = [], nio_Amount = []\<rparr>"

lemma NativeInOutData_round_trip: "decode_NativeInOutData (encode_NativeInOutData v) zero_NativeInOutData = Some v"
  by (simp add: decode_NativeInOutData_def encode_NativeInOutData_def zero_NativeInOutData_def decode_object_JObj)

interpretation native_in_out_json: json_codec encode_NativeInOutData decode_NativeInOutData zero_NativeInOutData "\<lambda>_. True"
  by unfold_locales (rule NativeInOutData_round_trip, simp add: encode_NativeInOutData_def)

record raw_token_amount =
  rta_Amount :: string
  rta_Decimals :: int

definition decode_token_amount :: "json \<Rightarrow> raw_token_amount \<Rightarrow> raw_token_amount option" where
  "decode_token_amount = decode_object (\<lambda>key v out.
     if key = ''amount'' then map_option (\<lambda>x. out\<lparr>rta_Amount := x\<rparr>) (lex_string v)
     else if key = ''decimals'' then map_option (\<lambda>x. out\<lparr>rta_Decimals := x\<rparr>) (lex_int v)
     else Some out)"

definition encode_token_amount :: "raw_token_amount \<Rightarrow> json" where
  "encode_token_amount v = JObj [(''amount'', JStr (rta_Amount v)), (''decimals'', JNum (int_text (rta_Decimals v)))]"

definition zero_token_amount :: raw_token_amount where
  "zero_token_amount = \<lparr>rta_Amount = [], rta_Decimals = 0\<rparr>"

definition token_amount_fits :: "raw_token_amount \<Rightarrow> bool" where
  "token_amount_fits v \<longleftrightarrow> int_ok (rta_Decimals v)"

lemma token_amount_round_trip: "token_amount_fits v \<Longrightarrow> decode_token_amount (encode_token_amount v) zero_token_amount = Some v"
  by (simp add: token_amount_fits_def decode_token_amount_def encode_token_amount_def zero_token_amount_def decode_object_JObj)

interpretation raw_token_amount_json: json_codec encode_token_amount decode_token_amount zero_token_amount token_amount_fits
  by unfold_locales (rule token_amount_round_trip, assumption, simp add: encode_token_amount_def)

record token_in_out =
  tio_UserAccount :: string
  tio_TokenAccount :: string
  tio_Mint :: string
  tio_TokenAmount :: raw_token_amount

definition decode_TokenInOutData :: "json \<Rightarrow> token_in_out \<Rightarrow> token_in_out option" where
  "decode_TokenInOutData = decode_object (\<lambda>key v out.
     if key = ''userAccount'' then map_option (\<lambda>x. out\<lparr>tio_UserAccount := x\<rparr>) (lex_string v)
     else if key = ''tokenAccount'' then map_option (\<lambda>x. out\<lparr>tio_TokenAccount := x\<rparr>) (lex_string v)
     else if key = ''mint'' then map_option (\<lambda>x. out\<lparr>tio_Mint := x\<rparr>) (lex_string v)
     else if key = ''TokenAmount'' then
       map_option (\<lambda>x. out\<lparr>tio_TokenAmount := x\<rparr>) (decode_token_amount v (tio_TokenAmount out))
     else Some out)"

definition encode_TokenInOutData :: "token_in_out \<Rightarrow> json" where
  "encode_TokenInOutData v = JObj [(''userAccount'', JStr (tio_UserAccount v)), (''tokenAccount'', JStr (tio_TokenAccount v)),
     (''mint'', JStr (tio_Mint v)), (''TokenAmount'', encode_token_amount (tio_TokenAmount v))]"

definition zero_TokenInOutData :: token_in_out where
  "zero_TokenInOutData = \<lparr>tio_UserAccount = [], tio_TokenAccount = [], tio_Mint = [],
     tio_TokenAmount = zero_token_amount\<rparr>"

definition TokenInOutData_fits :: "token_in_out \<Rightarrow> bool" where
  "TokenInOutData_fits v \<longleftrightarrow> token_amount_fits (tio_TokenAmount v)"

lemma TokenInOutData_round_trip: "TokenInOutData_fits v \<Longrightarrow> decode_TokenInOutData (encode_TokenInOutData v) zero_TokenInOutData = Some v"
   by (simp add: TokenInOutData_fits_def decode_TokenInOutData_def encode_TokenInOutData_def zero_TokenInOutData_def
      decode_object_JObj raw_token_amount_json.round_trip)

interpretation token_in_out_json: json_codec encode_TokenInOutData decode_TokenInOutData zero_TokenInOutData TokenInOutData_fits
  by unfold_locales (rule TokenInOutData_round_trip, assumption, simp add: encode_TokenInOutData_def)

record program_info =
  pri_Source :: string
  pri_Account :: string
  pri_ProgramName :: string

definition decode_ProgramInfo :: "json \<Rightarrow> program_info \<Rightarrow> program_info option" where
  "decode_ProgramInfo = decode_object (\<lambda>key v out.
     if key = ''source'' then map_option (\<lambda>x. out\<lparr>pri_Source := x\<rparr>) (lex_string v)
     else if key = ''account'' then map_option (\<lambda>x. out\<lparr>pri_Account := x\<rparr>) (lex_string v)
     else if key = ''programName'' then map_option (\<lambda>x. out\<lparr>pri_ProgramName := x\<rparr>) (lex_string v)
     else Some out)"

definition encode_ProgramInfo :: "program_info \<Rightarrow> json" where
  "encode_ProgramInfo v = JObj [(''source'', JStr (pri_Source v)), (''account'', JStr (pri_Account v)),
     (''programName'', JStr (pri_ProgramName v))]"

definition zero_ProgramInfo :: program_info where
  "zero_ProgramInfo = \<lparr>pri_Source = [], pri_Account = [], pri_ProgramName = []\<rparr>"

lemma ProgramInfo_round_trip: "decode_ProgramInfo (encode_ProgramInfo v) zero_ProgramInfo = Some v"
  by (simp add: decode_ProgramInfo_def encode_ProgramInfo_def zero_ProgramInfo_def decode_object_JObj)

interpretation program_info_json: json_codec encode_ProgramInfo decode_ProgramInfo zero_ProgramInfo "\<lambda>_. True"
  by unfold_locales (rule ProgramInfo_round_trip, simp add: encode_ProgramInfo_def)

record inner_swap =
  is_TokenInputs :: "token_in_out list"
  is_TokenOutputs :: "token_in_out list"
  is_ProgramInfo :: program_info

definition decode_InnerSwap :: "json \<Rightarrow> inner_swap \<Rightarrow> inner_swap option" where
  "decode_InnerSwap = decode_object (\<lambda>key v out.
     if key = ''tokenInputs'' then
       map_option (\<lambda>x. out\<lparr>is_TokenInputs := x\<rparr>) (decode_slice (\<lambda>j. decode_TokenInOutData j zero_TokenInOutData) v)
     else if key = ''tokenOutputs'' then
       map_option (\<lambda>x. out\<lparr>is_TokenOutputs := x\<rparr>) (decode_slice (\<lambda>j. decode_TokenInOutData j zero_TokenInOutData) v)
     else if key = ''ProgramInfo'' then
       map_option (\<lambda>x. out\<lparr>is_ProgramInfo := x\<rparr>) (decode_ProgramInfo v (is_ProgramInfo out))
     else Some out)"

definition encode_InnerSwap :: "inner_swap \<Rightarrow> json" where
  "encode_InnerSwap v = JObj [(''tokenInputs'', encode_slice encode_TokenInOutData (is_TokenInputs v)),
     (''tokenOutputs'', encode_slice encode_TokenInOutData (is_TokenOutputs v)),
     (''ProgramInfo'', encode_ProgramInfo (is_ProgramInfo v))]"

definition zero_InnerSwap :: inner_swap where
  "zero_InnerSwap = \<lparr>is_TokenInputs = [], is_TokenOutputs = [], is_ProgramInfo = zero_ProgramInfo\<rparr>"

definition InnerSwap_fits :: "inner_swap \<Rightarrow> bool" where
  "InnerSwap_fits v \<longleftrightarrow> list_all TokenInOutData_fits (is_TokenInputs v) \<and>
     list_all TokenInOutData_fits (is_TokenOutputs v)"

lemma InnerSwap_round_trip: "InnerSwap_fits v \<Longrightarrow> decode_InnerSwap (encode_InnerSwap v) zero_InnerSwap = Some v"
   by (simp add: InnerSwap_fits_def decode_InnerSwap_def encode_InnerSwap_def zero_InnerSwap_def decode_object_JObj
      program_info_json.round_trip token_in_out_json.round_trip)

interpretation inner_swap_json: json_codec encode_InnerSwap decode_InnerSwap zero_InnerSwap InnerSwap_fits
  by unfold_locales (rule InnerSwap_round_trip, assumption, simp add: encode_InnerSwap_def)

record sol_swap_data =
  ssd_NativeInput :: native_in_out
  ssd_NativeOutput :: native_in_out
  ssd_TokenInputs :: "token_in_out list"
  ssd_TokenOutputs :: "token_in_out list"
  ssd_InnerSwaps :: "inner_swap list"

definition decode_SolSwapData :: "json \<Rightarrow> sol_swap_data \<Rightarrow> sol_swap_data option" where
  "decode_SolSwapData = decode_object (\<lambda>key v out.
     if key = ''nativeInput'' then
       map_option (\<lambda>x. out\<lparr>ssd_NativeInput := x\<rparr>) (decode_NativeInOutData v (ssd_NativeInput out))
     else if key = ''nativeOutput'' then
       map_option (\<lambda>x. out\<lparr>ssd_NativeOutput := x\<rparr>) (decode_NativeInOutData v (ssd_NativeOutput out))
     else if key = ''tokenInputs'' then
       map_option (\<lambda>x. out\<lparr>ssd_TokenInputs := x\<rparr>) (decode_slice (\<lambda>j. decode_TokenInOutData j zero_TokenInOutData) v)
     else if key = ''tokenOutputs'' then
       map_option (\<lambda>x. out\<lparr>ssd_TokenOutputs := x\<rparr>) (decode_slice (\<lambda>j. decode_TokenInOutData j zero_TokenInOutData) v)
     else if key = ''innerSwaps'' then
       map_option (\<lambda>x. out\<lparr>ssd_InnerSwaps := x\<rparr>) (decode_slice (\<lambda>j. decode_InnerSwap j zero_InnerSwap) v)
     else Some out)"

definition encode_SolSwapData :: "sol_swap_data \<Rightarrow> json" where
  "encode_SolSwapData v = JObj [(''nativeInput'', encode_NativeInOutData (ssd_NativeInput v)),
     (''nativeOutput'', encode_NativeInOutData (ssd_NativeOutput v)),
     (''tokenInputs'', encode_slice encode_TokenInOutData (ssd_TokenInputs v)),
     (''tokenOutputs'', encode_slice encode_TokenInOutData (ssd_TokenOutputs v)),
     (''innerSwaps'', encode_slice encode_InnerSwap (ssd_InnerSwaps v))]"

definition zero_SolSwapData :: sol_swap_data where
  "zero_SolSwapData = \<lparr>ssd_NativeInput = zero_NativeInOutData, ssd_NativeOutput = zero_NativeInOutData,
     ssd_TokenInputs = [], ssd_TokenOutputs = [], ssd_InnerSwaps = []\<rparr>"

definition SolSwapData_fits :: "sol_swap_data \<Rightarrow> bool" where
  "SolSwapData_fits v \<longleftrightarrow> list_all TokenInOutData_fits (ssd_TokenInputs v) \<and>
     list_all TokenInOutData_fits (ssd_TokenOutputs v) \<and> list_all InnerSwap_fits (ssd_InnerSwaps v)"

lemma SolSwapData_round_trip: "SolSwapData_fits v \<Longrightarrow> decode_SolSwapData (encode_SolSwapData v) zero_SolSwapData = Some v"
   by (simp add: SolSwapData_fits_def decode_SolSwapData_def encode_SolSwapData_def zero_SolSwapData_def decode_object_JObj
      inner_swap_json.round_trip native_in_out_json.round_trip token_in_out_json.round_trip)

interpretation sol_swap_data_json: json_codec encode_SolSwapData decode_SolSwapData zero_SolSwapData SolSwapData_fits
  by unfold_locales (rule SolSwapData_round_trip, assumption, simp add: encode_SolSwapData_def)

section \<open>Logs of the pools\<close>

record swap_base_out_log =
  bo_LogType :: "8 word"
  bo_MaxIn :: "64 word"
  bo_AmountOut :: "64 word"
  bo_Direction :: "64 word"
  bo_UserSource :: "64 word"
  bo_PoolCoin :: "64 word"
  bo_PoolPC :: "64 word"
  bo_DeductIn :: "64 word"

definition decode_SwapBaseOutLog :: "json \<Rightarrow> swap_base_out_log \<Rightarrow> swap_base_out_log option" where
  "decode_SwapBaseOutLog = decode_object (\<lambda>key v out.
     if key = ''LogType'' then map_option (\<lambda>x. out\<lparr>bo_LogType := x\<rparr>) (lex_uint8 v)
     else if key = ''MaxIn'' then map_option (\<lambda>x. out\<lparr>bo_MaxIn := x\<rparr>) (lex_uint v)
     else if key = ''AmountOut'' then map_option (\<lambda>x. out\<lparr>bo_AmountOut := x\<rparr>) (lex_uint v)
     else if key = ''Direction'' then map_option (\<lambda>x. out\<lparr>bo_Direction := x\<rparr>) (lex_uint v)
     else if key = ''UserSource'' then map_option (\<lambda>x. out\<lparr>bo_UserSource := x\<rparr>) (lex_uint v)
     else if key = ''PoolCoin'' then map_option (\<lambda>x. out\<lparr>bo_PoolCoin := x\<rparr>) (lex_uint v)
     else if key = ''PoolPC'' then map_option (\<lambda>x. out\<lparr>bo_PoolPC := x\<rparr>) (lex_uint v)
     else if key = ''DeductIn'' then map_option (\<lambda>x. out\<lparr>bo_DeductIn := x\<rparr>) (lex_uint v)
     else Some out)"

definition encode_SwapBaseOutLog :: "swap_base_out_log \<Rightarrow> json" where
  "encode_SwapBaseOutLog v = JObj [(''LogType'', JNum (int_text (uint (bo_LogType v)))),
     (''MaxIn'', JNum (int_text (uint (bo_MaxIn v)))), (''AmountOut'', JNum (int_text (uint (bo_AmountOut v)))),
     (''Direction'', JNum (int_text (uint (bo_Direction v)))), (''UserSource'', JNum (int_text (uint (bo_UserSource v)))),
     (''PoolCoin'', JNum (int_text (uint (bo_PoolCoin v)))), (''PoolPC'', JNum (int_text (uint (bo_PoolPC v)))),
     (''DeductIn'', JNum (int_text (uint (bo_DeductIn v))))]"

definition zero_SwapBaseOutLog :: swap_base_out_log where
  "zero_SwapBaseOutLog = \<lparr>bo_LogType = 0, bo_MaxIn = 0, bo_AmountOut = 0, bo_Direction = 0, bo_UserSource = 0,
     bo_PoolCoin = 0, bo_PoolPC = 0, bo_DeductIn = 0\<rparr>"

lemma SwapBaseOutLog_round_trip: "decode_SwapBaseOutLog (encode_SwapBaseOutLog v) zero_SwapBaseOutLog = Some v"
  by (simp add: decode_SwapBaseOutLog_def encode_SwapBaseOutLog_def zero_SwapBaseOutLog_def decode_object_JObj)

interpretation swap_base_out_log_json: json_codec encode_SwapBaseOutLog decode_SwapBaseOutLog zero_SwapBaseOutLog "\<lambda>_. True"
  by unfold_locales (rule SwapBaseOutLog_round_trip, simp add: encode_SwapBaseOutLog_def)

record swap_base_in_log =
  bi_LogType :: "8 word"
  bi_AmountIn :: "64 word"
  bi_MinimumOut :: "64 word"
  bi_Direction :: "64 word"
  bi_UserSource :: "64 word"
  bi_PoolCoin :: "64 word"
  bi_PoolPC :: "64 word"
  bi_OutAmount :: "64 word"

definition decode_SwapBaseInLog :: "json \<Rightarrow> swap_base_in_log \<Rightarrow> swap_base_in_log option" where
  "decode_SwapBaseInLog = decode_object (\<lambda>key v out.
     if key = ''LogType'' then map_option (\<lambda>x. out\<lparr>bi_LogType := x\<rparr>) (lex_uint8 v)
     else if key = ''AmountIn'' then map_option (\<lambda>x. out\<lparr>bi_AmountIn := x\<rparr>) (lex_uint v)
     else if key = ''MinimumOut'' then map_option (\<lambda>x. out\<lparr>bi_MinimumOut := x\<rparr>) (lex_uint v)
     else if key = ''Direction'' then map_option (\<lambda>x. out\<lparr>bi_Direction := x\<rparr>) (lex_uint v)
     else if key = ''UserSource'' then map_option (\<lambda>x. out\<lparr>bi_UserSource := x\<rparr>) (lex_uint v)
     else if key = ''PoolCoin'' then map_option (\<lambda>x. out\<lparr>bi_PoolCoin := x\<rparr>) (lex_uint v)
     else if key = ''PoolPC'' then map_option (\<lambda>x. out\<lparr>bi_PoolPC := x\<rparr>) (lex_uint v)
     else if key = ''OutAmount'' then map_option (\<lambda>x. out\<lparr>bi_OutAmount := x\<rparr>) (lex_uint v)
     else Some out)"

definition encode_SwapBaseInLog :: "swap_base_in_log \<Rightarrow> json" where
  "encode_SwapBaseInLog v = JObj [(''LogType'', JNum (int_text (uint (bi_LogType v)))),
     (''AmountIn'', JNum (int_text (uint (bi_AmountIn v)))), (''MinimumOut'', JNum (int_text (uint (bi_MinimumOut v)))),
     (''Direction'', JNum (int_text (uint (bi_Direction v)))), (''UserSource'', JNum (int_text (uint (bi_UserSource v)))),
     (''PoolCoin'', JNum (int_text (uint (bi_PoolCoin v)))), (''PoolPC'', JNum (int_text (uint (bi_PoolPC v)))),
     (''OutAmount'', JNum (int_text (uint (bi_OutAmount v))))]"

definition zero_SwapBaseInLog :: swap_base_in_log where
  "zero_SwapBaseInLog = \<lparr>bi_LogType = 0, bi_AmountIn = 0, bi_MinimumOut = 0, bi_Direction = 0, bi_UserSource = 0,
     bi_PoolCoin = 0, bi_PoolPC = 0, bi_OutAmount = 0\<rparr>"

lemma SwapBaseInLog_round_trip: "decode_SwapBaseInLog (encode_SwapBaseInLog v) zero_SwapBaseInLog = Some v"
  by (simp add: decode_SwapBaseInLog_def encode_SwapBaseInLog_def zero_SwapBaseInLog_def decode_object_JObj)

interpretation swap_base_in_log_json: json_codec encode_SwapBaseInLog decode_SwapBaseInLog zero_SwapBaseInLog "\<lambda>_. True"
  by unfold_locales (rule SwapBaseInLog_round_trip, simp add: encode_SwapBaseInLog_def)

record ray_swap_log =
  rs_LogType :: "8 word"
  rs_AmountIn :: "64 word"
  rs_MinimumOut :: "64 word"
  rs_Direction :: "64 word"
  rs_UserSource :: "64 word"
  rs_PoolCoin :: "64 word"
  rs_PoolPC :: "64 word"
  rs_OutAmount :: "64 word"
  rs_MaxIn :: "64 word"
  rs_AmountOut :: "64 word"
  rs_DeductIn :: "64 word"

definition decode_RaySwapLog :: "json \<Rightarrow> ray_swap_log \<Rightarrow> ray_swap_log option" where
  "decode_RaySwapLog = decode_object (\<lambda>key v out.
     if key = ''LogType'' then map_option (\<lambda>x. out\<lparr>rs_LogType := x\<rparr>) (lex_uint8 v)
     else if key = ''AmountIn'' then map_option (\<lambda>x. out\<lparr>rs_AmountIn := x\<rparr>) (lex_uint v)
     else if key = ''MinimumOut'' then map_option (\<lambda>x. out\<lparr>rs_MinimumOut := x\<rparr>) (lex_uint v)
     else if key = ''Direction'' then map_option (\<lambda>x. out\<lparr>rs_Direction := x\<rparr>) (lex_uint v)
     else if key = ''UserSource'' then map_option (\<lambda>x. out\<lparr>rs_UserSource := x\<rparr>) (lex_uint v)
     else if key = ''PoolCoin'' then map_option (\<lambda>x. out\<lparr>rs_PoolCoin := x\<rparr>) (lex_uint v)
     else if key = ''PoolPC'' then map_option (\<lambda>x. out\<lparr>rs_PoolPC := x\<rparr>) (lex_uint v)
     else if key = ''OutAmount'' then map_option (\<lambda>x. out\<lparr>rs_OutAmount := x\<rparr>) (lex_uint v)
     else if key = ''MaxIn'' then map_option (\<lambda>x. out\<lparr>rs_MaxIn := x\<rparr>) (lex_uint v)
     else if key = ''AmountOut'' then map_option (\<lambda>x. out\<lparr>rs_AmountOut := x\<rparr>) (lex_uint v)
     else if key = ''DeductIn'' then map_option (\<lambda>x. out\<lparr>rs_DeductIn := x\<rparr>) (lex_uint v)
     else Some out)"

definition encode_RaySwapLog :: "ray_swap_log \<Rightarrow> json" where
  "encode_RaySwapLog v = JObj [(''LogType'', JNum (int_text (uint (rs_LogType v)))),
     (''AmountIn'', JNum (int_text (uint (rs_AmountIn v)))), (''MinimumOut'', JNum (int_text (uint (rs_MinimumOut v)))),
     (''Direction'', JNum (int_text (uint (rs_Direction v)))), (''UserSource'', JNum (int_text (uint (rs_UserSource v)))),
     (''PoolCoin'', JNum (int_text (uint (rs_PoolCoin v)))), (''PoolPC'', JNum (int_text (uint (rs_PoolPC v)))),
     (''OutAmount'', JNum (int_text (uint (rs_OutAmount v)))), (''MaxIn'', JNum (int_text (uint (rs_MaxIn v)))),
     (''AmountOut'', JNum (int_text (uint (rs_AmountOut v)))), (''DeductIn'', JNum (int_text (uint (rs_DeductIn v))))]"

definition zero_RaySwapLog :: ray_swap_log where
  "zero_RaySwapLog = \<lparr>rs_LogType = 0, rs_AmountIn = 0, rs_MinimumOut = 0, rs_Direction = 0, rs_UserSource = 0,
     rs_PoolCoin = 0, rs_PoolPC = 0, rs_OutAmount = 0, rs_MaxIn = 0, rs_AmountOut = 0, rs_DeductIn = 0\<rparr>"

lemma RaySwapLog_round_trip: "decode_RaySwapLog (encode_RaySwapLog v) zero_RaySwapLog = Some v"
  by (simp add: decode_RaySwapLog_def encode_RaySwapLog_def zero_RaySwapLog_def decode_object_JObj)

interpretation ray_swap_log_json: json_codec encode_RaySwapLog decode_RaySwapLog zero_RaySwapLog "\<lambda>_. True"
  by unfold_locales (rule RaySwapLog_round_trip, simp add: encode_RaySwapLog_def)

record pool_init =
  pin_Nonce :: int
  pin_OpenTime :: int
  pin_InitPcAmount :: int
  pin_InitCoinAmount :: int

definition decode_PoolInit :: "json \<Rightarrow> pool_init \<Rightarrow> pool_init option" where
  "decode_PoolInit = decode_object (\<lambda>key v out.
     if key = ''nonce'' then map_option (\<lambda>x. out\<lparr>pin_Nonce := x\<rparr>) (lex_int v)
     else if key = ''open_time'' then map_option (\<lambda>x. out\<lparr>pin_OpenTime := x\<rparr>) (lex_int v)
     else if key = ''init_pc_amount'' then map_option (\<lambda>x. out\<lparr>pin_InitPcAmount := x\<rparr>) (lex_int v)
     else if key = ''init_coin_amount'' then map_option (\<lambda>x. out\<lparr>pin_InitCoinAmount := x\<rparr>) (lex_int v)
     else Some out)"

definition encode_PoolInit :: "pool_init \<Rightarrow> json" where
  "encode_PoolInit v = JObj [(''nonce'', JNum (int_text (pin_Nonce v))), (''open_time'', JNum (int_text (pin_OpenTime v))),
     (''init_pc_amount'', JNum (int_text (pin_InitPcAmount v))), (''init_coin_amount'', JNum (int_text (pin_InitCoinAmount v)))]"

definition zero_PoolInit :: pool_init where
  "zero_PoolInit = \<lparr>pin_Nonce = 0, pin_OpenTime = 0, pin_InitPcAmount = 0, pin_InitCoinAmount = 0\<rparr>"

definition PoolInit_fits :: "pool_init \<Rightarrow> bool" where
  "PoolInit_fits v \<longleftrightarrow> int_ok (pin_Nonce v) \<and> int_ok (pin_OpenTime v) \<and>
     int_ok (pin_InitPcAmount v) \<and> int_ok (pin_InitCoinAmount v)"

lemma PoolInit_round_trip: "PoolInit_fits v \<Longrightarrow> decode_PoolInit (encode_PoolInit v) zero_PoolInit = Some v"
  by (simp add: PoolInit_fits_def decode_PoolInit_def encode_PoolInit_def zero_PoolInit_def decode_object_JObj)

interpretation pool_init_json: json_codec encode_PoolInit decode_PoolInit zero_PoolInit PoolInit_fits
  by unfold_locales (rule PoolInit_round_trip, assumption, simp add: encode_PoolInit_def)
end
