(* ===== verification/GoTime.thy ===== *)
theory GoTime
  imports Json
begin

text \<open>
  The text of a time.Time: MarshalJSON writes RFC 3339 with nanoseconds in the location of the time, and
  UnmarshalJSON reads it. A time is its Unix time in nanoseconds (\<open>gotime\<close>); the offset of the
  process's location, in minutes east of UTC, is an argument. The lemmas show that the calendar is the
  Gregorian one and that reading inverts writing.
\<close>

section \<open>The calendar\<close>

text \<open>Days are counted from 1970-01-01, years begin in March for the computation.\<close>

definition year_of_day :: "int \<Rightarrow> int \<times> int" where
  "year_of_day n = (let z = n + 719468; era = z div 146097; doe = z mod 146097;
     c = min 3 (doe div 36524); doc = doe - c * 36524; q = doc div 1461; doq = doc - q * 1461; y = min 3 (doq div 365)
     in (400 * era + 100 * c + 4 * q + y, doq - 365 * y))"

definition civil_of_day :: "int \<Rightarrow> int \<times> int \<times> int" where
  "civil_of_day n = (case year_of_day n of (y, doy) \<Rightarrow>
     let mp = (5 * doy + 2) div 153; d = doy - (153 * mp + 2) div 5 + 1; m = (if mp < 10 then mp + 3 else mp - 9)
     in (y + (if m \<le> 2 then 1 else 0), m, d))"

definition day_of_civil :: "int \<times> int \<times> int \<Rightarrow> int" where
  "day_of_civil = (\<lambda>(y, m, d). let y' = (if m \<le> 2 then y - 1 else y); era = y' div 400; yoe = y' mod 400;
     mp = (if m > 2 then m - 3 else m + 9); doy = (153 * mp + 2) div 5 + d - 1
     in era * 146097 + (yoe * 365 + yoe div 4 - yoe div 100 + doy) - 719468)"

definition leap_year :: "int \<Rightarrow> bool" where
  "leap_year y \<longleftrightarrow> 4 dvd y \<and> (\<not> 100 dvd y \<or> 400 dvd y)"

definition days_in :: "int \<Rightarrow> int \<Rightarrow> int" where
  "days_in y m = (if m = 2 then if leap_year y then 29 else 28 else if m \<in> {4, 6, 9, 11} then 30 else 31)"

definition valid_date :: "int \<times> int \<times> int \<Rightarrow> bool" where
  "valid_date = (\<lambda>(y, m, d). 1 \<le> m \<and> m \<le> 12 \<and> 1 \<le> d \<and> d \<le> days_in y m)"

definition next_date :: "int \<times> int \<times> int \<Rightarrow> int \<times> int \<times> int" where
  "next_date = (\<lambda>(y, m, d). if d < days_in y m then (y, m, d + 1) else if m < 12 then (y, m + 1, 1) else (y + 1, 1, 1))"

lemma day_of_epoch: "day_of_civil (1970, 1, 1) = 0"
  by (simp add: day_of_civil_def)

lemma month_cases: "1 \<le> m \<Longrightarrow> m \<le> 12 \<Longrightarrow> m \<in> {1, 2, 3, 4, 5, 6, 7, 8, 9, 10, 11, 12 :: int}"
  unfolding insert_iff empty_iff by arith

text \<open>The length of the computed year that ends in February of \<open>y\<close>.\<close>

definition years_days :: "int \<Rightarrow> int" where
  "years_days y = y div 400 * 146097 + (y mod 400 * 365 + y mod 400 div 4 - y mod 400 div 100)"

lemma div_step:
  fixes r b :: int
  assumes "0 < b"
  shows "r div b = (r - 1) div b + (if b dvd r then 1 else 0)"
proof -
  define q where "q = (r - 1) div b"
  define t where "t = (r - 1) mod b"
  have t: "0 \<le> t" "t < b" using assms by (simp_all add: t_def)
  have r: "r = b * q + (t + 1)" using mult_div_mod_eq [of b "r - 1"] by (simp add: q_def t_def)
  show ?thesis
  proof (cases "t + 1 = b")
    case True
    then have "r = b * (q + 1)" using r by (simp add: distrib_left)
    then have "r div b = q + 1" "b dvd r" using assms by simp_all
    then show ?thesis unfolding q_def [symmetric] by simp
  next
    case False
    then have "r mod b = t + 1" "r div b = q" using t by (simp_all add: r)
    moreover from this have "\<not> b dvd r" using t by (simp add: dvd_eq_mod_eq_0)
    ultimately show ?thesis unfolding q_def [symmetric] by simp
  qed
qed

lemma years_days_at: "0 \<le> r \<Longrightarrow> r < 400 \<Longrightarrow> years_days (400 * e + r) = e * 146097 + (r * 365 + r div 4 - r div 100)"
  by (simp add: years_days_def)

lemma years_days_step: "years_days y = years_days (y - 1) + (if leap_year y then 366 else 365)"
proof -
  define e where "e = y div 400"
  define r where "r = y mod 400"
  have y: "y = 400 * e + r" "0 \<le> r" "r < 400" by (simp_all add: e_def r_def)
  have leap: "leap_year y \<longleftrightarrow> 4 dvd r \<and> (\<not> 100 dvd r \<or> r = 0)"
  proof -
    have "4 dvd 400 * e" "100 dvd 400 * e" "400 dvd 400 * e" by (simp_all add: dvd_mult2)
    then have "4 dvd y \<longleftrightarrow> 4 dvd r" "100 dvd y \<longleftrightarrow> 100 dvd r" "400 dvd y \<longleftrightarrow> 400 dvd r"
      unfolding y(1) by (simp_all only: dvd_add_right_iff)
    moreover have "400 dvd r \<longleftrightarrow> r = 0" using y(2,3) zdvd_not_zless [of r 400] by auto
    ultimately show ?thesis by (simp add: leap_year_def)
  qed
  have now: "years_days y = e * 146097 + (r * 365 + r div 4 - r div 100)" unfolding y(1) by (rule years_days_at [OF y(2,3)])
  show ?thesis
  proof (cases "r = 0")
    case True
    then have "y - 1 = 400 * (e - 1) + 399" using y(1) by simp
    then have "years_days (y - 1) = (e - 1) * 146097 + (399 * 365 + 399 div 4 - 399 div 100)" by (simp only: years_days_at)
    then show ?thesis using now leap True by simp
  next
    case False
    then have "y - 1 = 400 * e + (r - 1)" "0 \<le> r - 1" "r - 1 < 400" using y by simp_all
    then have before: "years_days (y - 1) = e * 146097 + ((r - 1) * 365 + (r - 1) div 4 - (r - 1) div 100)"
      by (simp only: years_days_at)
    have "100 dvd r \<Longrightarrow> 4 dvd r" by (rule dvd_trans [of 4 100]) simp_all
    then show ?thesis using now before leap False div_step [of 4 r] div_step [of 100 r] by auto
  qed
qed

lemma day_of_civil_years:
  "day_of_civil (y, m, d) = years_days (if m \<le> 2 then y - 1 else y) + (153 * (if m > 2 then m - 3 else m + 9) + 2) div 5 + d - 719469"
  by (simp add: day_of_civil_def years_days_def Let_def)

text \<open>The numbering follows the calendar: the next date has the next number.\<close>

lemma day_of_next_date:
  assumes "valid_date c"
  shows "valid_date (next_date c)" "day_of_civil (next_date c) = day_of_civil c + 1"
proof -
  obtain y m d where c: "c = (y, m, d)" by (cases c)
  have m: "m \<in> {1, 2, 3, 4, 5, 6, 7, 8, 9, 10, 11, 12}" using assms month_cases by (simp add: c valid_date_def)
  show "valid_date (next_date c)"
    using assms m by (auto simp: c valid_date_def next_date_def days_in_def)
  show "day_of_civil (next_date c) = day_of_civil c + 1"
    using assms m years_days_step [of y]
    by (auto simp: c valid_date_def next_date_def days_in_def day_of_civil_years)
qed

lemma year_of_day_props:
  assumes "year_of_day n = (y, doy)"
  shows "0 \<le> doy" "doy \<le> (if leap_year (y + 1) then 365 else 364)" "years_days y + doy = n + 719468"
proof -
  define z where "z = n + 719468"
  define era where "era = z div 146097"
  define doe where "doe = z mod 146097"
  define c where "c = min 3 (doe div 36524)"
  define doc where "doc = doe - c * 36524"
  define q where "q = doc div 1461"
  define doq where "doq = doc - q * 1461"
  define k where "k = min 3 (doq div 365)"
  have y: "y = 400 * era + 100 * c + 4 * q + k" and d: "doy = doq - 365 * k"
  proof -
    have "year_of_day n = (400 * era + 100 * c + 4 * q + k, doq - 365 * k)"
      unfolding year_of_day_def Let_def k_def doq_def q_def doc_def c_def doe_def era_def z_def ..
    then show "y = 400 * era + 100 * c + 4 * q + k" "doy = doq - 365 * k" using assms by (simp_all only: prod.inject)
  qed
  have doe: "0 \<le> doe" "doe < 146097" by (simp_all add: doe_def)
  have c: "0 \<le> c" "c \<le> 3" "0 \<le> doc" "c < 3 \<Longrightarrow> doc < 36524" "doc \<le> 36524"
  proof -
    have "0 \<le> doe div 36524" "doe div 36524 \<le> 4" "doe - doe div 36524 * 36524 = doe mod 36524"
      using doe by (simp_all add: minus_div_mult_eq_mod)
    moreover have "0 \<le> doe mod 36524" "doe mod 36524 < 36524" by simp_all
    ultimately show "0 \<le> c" "c \<le> 3" "0 \<le> doc" "c < 3 \<Longrightarrow> doc < 36524" "doc \<le> 36524"
      using doe by (auto simp: c_def doc_def min_def split: if_splits)
  qed
  have q: "0 \<le> q" "q \<le> 24" "0 \<le> doq" "doq < 1461" "q = 24 \<Longrightarrow> c < 3 \<Longrightarrow> doq < 1460"
  proof -
    have "doc - doc div 1461 * 1461 = doc mod 1461" by (simp add: minus_div_mult_eq_mod)
    moreover have "0 \<le> doc mod 1461" "doc mod 1461 < 1461" by simp_all
    moreover have "0 \<le> doc div 1461" "doc div 1461 \<le> 24" using c(3,5) by simp_all
    ultimately show "0 \<le> q" "q \<le> 24" "0 \<le> doq" "doq < 1461" "q = 24 \<Longrightarrow> c < 3 \<Longrightarrow> doq < 1460"
      using c(4) by (simp_all add: q_def doq_def)
  qed
  have k: "0 \<le> k" "k \<le> 3" "0 \<le> doq - 365 * k" "k < 3 \<Longrightarrow> doq - 365 * k < 365" "doq - 365 * k \<le> 365"
    "doq < 1460 \<Longrightarrow> doq - 365 * k < 365"
  proof -
    have "doq - 365 * (doq div 365) = doq mod 365" by (simp add: minus_mult_div_eq_mod)
    moreover have "0 \<le> doq mod 365" "doq mod 365 < 365" by simp_all
    moreover have "0 \<le> doq div 365" "doq div 365 \<le> 4" using q(3,4) by simp_all
    ultimately show "0 \<le> k" "k \<le> 3" "0 \<le> doq - 365 * k" "k < 3 \<Longrightarrow> doq - 365 * k < 365" "doq - 365 * k \<le> 365"
      "doq < 1460 \<Longrightarrow> doq - 365 * k < 365"
      using q(3,4) by (auto simp: k_def min_def split: if_splits)
  qed
  show "0 \<le> doy" using k(3) d by simp
  have yoe: "y div 400 = era" "y mod 400 = 100 * c + 4 * q + k" "y mod 400 div 4 = 25 * c + q" "y mod 400 div 100 = c"
  proof -
    have small: "0 \<le> 100 * c + 4 * q + k" "100 * c + 4 * q + k < 400" using c(1,2) q(1,2) k(1,2) by linarith+
    show "y div 400 = era" "y mod 400 = 100 * c + 4 * q + k" using small unfolding y by (simp_all add: add.assoc)
    then have r: "y mod 400 = 4 * (25 * c + q) + k" "y mod 400 = 100 * c + (4 * q + k)" by simp_all
    show "y mod 400 div 4 = 25 * c + q" unfolding r(1) using k(1,2) by simp
    show "y mod 400 div 100 = c" unfolding r(2) using k(1,2) q(1,2) by simp
  qed
  have z: "z = 146097 * era + doe" by (simp add: era_def doe_def)
  show "years_days y + doy = n + 719468"
    unfolding years_days_def yoe(3,4) unfolding yoe(1,2) using z d by (simp add: doq_def doc_def z_def)
  have "doy = 365 \<Longrightarrow> leap_year (y + 1)"
  proof -
    assume "doy = 365"
    then have "k = 3" "\<not> (q = 24 \<and> c < 3)" using k q d by fastforce+
    then have y1: "y + 1 = 400 * era + 100 * c + 4 * (q + 1)" using y by simp
    have "q = 24" if "100 dvd y + 1"
    proof -
      have "100 dvd 100 * (4 * era + c)" by simp
      then have "100 dvd 4 * (q + 1)" using that dvd_add_right_iff [of 100 "100 * (4 * era + c)" "4 * (q + 1)"] y1 by (simp add: algebra_simps)
      then have "4 * 25 dvd 4 * (q + 1)" by simp
      then have "25 dvd q + 1" by (subst (asm) dvd_mult_cancel_left) simp
      then have "25 \<le> q + 1" using q(1) by (intro zdvd_imp_le) simp_all
      then show ?thesis using q(2) by simp
    qed
    moreover have "4 dvd y + 1" unfolding y1 by (intro dvd_add dvd_mult2) simp_all
    moreover have "400 dvd y + 1" if "q = 24"
    proof -
      have "c = 3" using that \<open>\<not> (q = 24 \<and> c < 3)\<close> c(2) by simp
      then have "y + 1 = 400 * (era + 1)" using y1 that by simp
      then show ?thesis by simp
    qed
    ultimately show ?thesis by (auto simp: leap_year_def)
  qed
  then show "doy \<le> (if leap_year (y + 1) then 365 else 364)" using k(5) d by fastforce
qed

lemma civil_of_day_props: "valid_date (civil_of_day n)" "day_of_civil (civil_of_day n) = n"
proof -
  obtain y doy where e: "year_of_day n = (y, doy)" by (rule prod.exhaust)
  note p = year_of_day_props [OF e]
  define mp where "mp = (5 * doy + 2) div 153"
  have mp: "0 \<le> mp" "mp \<le> 11" using p(1,2) by (auto simp: mp_def split: if_splits)
  then have cases: "mp \<in> {0, 1, 2, 3, 4, 5, 6, 7, 8, 9, 10, 11}" unfolding insert_iff empty_iff by arith
  have r: "153 * mp \<le> 5 * doy + 2" "5 * doy + 2 < 153 * mp + 153"
    using mult_div_mod_eq [of 153 "5 * doy + 2"] pos_mod_bound [of 153 "5 * doy + 2"] pos_mod_sign [of 153 "5 * doy + 2"]
    unfolding mp_def [symmetric] by linarith+
  have c: "civil_of_day n = (y + (if mp < 10 then 0 else 1), if mp < 10 then mp + 3 else mp - 9, doy - (153 * mp + 2) div 5 + 1)"
    using mp unfolding civil_of_day_def e prod.case Let_def mp_def [symmetric] by auto
  show "valid_date (civil_of_day n)"
    using cases unfolding insert_iff empty_iff
    by (elim disjE; use r p(2) in \<open>simp add: c valid_date_def days_in_def split: if_splits\<close>)
  show "day_of_civil (civil_of_day n) = n"
    using mp p(3) by (auto simp: c day_of_civil_years)
qed

text \<open>So the date of a day is the one that counting from the epoch reaches.\<close>

lemma years_days_less: "a < b \<Longrightarrow> years_days a + (if leap_year (a + 1) then 366 else 365) \<le> years_days b"
proof (induction b rule: int_gr_induct)
  case base
  show ?case using years_days_step [of "a + 1"] by simp
next
  case (step b)
  then show ?case using years_days_step [of "b + 1"] by (simp split: if_splits)
qed

lemma day_of_civil_inj:
  assumes "valid_date a" "valid_date b" "day_of_civil a = day_of_civil b"
  shows "a = b"
proof -
  obtain y m d y' m' d' where ab: "a = (y, m, d)" "b = (y', m', d')" by (cases a, cases b)
  define k where "k = (if m \<le> 2 then y - 1 else y)"
  define k' where "k' = (if m' \<le> 2 then y' - 1 else y')"
  define n where "n = (153 * (if m > 2 then m - 3 else m + 9) + 2) div 5 + d - 1"
  define n' where "n' = (153 * (if m' > 2 then m' - 3 else m' + 9) + 2) div 5 + d' - 1"
  have m: "m \<in> {1, 2, 3, 4, 5, 6, 7, 8, 9, 10, 11, 12}" "m' \<in> {1, 2, 3, 4, 5, 6, 7, 8, 9, 10, 11, 12}"
    using assms(1,2) month_cases by (simp_all add: ab valid_date_def)
  have d: "1 \<le> d" "d \<le> days_in y m" "1 \<le> d'" "d' \<le> days_in y' m'" using assms(1,2) by (simp_all add: ab valid_date_def)
  have e: "years_days k + n = years_days k' + n'" using assms(3) by (simp add: ab day_of_civil_years k_def k'_def n_def n'_def)
  have n: "0 \<le> n" "n < (if leap_year (k + 1) then 366 else 365)" using d(1,2) m(1) by (auto simp: n_def k_def days_in_def)
  have n': "0 \<le> n'" "n' < (if leap_year (k' + 1) then 366 else 365)" using d(3,4) m(2) by (auto simp: n'_def k'_def days_in_def)
  have "k = k'" using e n n' years_days_less [of k k'] years_days_less [of k' k] by linarith
  moreover from this have "n = n'" using e by simp
  moreover have "m = m' \<and> d = d'"
  proof -
    let ?p = "if m > 2 then m - 3 else m + 9" and ?p' = "if m' > 2 then m' - 3 else m' + 9"
    have "153 * ?p \<le> 5 * n + 2" "5 * n + 2 < 153 * ?p + 153" using m(1) d(1,2) by (auto simp: n_def days_in_def split: if_splits)
    moreover have "153 * ?p' \<le> 5 * n' + 2" "5 * n' + 2 < 153 * ?p' + 153" using m(2) d(3,4) by (auto simp: n'_def days_in_def split: if_splits)
    ultimately have p: "?p = ?p'" unfolding \<open>n = n'\<close> by linarith
    have "d = d'" using \<open>n = n'\<close> unfolding n_def n'_def p by simp
    moreover have "m = m'" using p m by (auto split: if_splits)
    ultimately show ?thesis by blast
  qed
  ultimately show ?thesis by (auto simp: ab k_def k'_def split: if_splits)
qed

lemma civil_of_next_day: "civil_of_day (n + 1) = next_date (civil_of_day n)"
  by (rule day_of_civil_inj) (simp_all add: civil_of_day_props day_of_next_date)

section \<open>Writing\<close>

definition fraction_text :: "int \<Rightarrow> string" where
  "fraction_text ns = (case rev (dropWhile (\<lambda>d. d = CHR ''0'') (rev (frac_digits 9 ns))) of [] \<Rightarrow> [] | ds \<Rightarrow> CHR ''.'' # ds)"

definition zone_text :: "int \<Rightarrow> string" where
  "zone_text zone = (if zone = 0 then ''Z''
     else (if zone < 0 then CHR ''-'' else CHR ''+'') # frac_digits 2 (\<bar>zone\<bar> div 60) @ CHR '':'' # frac_digits 2 (\<bar>zone\<bar> mod 60))"

definition time_text :: "int \<Rightarrow> gotime \<Rightarrow> string" where
  "time_text zone t = (let s = t div 10 ^ 9 + zone * 60; sod = s mod 86400 in
     case civil_of_day (s div 86400) of (y, m, d) \<Rightarrow>
       frac_digits 4 y @ CHR ''-'' # frac_digits 2 m @ CHR ''-'' # frac_digits 2 d @ CHR ''T'' # frac_digits 2 (sod div 3600) @
       CHR '':'' # frac_digits 2 (sod mod 3600 div 60) @ CHR '':'' # frac_digits 2 (sod mod 60) @ fraction_text (t mod 10 ^ 9) @ zone_text zone)"

text \<open>The year the time has in its location; MarshalJSON reports an error when it has not four digits.\<close>

definition local_year :: "int \<Rightarrow> gotime \<Rightarrow> int" where
  "local_year zone t = fst (civil_of_day ((t div 10 ^ 9 + zone * 60) div 86400))"

definition Time_MarshalJSON :: "int \<Rightarrow> gotime \<Rightarrow> json option" where
  "Time_MarshalJSON zone t = (if 0 \<le> local_year zone t \<and> local_year zone t \<le> 9999 then Some (JStr (time_text zone t)) else None)"

section \<open>Reading\<close>

text \<open>The parts of a text that are fixed, with a number of \<open>n\<close> digits in a range.\<close>

definition take_number :: "nat \<Rightarrow> int \<Rightarrow> int \<Rightarrow> string \<Rightarrow> (int \<times> string) option" where
  "take_number n lo hi s = (let ds = take n s; x = parse_digits ds in
     if length ds = n \<and> list_all is_digit ds \<and> lo \<le> x \<and> x \<le> hi then Some (x, drop n s) else None)"

definition take_char :: "char \<Rightarrow> string \<Rightarrow> string option" where
  "take_char c s = (case s of [] \<Rightarrow> None | d # s' \<Rightarrow> if d = c then Some s' else None)"

text \<open>Digits after the ninth are dropped.\<close>

definition take_fraction :: "string \<Rightarrow> int \<times> string" where
  "take_fraction s = (case s of
     c # d # s' \<Rightarrow>
       if c = CHR ''.'' \<and> is_digit d then
         (let ds = takeWhile is_digit (d # s'); ns = take 9 ds in (parse_digits ns * 10 ^ (9 - length ns), drop (length ds) (d # s')))
       else (0, s)
   | _ \<Rightarrow> (0, s))"

definition take_zone :: "string \<Rightarrow> int option" where
  "take_zone s = (if s = ''Z'' then Some 0 else
     case s of [] \<Rightarrow> None
     | sign # s' \<Rightarrow>
         if sign \<noteq> CHR ''-'' \<and> sign \<noteq> CHR ''+'' then None
         else Option.bind (take_number 2 0 23 s') (\<lambda>(hr, s1). Option.bind (take_char (CHR '':'') s1) (\<lambda>s2.
           Option.bind (take_number 2 0 59 s2) (\<lambda>(mm, s3).
             if s3 \<noteq> [] then None else Some (if sign = CHR ''-'' then - (hr * 60 + mm) else hr * 60 + mm)))))"

definition parse_time :: "string \<Rightarrow> gotime option" where
  "parse_time s0 =
     Option.bind (take_number 4 0 9999 s0) (\<lambda>(y, s1). Option.bind (take_char (CHR ''-'') s1) (\<lambda>s2.
     Option.bind (take_number 2 1 12 s2) (\<lambda>(m, s3). Option.bind (take_char (CHR ''-'') s3) (\<lambda>s4.
     Option.bind (take_number 2 1 (days_in y m) s4) (\<lambda>(d, s5). Option.bind (take_char (CHR ''T'') s5) (\<lambda>s6.
     Option.bind (take_number 2 0 23 s6) (\<lambda>(hr, s7). Option.bind (take_char (CHR '':'') s7) (\<lambda>s8.
     Option.bind (take_number 2 0 59 s8) (\<lambda>(mi, s9). Option.bind (take_char (CHR '':'') s9) (\<lambda>s10.
     Option.bind (take_number 2 0 59 s10) (\<lambda>(se, s11).
       case take_fraction s11 of (ns, s12) \<Rightarrow>
         map_option (\<lambda>zone. (day_of_civil (y, m, d) * 86400 + hr * 3600 + mi * 60 + se - zone * 60) * 10 ^ 9 + ns) (take_zone s12))))))))))))"

text \<open>null leaves the time as it is.\<close>

definition Time_UnmarshalJSON :: "json \<Rightarrow> gotime \<Rightarrow> gotime option" where
  "Time_UnmarshalJSON j t = (case j of JNull \<Rightarrow> Some t | JStr s \<Rightarrow> parse_time s | _ \<Rightarrow> None)"

section \<open>Round trip\<close>

lemma take_number_digits:
  assumes "0 \<le> x" "x < 10 ^ n" "lo \<le> x" "x \<le> hi"
  shows "take_number n lo hi (frac_digits n x @ s) = Some (x, s)"
  using frac_digits_props [of x n] assms by (simp add: take_number_def list_all_iff)

lemma take_char_Cons [simp]: "take_char c (c # s) = Some s"
  by (simp add: take_char_def)

lemma frac_digits_zero: "frac_digits n 0 = replicate n (CHR ''0'')"
  by (induction n) (simp_all add: digit_def replicate_append_same)

lemma zone_text_head: "\<exists>c s. zone_text zone = c # s \<and> \<not> is_digit c \<and> c \<noteq> CHR ''.''"
  by (simp add: zone_text_def is_digit_def)

lemma take_fraction_text:
  assumes "0 \<le> ns" "ns < 10 ^ 9"
  shows "take_fraction (fraction_text ns @ zone_text zone) = (ns, zone_text zone)"
proof (cases "ns = 0")
  case True
  obtain c s where z: "zone_text zone = c # s" "c \<noteq> CHR ''.''" using zone_text_head by blast
  have "fraction_text ns = []" by (simp add: fraction_text_def True frac_digits_zero)
  then show ?thesis using z True by (cases s) (simp_all add: take_fraction_def)
next
  case False
  obtain c s where z: "zone_text zone = c # s" "\<not> is_digit c" using zone_text_head by blast
  have p: "parse_digits (frac_digits 9 ns) = ns" "\<forall>c \<in> set (frac_digits 9 ns). is_digit c" "length (frac_digits 9 ns) = 9"
    using frac_digits_props [of ns 9] assms by simp_all
  obtain d ds k where k: "rev (dropWhile (\<lambda>d. d = CHR ''0'') (rev (frac_digits 9 ns))) = d # ds" "9 = Suc (length ds) + k"
    "is_digit d" "\<forall>c \<in> set ds. is_digit c" "ns = parse_digits (d # ds) * 10 ^ k"
    using strip_zeros [OF p(2)] p(1,3) False by metis
  have t: "fraction_text ns = CHR ''.'' # d # ds" by (simp add: fraction_text_def k(1))
  have "takeWhile is_digit (d # ds @ c # s) = d # ds" using k(3,4) z(2) by (simp add: takeWhile_tail takeWhile_append2)
  moreover have "length ds \<le> 8" "8 - length ds = k" using k(2) by simp_all
  ultimately have "take_fraction (CHR ''.'' # d # ds @ c # s) = (parse_digits (d # ds) * 10 ^ k, c # s)"
    using k(3) by (simp add: take_fraction_def)
  then show ?thesis unfolding t z(1) k(5) [symmetric] by simp
qed

lemma take_zone_text:
  assumes "\<bar>zone\<bar> < 24 * 60"
  shows "take_zone (zone_text zone) = Some zone"
proof (cases "zone = 0")
  case False
  have "take_number 2 0 23 (frac_digits 2 (\<bar>zone\<bar> div 60) @ s) = Some (\<bar>zone\<bar> div 60, s)" for s
    using assms by (intro take_number_digits) simp_all
  moreover have "take_number 2 0 59 (frac_digits 2 (\<bar>zone\<bar> mod 60) @ s) = Some (\<bar>zone\<bar> mod 60, s)" for s
    by (intro take_number_digits) simp_all
  from this [of "[]"] have "take_number 2 0 59 (frac_digits 2 (\<bar>zone\<bar> mod 60)) = Some (\<bar>zone\<bar> mod 60, [])" by simp
  moreover have "\<bar>zone\<bar> div 60 * 60 + \<bar>zone\<bar> mod 60 = \<bar>zone\<bar>" by simp
  ultimately show ?thesis using False by (simp add: take_zone_def zone_text_def)
qed (simp add: take_zone_def zone_text_def)

lemma time_round_trip:
  assumes "0 \<le> local_year zone t" "local_year zone t \<le> 9999" "\<bar>zone\<bar> < 24 * 60"
  shows "parse_time (time_text zone t) = Some t"
proof -
  define s where "s = t div 10 ^ 9 + zone * 60"
  define sod where "sod = s mod 86400"
  obtain y m d where c: "civil_of_day (s div 86400) = (y, m, d)" by (cases "civil_of_day (s div 86400)")
  have "local_year zone t = y" unfolding local_year_def s_def [symmetric] c by simp
  then have y: "0 \<le> y" "y \<le> 9999" using assms(1,2) by simp_all
  have v: "1 \<le> m" "m \<le> 12" "1 \<le> d" "d \<le> days_in y m" "day_of_civil (y, m, d) = s div 86400"
    using civil_of_day_props [of "s div 86400"] by (simp_all add: c valid_date_def)
  have d: "d \<le> 31" using v(4) by (simp add: days_in_def split: if_splits)
  have sod: "0 \<le> sod" "sod < 86400" by (simp_all add: sod_def)
  have parts: "sod div 3600 * 3600 + sod mod 3600 div 60 * 60 + sod mod 60 = sod"
  proof -
    have "sod mod 3600 mod 60 = sod mod 60" by (rule mod_mod_cancel) simp
    then show ?thesis using div_mult_mod_eq [of sod 3600] div_mult_mod_eq [of "sod mod 3600" 60] by linarith
  qed
  have takes: "take_number 4 0 9999 (frac_digits 4 y @ r) = Some (y, r)" "take_number 2 1 12 (frac_digits 2 m @ r) = Some (m, r)"
    "take_number 2 1 (days_in y m) (frac_digits 2 d @ r) = Some (d, r)"
    "take_number 2 0 23 (frac_digits 2 (sod div 3600) @ r) = Some (sod div 3600, r)"
    "take_number 2 0 59 (frac_digits 2 (sod mod 3600 div 60) @ r) = Some (sod mod 3600 div 60, r)"
    "take_number 2 0 59 (frac_digits 2 (sod mod 60) @ r) = Some (sod mod 60, r)" for r
    using y v d sod by (auto intro!: take_number_digits)
  have written: "time_text zone t = frac_digits 4 y @ CHR ''-'' # frac_digits 2 m @ CHR ''-'' # frac_digits 2 d @ CHR ''T'' #
      frac_digits 2 (sod div 3600) @ CHR '':'' # frac_digits 2 (sod mod 3600 div 60) @ CHR '':'' # frac_digits 2 (sod mod 60) @
      fraction_text (t mod 10 ^ 9) @ zone_text zone"
    unfolding time_text_def Let_def s_def [symmetric] sod_def [symmetric] c prod.case ..
  have f: "take_fraction (fraction_text (t mod 10 ^ 9) @ zone_text zone) = (t mod 10 ^ 9, zone_text zone)"
    by (rule take_fraction_text) simp_all
  have "parse_time (time_text zone t) =
      Some ((s div 86400 * 86400 + sod div 3600 * 3600 + sod mod 3600 div 60 * 60 + sod mod 60 - zone * 60) * 10 ^ 9 + t mod 10 ^ 9)"
    unfolding parse_time_def written takes bind.bind_lunit prod.case take_char_Cons f take_zone_text [OF assms(3)] option.map v(5) ..
  moreover have "s div 86400 * 86400 + sod div 3600 * 3600 + sod mod 3600 div 60 * 60 + sod mod 60 - zone * 60 = t div 10 ^ 9"
  proof -
    have sum: "X + a + b + c - z = u - z" if "a + b + c = sod" "X + sod = u" for X a b c z u :: int using that by simp
    have "s div 86400 * 86400 + sod = s" unfolding sod_def by (rule div_mult_mod_eq)
    from sum [OF parts this] show ?thesis unfolding s_def by (simp only: add_diff_cancel_right')
  qed
  ultimately show ?thesis by (simp only: div_mult_mod_eq)
qed

text \<open>MarshalJSON and UnmarshalJSON.\<close>

lemma Time_json_round_trip:
  assumes "\<bar>zone\<bar> < 24 * 60" "Time_MarshalJSON zone t = Some j"
  shows "Time_UnmarshalJSON j t' = Some t" "j \<noteq> JNull"
  using assms time_round_trip [of zone t] by (auto simp: Time_MarshalJSON_def Time_UnmarshalJSON_def split: if_splits)

text \<open>The epoch in UTC and a time with a fraction two hours east of it.\<close>

lemma time_text_examples: "time_text 0 0 = ''1970-01-01T00:00:00Z''" "time_text 120 1736942400500000000 = ''2025-01-15T14:00:00.5+02:00''"
  by code_simp+

end
