(* ===== verification/CodecApi.thy ===== *)
theory CodecApi
  imports CodecSwaps GoTime Tracker "HOL-Library.AList"
begin

text \<open>
  The generated codecs of internal/types/main_easyjson.go: tokens, pairs and quote tokens (what the HTTP API
  answers with), the answer of the price service, token accounts, rows of the search and instruction
  data. The time of a token or pair has the offset of the process's location as an argument, and cannot be
  written when its year has not four digits.
\<close>

section \<open>Quote tokens and accounts\<close>

definition decode_QuoteTokenSimple :: "json \<Rightarrow> quote_token_simple \<Rightarrow> quote_token_simple option" where
  "decode_QuoteTokenSimple = decode_object (\<lambda>key v out.
     if key = ''identifier'' then map_option (\<lambda>x. out\<lparr>qs_Identifier := x\<rparr>) (lex_string v)
     else if key = ''address'' then map_option (\<lambda>x. out\<lparr>qs_Address := x\<rparr>) (lex_string v)
     else Some out)"

definition encode_QuoteTokenSimple :: "quote_token_simple \<Rightarrow> json" where
  "encode_QuoteTokenSimple v = JObj [(''identifier'', JStr (qs_Identifier v)), (''address'', JStr (qs_Address v))]"

definition zero_QuoteTokenSimple :: quote_token_simple where
  "zero_QuoteTokenSimple = \<lparr>qs_Identifier = [], qs_Address = []\<rparr>"

lemma QuoteTokenSimple_round_trip: "decode_QuoteTokenSimple (encode_QuoteTokenSimple v) zero_QuoteTokenSimple = Some v"
  by (simp add: decode_QuoteTokenSimple_def encode_QuoteTokenSimple_def zero_QuoteTokenSimple_def decode_object_JObj)

interpretation quote_token_simple_json: json_codec encode_QuoteTokenSimple decode_QuoteTokenSimple zero_QuoteTokenSimple "\<lambda>_. True"
  by unfold_locales (rule QuoteTokenSimple_round_trip, simp add: encode_QuoteTokenSimple_def)

definition decode_QuoteToken :: "json \<Rightarrow> quote_token \<Rightarrow> quote_token option" where
  "decode_QuoteToken = decode_object (\<lambda>key v out.
     if key = ''identifier'' then map_option (\<lambda>x. out\<lparr>qt_Identifier := x\<rparr>) (lex_string v)
     else if key = ''name'' then map_option (\<lambda>x. out\<lparr>qt_Name := x\<rparr>) (lex_string v)
     else if key = ''symbol'' then map_option (\<lambda>x. out\<lparr>qt_Symbol := x\<rparr>) (lex_string v)
     else if key = ''address'' then map_option (\<lambda>x. out\<lparr>qt_Address := x\<rparr>) (lex_string v)
     else if key = ''decimals'' then map_option (\<lambda>x. out\<lparr>qt_Decimals := x\<rparr>) (lex_uint8 v)
     else Some out)"

definition encode_QuoteToken :: "quote_token \<Rightarrow> json" where
  "encode_QuoteToken v = JObj [(''identifier'', JStr (qt_Identifier v)), (''name'', JStr (qt_Name v)),
     (''symbol'', JStr (qt_Symbol v)), (''address'', JStr (qt_Address v)),
     (''decimals'', JNum (int_text (uint (qt_Decimals v))))]"

definition zero_QuoteToken :: quote_token where
  "zero_QuoteToken = \<lparr>qt_Identifier = [], qt_Name = [], qt_Symbol = [], qt_Address = [], qt_Decimals = 0\<rparr>"

lemma QuoteToken_round_trip: "decode_QuoteToken (encode_QuoteToken v) zero_QuoteToken = Some v"
  by (simp add: decode_QuoteToken_def encode_QuoteToken_def zero_QuoteToken_def decode_object_JObj)

interpretation quote_token_json: json_codec encode_QuoteToken decode_QuoteToken zero_QuoteToken "\<lambda>_. True"
  by unfold_locales (rule QuoteToken_round_trip, simp add: encode_QuoteToken_def)

definition decode_TokenAccountDetails :: "json \<Rightarrow> token_account_details \<Rightarrow> token_account_details option" where
  "decode_TokenAccountDetails = decode_object (\<lambda>key v out.
     if key = ''UserAccount'' then map_option (\<lambda>x. out\<lparr>ad_UserAccount := x\<rparr>) (lex_string v)
     else if key = ''MintAddress'' then map_option (\<lambda>x. out\<lparr>ad_MintAddress := x\<rparr>) (lex_string v)
     else if key = ''Decimals'' then map_option (\<lambda>x. out\<lparr>ad_Decimals := x\<rparr>) (lex_int v)
     else Some out)"

definition encode_TokenAccountDetails :: "token_account_details \<Rightarrow> json" where
  "encode_TokenAccountDetails v = JObj [(''UserAccount'', JStr (ad_UserAccount v)), (''MintAddress'', JStr (ad_MintAddress v)),
     (''Decimals'', JNum (int_text (ad_Decimals v)))]"

definition zero_TokenAccountDetails :: token_account_details where
  "zero_TokenAccountDetails = \<lparr>ad_UserAccount = [], ad_MintAddress = [], ad_Decimals = 0\<rparr>"

definition TokenAccountDetails_fits :: "token_account_details \<Rightarrow> bool" where
  "TokenAccountDetails_fits v \<longleftrightarrow> int_ok (ad_Decimals v)"

lemma TokenAccountDetails_round_trip: "TokenAccountDetails_fits v \<Longrightarrow> decode_TokenAccountDetails (encode_TokenAccountDetails v) zero_TokenAccountDetails = Some v"
   by (simp add: TokenAccountDetails_fits_def decode_TokenAccountDetails_def encode_TokenAccountDetails_def
      zero_TokenAccountDetails_def decode_object_JObj)

interpretation token_account_details_json: json_codec encode_TokenAccountDetails decode_TokenAccountDetails zero_TokenAccountDetails TokenAccountDetails_fits
  by unfold_locales (rule TokenAccountDetails_round_trip, assumption, simp add: encode_TokenAccountDetails_def)

record balance_sheet =
  bsh_Wallet :: string
  bsh_Token :: string
  bsh_Amount :: gonum

definition decode_BalanceSheet :: "json \<Rightarrow> balance_sheet \<Rightarrow> balance_sheet option" where
  "decode_BalanceSheet = decode_object (\<lambda>key v out.
     if key = ''Wallet'' then map_option (\<lambda>x. out\<lparr>bsh_Wallet := x\<rparr>) (lex_string v)
     else if key = ''Token'' then map_option (\<lambda>x. out\<lparr>bsh_Token := x\<rparr>) (lex_string v)
     else if key = ''Amount'' then map_option (\<lambda>x. out\<lparr>bsh_Amount := x\<rparr>) (lex_float v)
     else Some out)"

definition encode_BalanceSheet :: "balance_sheet \<Rightarrow> json" where
  "encode_BalanceSheet v = JObj [(''Wallet'', JStr (bsh_Wallet v)), (''Token'', JStr (bsh_Token v)),
     (''Amount'', JNum (float_text (bsh_Amount v)))]"

definition zero_BalanceSheet :: balance_sheet where
  "zero_BalanceSheet = \<lparr>bsh_Wallet = [], bsh_Token = [], bsh_Amount = Fin 0\<rparr>"

definition BalanceSheet_fits :: "balance_sheet \<Rightarrow> bool" where
  "BalanceSheet_fits v \<longleftrightarrow> float_ok (bsh_Amount v)"

lemma BalanceSheet_round_trip: "BalanceSheet_fits v \<Longrightarrow> decode_BalanceSheet (encode_BalanceSheet v) zero_BalanceSheet = Some v"
   by (simp add: BalanceSheet_fits_def decode_BalanceSheet_def encode_BalanceSheet_def zero_BalanceSheet_def decode_object_JObj
      lex_float_text)

interpretation balance_sheet_json: json_codec encode_BalanceSheet decode_BalanceSheet zero_BalanceSheet BalanceSheet_fits
  by unfold_locales (rule BalanceSheet_round_trip, assumption, simp add: encode_BalanceSheet_def)

text \<open>A nullable column: the text and whether it is valid. omitempty has no effect on a struct.\<close>

record null_string =
  ns_String :: string
  ns_Valid :: bool

definition decode_NullString :: "json \<Rightarrow> null_string \<Rightarrow> null_string option" where
  "decode_NullString = decode_object (\<lambda>key v out.
     if key = ''String'' then map_option (\<lambda>x. out\<lparr>ns_String := x\<rparr>) (lex_string v)
     else if key = ''Valid'' then map_option (\<lambda>x. out\<lparr>ns_Valid := x\<rparr>) (lex_bool v)
     else Some out)"

definition encode_NullString :: "null_string \<Rightarrow> json" where
  "encode_NullString v = JObj [(''String'', JStr (ns_String v)), (''Valid'', JBool (ns_Valid v))]"

definition zero_NullString :: null_string where
  "zero_NullString = \<lparr>ns_String = [], ns_Valid = False\<rparr>"

lemma NullString_round_trip: "decode_NullString (encode_NullString v) zero_NullString = Some v"
  by (simp add: decode_NullString_def encode_NullString_def zero_NullString_def decode_object_JObj)

interpretation null_string_json: json_codec encode_NullString decode_NullString zero_NullString "\<lambda>_. True"
  by unfold_locales (rule NullString_round_trip, simp add: encode_NullString_def)

record query_row =
  qr_Source :: string
  qr_Wallet :: null_string
  qr_Token :: null_string
  qr_Name :: null_string
  qr_Symbol :: null_string
  qr_Pair :: null_string

definition decode_QueryAll :: "json \<Rightarrow> query_row \<Rightarrow> query_row option" where
  "decode_QueryAll = decode_object (\<lambda>key v out.
     if key = ''source'' then map_option (\<lambda>x. out\<lparr>qr_Source := x\<rparr>) (lex_string v)
     else if key = ''wallet'' then map_option (\<lambda>x. out\<lparr>qr_Wallet := x\<rparr>) (decode_NullString v (qr_Wallet out))
     else if key = ''token'' then map_option (\<lambda>x. out\<lparr>qr_Token := x\<rparr>) (decode_NullString v (qr_Token out))
     else if key = ''name'' then map_option (\<lambda>x. out\<lparr>qr_Name := x\<rparr>) (decode_NullString v (qr_Name out))
     else if key = ''symbol'' then map_option (\<lambda>x. out\<lparr>qr_Symbol := x\<rparr>) (decode_NullString v (qr_Symbol out))
     else if key = ''pair'' then map_option (\<lambda>x. out\<lparr>qr_Pair := x\<rparr>) (decode_NullString v (qr_Pair out))
     else Some out)"

definition encode_QueryAll :: "query_row \<Rightarrow> json" where
  "encode_QueryAll v = JObj [(''source'', JStr (qr_Source v)), (''wallet'', encode_NullString (qr_Wallet v)),
     (''token'', encode_NullString (qr_Token v)), (''name'', encode_NullString (qr_Name v)),
     (''symbol'', encode_NullString (qr_Symbol v)), (''pair'', encode_NullString (qr_Pair v))]"

definition zero_QueryAll :: query_row where
  "zero_QueryAll = \<lparr>qr_Source = [], qr_Wallet = zero_NullString, qr_Token = zero_NullString, qr_Name = zero_NullString,
     qr_Symbol = zero_NullString, qr_Pair = zero_NullString\<rparr>"

lemma QueryAll_round_trip: "decode_QueryAll (encode_QueryAll v) zero_QueryAll = Some v"
  by (simp add: decode_QueryAll_def encode_QueryAll_def zero_QueryAll_def decode_object_JObj null_string_json.round_trip)

interpretation query_row_json: json_codec encode_QueryAll decode_QueryAll zero_QueryAll "\<lambda>_. True"
  by unfold_locales (rule QueryAll_round_trip, simp add: encode_QueryAll_def)

section \<open>The answer of the price service\<close>

definition encode_tracker_data :: "tracker_data \<Rightarrow> json" where
  "encode_tracker_data v = JObj [(''amount'', JStr (td_Amount v)), (''base'', JStr (td_Base v)), (''currency'', JStr (td_Currency v))]"

definition encode_TrackerResponse :: "tracker_data \<Rightarrow> json" where
  "encode_TrackerResponse v = JObj [(''data'', encode_tracker_data v)]"

interpretation tracker_json: json_codec encode_TrackerResponse decode_TrackerResponse
    "\<lparr>td_Amount = [], td_Base = [], td_Currency = []\<rparr>" "\<lambda>_. True"
  by unfold_locales (simp_all add: encode_TrackerResponse_def decode_TrackerResponse_def encode_tracker_data_def decode_tracker_data_def
      decode_object_JObj)

text \<open>What the tracker makes of an answer that a service with this struct encodes.\<close>

lemma lookup_of_encoded:
  assumes "validSymbols symbol"
    and "get (''https://api.coinbase.com/v2/prices/'' @ map upper_char symbol @ ''-USD/buy'') = Body (encode_TrackerResponse r)"
  shows "lookupPrice get symbol = (if td_Base r = map upper_char symbol then parse_float (td_Amount r) else None)"
  using assms by (simp add: lookupPrice_def Let_def tracker_json.round_trip split: option.split)

section \<open>Tokens and pairs\<close>

definition encode_Token :: "int \<Rightarrow> token \<Rightarrow> json option" where
  "encode_Token zone v = map_option (\<lambda>created. JObj ([(''name'', JStr (to_Name v)), (''symbol'', JStr (to_Symbol v)),
     (''decimals'', JNum (int_text (uint (to_Decimals v)))), (''address'', JStr (to_Address v)), (''supply'', JStr (to_Supply v)),
     (''createdBlock'', JNum (int_text (to_CreatedBlock v))), (''network'', JStr (to_Network v)), (''createdTimestamp'', created)] @
     optional ''deployer'' JStr (to_Deployer v) @ optional ''metadata'' JStr (to_Metadata v)))
     (Time_MarshalJSON zone (to_CreatedTimestamp v))"

definition decode_Token :: "json \<Rightarrow> token \<Rightarrow> token option" where
  "decode_Token = decode_object (\<lambda>key v out.
     if key = ''name'' then map_option (\<lambda>x. out\<lparr>to_Name := x\<rparr>) (lex_string v)
     else if key = ''symbol'' then map_option (\<lambda>x. out\<lparr>to_Symbol := x\<rparr>) (lex_string v)
     else if key = ''decimals'' then map_option (\<lambda>x. out\<lparr>to_Decimals := x\<rparr>) (lex_uint8 v)
     else if key = ''address'' then map_option (\<lambda>x. out\<lparr>to_Address := x\<rparr>) (lex_string v)
     else if key = ''supply'' then map_option (\<lambda>x. out\<lparr>to_Supply := x\<rparr>) (lex_string v)
     else if key = ''createdBlock'' then map_option (\<lambda>x. out\<lparr>to_CreatedBlock := x\<rparr>) (lex_int v)
     else if key = ''network'' then map_option (\<lambda>x. out\<lparr>to_Network := x\<rparr>) (lex_string v)
     else if key = ''createdTimestamp'' then
       map_option (\<lambda>x. out\<lparr>to_CreatedTimestamp := x\<rparr>) (Time_UnmarshalJSON v (to_CreatedTimestamp out))
     else if key = ''deployer'' then map_option (\<lambda>x. out\<lparr>to_Deployer := Some x\<rparr>) (lex_string v)
     else if key = ''metadata'' then map_option (\<lambda>x. out\<lparr>to_Metadata := Some x\<rparr>) (lex_string v)
     else Some out)"

definition encode_Pair :: "int \<Rightarrow> pair \<Rightarrow> json option" where
  "encode_Pair zone v = map_option (\<lambda>created. JObj [(''address'', JStr (pa_Address v)), (''network'', JStr (pa_Network v)),
     (''exchange'', JStr (pa_Exchange v)), (''token'', JStr (pa_Token v)), (''quoteToken'', encode_QuoteTokenSimple (pa_QuoteToken v)),
     (''createdblock'', JNum (int_text (pa_CreatedBlock v))), (''createdtimestamp'', created)])
     (Time_MarshalJSON zone (pa_CreatedTimestamp v))"

definition decode_Pair :: "json \<Rightarrow> pair \<Rightarrow> pair option" where
  "decode_Pair = decode_object (\<lambda>key v out.
     if key = ''address'' then map_option (\<lambda>x. out\<lparr>pa_Address := x\<rparr>) (lex_string v)
     else if key = ''network'' then map_option (\<lambda>x. out\<lparr>pa_Network := x\<rparr>) (lex_string v)
     else if key = ''exchange'' then map_option (\<lambda>x. out\<lparr>pa_Exchange := x\<rparr>) (lex_string v)
     else if key = ''token'' then map_option (\<lambda>x. out\<lparr>pa_Token := x\<rparr>) (lex_string v)
     else if key = ''quoteToken'' then map_option (\<lambda>x. out\<lparr>pa_QuoteToken := x\<rparr>) (decode_QuoteTokenSimple v (pa_QuoteToken out))
     else if key = ''createdblock'' then map_option (\<lambda>x. out\<lparr>pa_CreatedBlock := x\<rparr>) (lex_int v)
     else if key = ''createdtimestamp'' then
       map_option (\<lambda>x. out\<lparr>pa_CreatedTimestamp := x\<rparr>) (Time_UnmarshalJSON v (pa_CreatedTimestamp out))
     else Some out)"

definition zero_Token :: token where
  "zero_Token = \<lparr>to_Name = [], to_Symbol = [], to_Decimals = 0, to_Address = [], to_Supply = [], to_CreatedBlock = 0, to_Network = [],
     to_CreatedTimestamp = zero_time, to_Deployer = None, to_Metadata = None\<rparr>"

definition zero_Pair :: pair where
  "zero_Pair = \<lparr>pa_Address = [], pa_Network = [], pa_Exchange = [], pa_Token = [], pa_QuoteToken = zero_QuoteTokenSimple,
     pa_CreatedBlock = 0, pa_CreatedTimestamp = zero_time\<rparr>"

lemma Token_decodes:
  assumes "\<bar>zone\<bar> < 24 * 60" "int_ok (to_CreatedBlock v)" "encode_Token zone v = Some j"
  shows "decode_Token j zero_Token = Some v"
proof -
  obtain created where c: "Time_MarshalJSON zone (to_CreatedTimestamp v) = Some created" using assms(3) by (auto simp: encode_Token_def)
  note t = Time_json_round_trip [OF assms(1) c]
  show ?thesis
    using assms(2,3) t by (cases "to_Deployer v"; cases "to_Metadata v")
      (auto simp: encode_Token_def c decode_Token_def zero_Token_def decode_object_JObj optional_def)
qed

lemma Pair_decodes:
  assumes "\<bar>zone\<bar> < 24 * 60" "int_ok (pa_CreatedBlock v)" "encode_Pair zone v = Some j"
  shows "decode_Pair j zero_Pair = Some v"
proof -
  obtain created where c: "Time_MarshalJSON zone (pa_CreatedTimestamp v) = Some created" using assms(3) by (auto simp: encode_Pair_def)
  note t = Time_json_round_trip [OF assms(1) c]
  show ?thesis
    using assms(2,3) t
    by (auto simp: encode_Pair_def c decode_Pair_def zero_Pair_def decode_object_JObj quote_token_simple_json.round_trip)
qed

lemma Token_encodes: "encode_Token zone v = None \<longleftrightarrow> \<not> (0 \<le> local_year zone (to_CreatedTimestamp v) \<and> local_year zone (to_CreatedTimestamp v) \<le> 9999)"
  by (simp add: encode_Token_def Time_MarshalJSON_def)

section \<open>Instruction data\<close>

text \<open>
  A map is decoded into a new one, a later member replacing an earlier one of the same key; it is
  written in the order the runtime iterates it, the order of the list.
\<close>

fun decode_members :: "(json \<Rightarrow> 'a option) \<Rightarrow> (string \<times> json) list \<Rightarrow> (string \<times> 'a) list \<Rightarrow> (string \<times> 'a) list option" where
  "decode_members d [] m = Some m"
| "decode_members d ((key, v) # ms) m = (case d v of None \<Rightarrow> None | Some x \<Rightarrow> decode_members d ms (AList.update key x m))"

definition decode_map :: "(json \<Rightarrow> 'a option) \<Rightarrow> json \<Rightarrow> (string \<times> 'a) list option" where
  "decode_map d j = (case j of JObj ms \<Rightarrow> decode_members d ms [] | _ \<Rightarrow> None)"

definition encode_map :: "('a \<Rightarrow> json) \<Rightarrow> (string \<times> 'a) list \<Rightarrow> json" where
  "encode_map e m = JObj (map (\<lambda>(key, x). (key, e x)) m)"

lemma update_new: "key \<notin> fst ` set m \<Longrightarrow> AList.update key x m = m @ [(key, x)]"
  by (induction m) auto

lemma map_round_trip:
  assumes "distinct (map fst m)" "\<And>x. x \<in> snd ` set m \<Longrightarrow> d (e x) = Some x"
  shows "decode_map d (encode_map e m) = Some m"
proof -
  have "decode_members d (map (\<lambda>(key, x). (key, e x)) m) acc = Some (acc @ m)"
    if "distinct (map fst (acc @ m))" "\<forall>x \<in> snd ` set m. d (e x) = Some x" for acc
    using that
  proof (induction m arbitrary: acc)
    case (Cons p m)
    obtain key x where p: "p = (key, x)" by (rule prod.exhaust)
    have "AList.update key x acc = acc @ [(key, x)]" using Cons.prems(1) by (intro update_new) (auto simp: p)
    then show ?case using Cons.IH [of "acc @ [(key, x)]"] Cons.prems by (simp add: p)
  qed simp
  from this [of "[]"] show ?thesis using assms by (simp add: decode_map_def encode_map_def)
qed

record process_instruction_data =
  id_AccountKeys :: "string list"
  id_InstructionAccounts :: "int list option"
  id_Accounts :: "int list option"
  id_Transfers :: "sol_transfer list"
  id_ProgramId :: "string option"
  id_InnerProgramId :: "string option"
  id_InnerInstructionIndex :: int
  id_InnerIndex :: "int option"
  id_Data :: "string option"
  id_InnerAccounts :: "int list option"
  id_Logs :: "string list"
  id_TokenAccountMap :: "(string \<times> token_account_details) list option"

definition decode_ProcessInstructionData :: "json \<Rightarrow> process_instruction_data \<Rightarrow> process_instruction_data option" where
  "decode_ProcessInstructionData = decode_object (\<lambda>key v out.
     if key = ''AccountKeys'' then map_option (\<lambda>x. out\<lparr>id_AccountKeys := x\<rparr>) (decode_slice lex_string v)
     else if key = ''InstructionAccounts'' then map_option (\<lambda>x. out\<lparr>id_InstructionAccounts := Some x\<rparr>) (decode_slice lex_int v)
     else if key = ''Accounts'' then map_option (\<lambda>x. out\<lparr>id_Accounts := Some x\<rparr>) (decode_slice lex_int v)
     else if key = ''Transfers'' then
       map_option (\<lambda>x. out\<lparr>id_Transfers := x\<rparr>) (decode_slice (\<lambda>j. decode_SolTransfer j zero_transfer) v)
     else if key = ''ProgramId'' then map_option (\<lambda>x. out\<lparr>id_ProgramId := Some x\<rparr>) (lex_string v)
     else if key = ''InnerProgramId'' then map_option (\<lambda>x. out\<lparr>id_InnerProgramId := Some x\<rparr>) (lex_string v)
     else if key = ''InnerInstructionIndex'' then map_option (\<lambda>x. out\<lparr>id_InnerInstructionIndex := x\<rparr>) (lex_int v)
     else if key = ''InnerIndex'' then map_option (\<lambda>x. out\<lparr>id_InnerIndex := Some x\<rparr>) (lex_int v)
     else if key = ''Data'' then map_option (\<lambda>x. out\<lparr>id_Data := Some x\<rparr>) (lex_string v)
     else if key = ''InnerAccounts'' then map_option (\<lambda>x. out\<lparr>id_InnerAccounts := Some x\<rparr>) (decode_slice lex_int v)
     else if key = ''Logs'' then map_option (\<lambda>x. out\<lparr>id_Logs := x\<rparr>) (decode_slice lex_string v)
     else if key = ''TokenAccountMap'' then
       map_option (\<lambda>x. out\<lparr>id_TokenAccountMap := Some x\<rparr>) (decode_map (\<lambda>j. decode_TokenAccountDetails j zero_TokenAccountDetails) v)
     else Some out)"

definition encode_ProcessInstructionData :: "process_instruction_data \<Rightarrow> json" where
  "encode_ProcessInstructionData v = JObj [(''AccountKeys'', encode_slice JStr (id_AccountKeys v)),
     (''InstructionAccounts'', or_null (encode_slice (\<lambda>i. JNum (int_text i))) (id_InstructionAccounts v)),
     (''Accounts'', or_null (encode_slice (\<lambda>i. JNum (int_text i))) (id_Accounts v)),
     (''Transfers'', encode_slice encode_SolTransfer (id_Transfers v)), (''ProgramId'', or_null JStr (id_ProgramId v)),
     (''InnerProgramId'', or_null JStr (id_InnerProgramId v)), (''InnerInstructionIndex'', JNum (int_text (id_InnerInstructionIndex v))),
     (''InnerIndex'', or_null (\<lambda>i. JNum (int_text i)) (id_InnerIndex v)), (''Data'', or_null JStr (id_Data v)),
     (''InnerAccounts'', or_null (encode_slice (\<lambda>i. JNum (int_text i))) (id_InnerAccounts v)),
     (''Logs'', encode_slice JStr (id_Logs v)), (''TokenAccountMap'', or_null (encode_map encode_TokenAccountDetails) (id_TokenAccountMap v))]"

definition zero_ProcessInstructionData :: process_instruction_data where
  "zero_ProcessInstructionData = \<lparr>id_AccountKeys = [], id_InstructionAccounts = None, id_Accounts = None, id_Transfers = [],
     id_ProgramId = None, id_InnerProgramId = None, id_InnerInstructionIndex = 0, id_InnerIndex = None, id_Data = None,
     id_InnerAccounts = None, id_Logs = [], id_TokenAccountMap = None\<rparr>"

definition instruction_data_fits :: "process_instruction_data \<Rightarrow> bool" where
  "instruction_data_fits v \<longleftrightarrow> pred_option (list_all int_ok) (id_InstructionAccounts v) \<and> pred_option (list_all int_ok) (id_Accounts v) \<and>
     list_all SolTransfer_fits (id_Transfers v) \<and> int_ok (id_InnerInstructionIndex v) \<and> pred_option int_ok (id_InnerIndex v) \<and>
     pred_option (list_all int_ok) (id_InnerAccounts v) \<and> pred_option (\<lambda>m. distinct (map fst m) \<and> (\<forall>d \<in> snd ` set m. TokenAccountDetails_fits d)) (id_TokenAccountMap v)"

text \<open>A member that may be null sets its field, whether it is null or not.\<close>

lemma instruction_data_updates:
  "id_InstructionAccounts out = None \<Longrightarrow> (case p0 of None \<Rightarrow> out | Some x \<Rightarrow> out\<lparr>id_InstructionAccounts := Some x\<rparr>) = out\<lparr>id_InstructionAccounts := p0\<rparr>"
  "id_Accounts out = None \<Longrightarrow> (case p1 of None \<Rightarrow> out | Some x \<Rightarrow> out\<lparr>id_Accounts := Some x\<rparr>) = out\<lparr>id_Accounts := p1\<rparr>"
  "id_ProgramId out = None \<Longrightarrow> (case p2 of None \<Rightarrow> out | Some x \<Rightarrow> out\<lparr>id_ProgramId := Some x\<rparr>) = out\<lparr>id_ProgramId := p2\<rparr>"
  "id_InnerProgramId out = None \<Longrightarrow> (case p3 of None \<Rightarrow> out | Some x \<Rightarrow> out\<lparr>id_InnerProgramId := Some x\<rparr>) = out\<lparr>id_InnerProgramId := p3\<rparr>"
  "id_InnerIndex out = None \<Longrightarrow> (case p4 of None \<Rightarrow> out | Some x \<Rightarrow> out\<lparr>id_InnerIndex := Some x\<rparr>) = out\<lparr>id_InnerIndex := p4\<rparr>"
  "id_Data out = None \<Longrightarrow> (case p5 of None \<Rightarrow> out | Some x \<Rightarrow> out\<lparr>id_Data := Some x\<rparr>) = out\<lparr>id_Data := p5\<rparr>"
  "id_InnerAccounts out = None \<Longrightarrow> (case p6 of None \<Rightarrow> out | Some x \<Rightarrow> out\<lparr>id_InnerAccounts := Some x\<rparr>) = out\<lparr>id_InnerAccounts := p6\<rparr>"
  "id_TokenAccountMap out = None \<Longrightarrow> (case p7 of None \<Rightarrow> out | Some x \<Rightarrow> out\<lparr>id_TokenAccountMap := Some x\<rparr>) = out\<lparr>id_TokenAccountMap := p7\<rparr>"
  for out :: process_instruction_data
  by (simp_all split: option.split)

lemma zero_instruction_data:
  "id_InstructionAccounts zero_ProcessInstructionData = None"
  "id_Accounts zero_ProcessInstructionData = None"
  "id_ProgramId zero_ProcessInstructionData = None"
  "id_InnerProgramId zero_ProcessInstructionData = None"
  "id_InnerIndex zero_ProcessInstructionData = None"
  "id_Data zero_ProcessInstructionData = None"
  "id_InnerAccounts zero_ProcessInstructionData = None"
  "id_TokenAccountMap zero_ProcessInstructionData = None"
  by (simp_all add: zero_ProcessInstructionData_def)

lemma ProcessInstructionData_decodes:
  assumes "instruction_data_fits v"
  shows "decode_ProcessInstructionData (encode_ProcessInstructionData v) zero_ProcessInstructionData = Some v"
proof -
  have ints: "id_InstructionAccounts v = Some is \<Longrightarrow> list_all int_ok is" "id_Accounts v = Some is \<Longrightarrow> list_all int_ok is"
    "id_InnerAccounts v = Some is \<Longrightarrow> list_all int_ok is" "id_InnerIndex v = Some i \<Longrightarrow> int_ok i" for "is" i
    using assms by (simp_all add: instruction_data_fits_def)
  have accounts: "id_TokenAccountMap v = Some m \<Longrightarrow> decode_map (\<lambda>j. decode_TokenAccountDetails j zero_TokenAccountDetails)
      (encode_map encode_TokenAccountDetails m) = Some m" for m
    using assms by (intro map_round_trip) (auto simp: instruction_data_fits_def token_account_details_json.round_trip)
  have map: "encode_map encode_TokenAccountDetails m \<noteq> JNull" for m by (simp add: encode_map_def)
  have rest: "list_all SolTransfer_fits (id_Transfers v)" "int_ok (id_InnerInstructionIndex v)"
    using assms by (simp_all add: instruction_data_fits_def)
  show ?thesis
    unfolding decode_ProcessInstructionData_def encode_ProcessInstructionData_def decode_object_JObj
    by (simp add: decode_member decode_or_null ints accounts map rest instruction_data_updates zero_instruction_data del: decode_fields.simps(2))
qed

text \<open>C23: A token whose year is between 0 and 9999 in the zone of the process is written, and the generated decoder
  reads the token back from what is written.\<close>

theorem Token_round_trip:
  assumes "\<bar>zone\<bar> < 24 * 60" "int_ok (to_CreatedBlock v)"
    and "0 \<le> local_year zone (to_CreatedTimestamp v)" "local_year zone (to_CreatedTimestamp v) \<le> 9999"
  shows "\<exists>j. encode_Token zone v = Some j \<and> decode_Token j zero_Token = Some v"
  using assms Token_encodes [of zone v] Token_decodes [of zone v] by fastforce

text \<open>A token with microseconds in its time, in a zone five and a half hours ahead.\<close>

definition sample_stored_token :: token where
  "sample_stored_token = \<lparr>to_Name = ''Sample'', to_Symbol = ''SMP'', to_Decimals = 6, to_Address = ''mint'', to_Supply = ''10'',
     to_CreatedBlock = 300, to_Network = ''solana'', to_CreatedTimestamp = 1736942400500000000, to_Deployer = Some ''payer'', to_Metadata = None\<rparr>"

lemma Token_round_trip_witness:
  "\<exists>j. encode_Token 330 sample_stored_token = Some j \<and> decode_Token j zero_Token = Some sample_stored_token"
proof -
  have "local_year 330 (to_CreatedTimestamp sample_stored_token) = 2025" by code_simp
  then show ?thesis using Token_round_trip [of 330 sample_stored_token] by (simp add: sample_stored_token_def int_ok_def)
qed

end
