(* ===== verification/Layouts.thy ===== *)
theory Layouts
  imports Finder Samples
begin

text \<open>
  The account layouts of the exchanges (internal/types/dex-models.go) as lists of typed fields, what a
  sequential decoder reads from an account with them, and what identifyPair makes of such an account. The
  decoder is gagliardetto/binary; its documented behaviour (fields in order, fixed widths, no padding
  between them, an error when the data ends early) is the hypothesis \<open>sequential\<close>.
\<close>

section \<open>Fields\<close>

text \<open>\<open>Key\<close> is a public key of 32 bytes, \<open>Bytes\<close> a byte array, \<open>Dynamic\<close> an interface value, whose width the type does not fix.\<close>

datatype field_type = U8 | U16 | U64 | U128 | I32 | I64 | Flag | Key | Bytes nat | Arr nat field_type
  | Struct "(string \<times> field_type) list" | Dynamic

type_synonym layout = "(string \<times> field_type) list"

function field_size :: "field_type \<Rightarrow> nat option" and layout_size :: "layout \<Rightarrow> nat option" where
  "field_size U8 = Some 1"
| "field_size U16 = Some 2"
| "field_size U64 = Some 8"
| "field_size U128 = Some 16"
| "field_size I32 = Some 4"
| "field_size I64 = Some 8"
| "field_size Flag = Some 1"
| "field_size Key = Some 32"
| "field_size (Bytes n) = Some n"
| "field_size (Arr n t) = map_option ((*) n) (field_size t)"
| "field_size (Struct fs) = layout_size fs"
| "field_size Dynamic = None"
| "layout_size [] = Some 0"
| "layout_size (f # fs) = (case field_size (snd f) of None \<Rightarrow> None | Some a \<Rightarrow> map_option ((+) a) (layout_size fs))"
  by pat_completeness auto
termination
  proof (relation "measure (case_sum size (size_list (\<lambda>p. Suc (size (snd p)))))", goal_cases)
  case (3 fs)
  have "size_prod (\<lambda>_ :: char list. 0) s = (\<lambda>p. Suc (s (snd p)))" for s :: "field_type \<Rightarrow> nat"
    by (rule ext) (simp add: size_prod_simp)
  then show ?case by simp
qed simp_all

text \<open>Where a field of the struct begins, and its width.\<close>

fun offset_of :: "layout \<Rightarrow> string \<Rightarrow> (nat \<times> nat) option" where
  "offset_of [] name = None"
| "offset_of (f # fs) name = (case field_size (snd f) of None \<Rightarrow> None
     | Some a \<Rightarrow> if fst f = name then Some (0, a) else map_option (\<lambda>(o', l). (a + o', l)) (offset_of fs name))"

section \<open>The layouts\<close>

definition RaydiumV4Layout :: layout where
  "RaydiumV4Layout = [(''Status'', U64), (''Nonce'', U64), (''MaxOrder'', U64), (''Depth'', U64), (''BaseDecimal'', U64),
     (''QuoteDecimal'', U64), (''State'', U64), (''ResetFlag'', U64), (''MinSize'', U64), (''VolMaxCutRatio'', U64),
     (''AmountWaveRatio'', U64), (''BaseLotSize'', U64), (''QuoteLotSize'', U64), (''MinPriceMultiplier'', U64),
     (''MaxPriceMultiplier'', U64), (''SystemDecimalValue'', U64), (''MinSeparateNumerator'', U64),
     (''MinSeparateDenominator'', U64), (''TradeFeeNumerator'', U64), (''TradeFeeDenominator'', U64),
     (''PnlNumerator'', U64), (''PnlDenominator'', U64), (''SwapFeeNumerator'', U64), (''SwapFeeDenominator'', U64),
     (''BaseNeedTakePnl'', U64), (''QuoteNeedTakePnl'', U64), (''QuoteTotalPnl'', U64), (''BaseTotalPnl'', U64),
     (''QuoteTotalDeposited'', U128), (''BaseTotalDeposited'', U128), (''SwapBaseInAmount'', U128),
     (''SwapQuoteOutAmount'', U128), (''SwapBase2QuoteFee'', U64), (''SwapQuoteInAmount'', U128),
     (''SwapBaseOutAmount'', U128), (''SwapQuote2BaseFee'', U64), (''BaseVault'', Key), (''QuoteVault'', Key),
     (''BaseMint'', Key), (''QuoteMint'', Key), (''LpMint'', Key), (''OpenOrders'', Key), (''MarketID'', Key),
     (''MarketProgramID'', Key), (''TargetOrders'', Key), (''WithdrawQueue'', Key), (''LpVault'', Key), (''Owner'', Key),
     (''LpReserve'', U64), (''Padding'', Bytes 3)]"

definition RewardInfo :: layout where
  "RewardInfo = [(''RewardState'', U8), (''Padding1'', Bytes 7), (''OpenTime'', U64), (''EndTime'', U64),
     (''LastUpdateTime'', U64), (''EmissionsPerSecondX64'', U64), (''RewardTotalEmissioned'', U64), (''RewardClaimed'', U64),
     (''TokenMint'', Key), (''TokenVault'', Key), (''Authority'', Key), (''RewardGrowthGlobalX64'', U64)]"

definition RaydiumConcentratedLayout :: layout where
  "RaydiumConcentratedLayout = [(''Bump'', Bytes 1), (''AmmConfig'', Key), (''Owner'', Key), (''TokenMint0'', Key),
     (''TokenMint1'', Key), (''TokenVault0'', Key), (''TokenVault1'', Key), (''ObservationKey'', Key),
     (''MintDecimals0'', U8), (''MintDecimals1'', U8), (''TickSpacing'', U16), (''Liquidity'', U128),
     (''SqrtPriceX64'', U128), (''TickCurrent'', I32), (''ObservationIndex'', U16), (''ObservationUpdateDuration'', U16),
     (''FeeGrowthGlobal0X64'', U128), (''FeeGrowthGlobal1X64'', U128), (''ProtocolFeesToken0'', U64),
     (''ProtocolFeesToken1'', U64), (''SwapInAmountToken0'', U128), (''SwapOutAmountToken1'', U128),
     (''SwapInAmountToken1'', U128), (''SwapOutAmountToken0'', U128), (''Status'', U8), (''Padding'', Bytes 7),
     (''RewardInfos'', Arr 3 (Struct RewardInfo)), (''TickArrayBitmap'', Arr 16 U64), (''TotalFeesToken0'', U64),
     (''TotalFeesClaimedToken0'', U64), (''TotalFeesToken1'', U64), (''TotalFeesClaimedToken1'', U64),
     (''FundFeesToken0'', U64), (''FundFeesToken1'', U64), (''OpenTime'', U64), (''Padding1'', Arr 25 U64),
     (''Padding2'', Arr 32 U64)]"

definition MeteoraLayout :: layout where
  "MeteoraLayout = [(''Padding1'', Bytes 8), (''StaticParametersPadding'', Bytes 32),
     (''VariableParametersPadding'', Bytes 32), (''BumpSeed'', Bytes 1), (''BinStepSeed'', Bytes 2), (''PairType'', U8),
     (''ActiveId'', I32), (''BinStep'', U16), (''Status'', U8), (''RequireBaseFactorSeed'', U8),
     (''BaseFactorSeed'', Bytes 2), (''Padding2'', Bytes 2), (''TokenXMint'', Key), (''TokenYMint'', Key),
     (''ReserveX'', Key), (''ReserveY'', Key), (''ProtocolFeePadding'', Bytes 16), (''FeeOwner'', Key),
     (''RewardInfosPadding'', Arr 2 (Bytes 64)), (''Oracle'', Key), (''BinArrayBitmap'', Arr 16 U64),
     (''LastUpdatedAt'', I64), (''WhitelistedWallet'', Key), (''PreActivationSwapAddress'', Key), (''BaseKey'', Key),
     (''ActivationSlot'', U64), (''PreActivationSlotDuration'', U64), (''Padding3'', Bytes 8),
     (''LockDurationsInSlot'', U64), (''Creator'', Key), (''Reserved'', Bytes 24)]"

definition MeteoraPoolsLayout :: layout where
  "MeteoraPoolsLayout = [(''Padding'', Bytes 8), (''LpMint'', Key), (''TokenAMint'', Key), (''TokenBMint'', Key),
     (''AVault'', Key), (''BVault'', Key), (''AVaultLp'', Key), (''BVaultLp'', Key), (''AVaultLpBump'', U8),
     (''Enabled'', Flag), (''Padding1'', Bytes 6), (''AdminTokenAFee'', Key), (''AdminTokenBFee'', Key), (''Admin'', Key),
     (''Padding2'', Bytes 32), (''PoolType'', Struct [(''Permissionless'', Dynamic)]), (''Padding3'', Bytes 7),
     (''Stake'', Key), (''TotalLockedLp'', U64), (''Padding4'', Bytes 8), (''Padding5'', Bytes 128)]"

definition OrcaWhirlpool :: layout where
  "OrcaWhirlpool = [(''Padding'', Bytes 8), (''WhirlpoolsConfig'', Key), (''WhirlpoolBump'', Bytes 1),
     (''TickSpacing'', U16), (''TickSpacingSeed'', Bytes 2), (''FeeRate'', U16), (''ProtocolFeeRate'', U16),
     (''Liquidity'', U128), (''SqrtPrice'', U128), (''TickCurrentIndex'', I32), (''ProtocolFeeOwedA'', U64),
     (''ProtocolFeeOwedB'', U64), (''TokenMintA'', Key), (''TokenVaultA'', Key), (''FeeGrowthGlobalA'', U128),
     (''TokenMintB'', Key), (''TokenVaultB'', Key), (''FeeGrowthGlobalB'', U128), (''RewardLastUpdatedTimestamp'', U64),
     (''RewardInfos'', Arr 3 (Struct [(''Mint'', Key), (''Vault'', Key), (''Authority'', Key), (''EmissionsPerSecondX64'', U128), (''GrowthGlobalX64'', U128)]))]"

definition FluxBeamPool :: layout where
  "FluxBeamPool = [(''Version'', U8), (''IsInitialized'', Flag), (''BumpSeed'', U8), (''PoolTokenProgramId'', Key),
     (''TokenAccountA'', Key), (''TokenAccountB'', Key), (''TokenPool'', Key), (''MintA'', Key), (''MintB'', Key),
     (''FeeAccount'', Key), (''TradeFeeNumerator'', U64), (''TradeFeeDenominator'', U64), (''OwnerTradeFeeNumerator'', U64),
     (''OwnerTradeFeeDenominator'', U64), (''OwnerWithdrawFeeNumerator'', U64), (''OwnerWithdrawFeeDenominator'', U64),
     (''HostFeeNumerator'', U64), (''HostFeeDenominator'', U64), (''CurveType'', U8), (''CurveParameters'', Bytes 32)]"

definition MarketSizeParams :: layout where
  "MarketSizeParams = [(''BidsSize'', U64), (''AsksSize'', U64), (''NumSeats'', U64)]"

definition TokenParams :: layout where
  "TokenParams = [(''Decimals'', U8), (''VaultBump'', U8), (''MintKey'', Key), (''VaultKey'', Key)]"

definition PhoenixHeader :: layout where
  "PhoenixHeader = [(''Discriminator'', Bytes 8), (''Status'', U8), (''MarketSizeParams'', Struct MarketSizeParams),
     (''TokenParams'', Struct TokenParams), (''BaseLotSize'', U64), (''QuoteLotSize'', U64),
     (''TickSizeInQuoteAtomsPerBaseUnit'', U64), (''Authority'', Key), (''FeeRecipient'', Key),
     (''MarketSequenceNumber'', U64), (''Successor'', Key), (''RawBaseUnitsPerBaseUnit'', U64), (''Padding1'', U8),
     (''Padding2'', Bytes 32)]"

definition OrderEntry :: layout where
  "OrderEntry = [(''PriceInTicks'', U64), (''OrderSequenceNumber'', U64), (''TraderIndex'', U64), (''NumBaseLots'', U64),
     (''LastValidSlot'', U64), (''LastValidUnixTimestampInSeconds'', U64)]"

definition PhoenixMarketLayout :: layout where
  "PhoenixMarketLayout = [(''Header'', Struct PhoenixHeader), (''BaseLotsPerBaseUnit'', U64),
     (''QuoteLotsPerBaseUnitPerTick'', U64), (''OrderSequenceNumber'', U64), (''TakerFeeBps'', U16),
     (''CollectedQuoteLotFees'', U64), (''UnclaimedQuoteLotFees'', U64), (''Bids'', Arr 1024 (Struct OrderEntry)),
     (''Asks'', Arr 1024 (Struct OrderEntry))]"

definition AmmFees :: layout where
  "AmmFees = [(''TradeFeeNumerator'', U64), (''TradeFeeDenominator'', U64), (''OwnerTradeFeeNumerator'', U64),
     (''OwnerTradeFeeDenominator'', U64), (''OwnerWithdrawFeeNumerator'', U64), (''OwnerWithdrawFeeDenominator'', U64),
     (''HostFeeNumerator'', U64), (''HostFeeDenominator'', U64)]"

definition AmmCurve :: layout where
  "AmmCurve = [(''CurveType'', U8), (''Padding1'', Bytes 7), (''CurveParameters'', U64)]"

definition AmmConfig :: layout where
  "AmmConfig = [(''LastPrice'', U64), (''LastBalancedPrice'', U64), (''ConfigDenominator'', U64), (''VolumeX'', U64),
     (''VolumeY'', U64), (''VolumeXInY'', U64), (''DepositCap'', U64), (''RegressionTarget'', U64), (''OracleType'', U64),
     (''OracleStatus'', U64), (''OracleMainSlotLimit'', U64), (''OracleSubConfidenceLimit'', U64),
     (''OracleSubSlotLimit'', U64), (''OraclePcConfidenceLimit'', U64), (''OraclePcSlotLimit'', U64), (''StdSpread'', U64),
     (''StdSpreadBuffer'', U64), (''SpreadCoefficient'', U64), (''PriceBufferCoin'', I64), (''PriceBufferPc'', I64),
     (''RebalanceRatio'', U64), (''FeeTrade'', U64), (''FeePlatform'', U64), (''ConfigTemp3'', U64), (''ConfigTemp4'', U64),
     (''ConfigTemp5'', U64), (''ConfigTemp6'', U64), (''ConfigTemp7'', U64), (''ConfigTemp8'', U64)]"

definition LfinitySwapV2Layout :: layout where
  "LfinitySwapV2Layout = [(''InitializerKey'', Key), (''InitializerDepositTokenAccount'', Key),
     (''InitializerReceiveTokenAccount'', Key), (''InitializerAmount'', U64), (''TakerAmount'', U64),
     (''IsInitialized'', U8), (''BumpSeed'', U8), (''FreezeTrade'', U8), (''FreezeDeposit'', U8), (''FreezeWithdraw'', U8),
     (''BaseDecimals'', U8), (''Padding1'', Bytes 3), (''TokenProgramId'', Key), (''TokenAAccount'', Key),
     (''TokenBAccount'', Key), (''PoolMint'', Key), (''TokenAMint'', Key), (''TokenBMint'', Key), (''FeeAccount'', Key),
     (''OracleMainAccount'', Key), (''OracleSubAccount'', Key), (''OraclePcAccount'', Key), (''Fees'', Struct AmmFees),
     (''Curve'', Struct AmmCurve), (''Config'', Struct AmmConfig), (''AmmPTemp1'', Key), (''AmmPTemp2'', Key),
     (''AmmPTemp3'', Key), (''AmmPTemp4'', Key), (''AmmPTemp5'', Key)]"

definition PumpFunSwap :: layout where
  "PumpFunSwap = [(''Mint'', Key), (''SolAmount'', U64), (''TokenAmount'', U64), (''IsBuy'', Flag), (''User'', Key),
     (''Timestamp'', I64), (''VirtualSolReserves'', U64), (''VirtualTokenReserves'', U64)]"

definition RaySwapBaseIn :: layout where
  "RaySwapBaseIn = [(''LogType'', U8), (''AmountIn'', U64), (''MinimumAmountOut'', U64), (''Direction'', U64),
     (''UserSource'', U64), (''PoolCoin'', U64), (''PoolPc'', U64), (''OutAmount'', U64)]"

definition RaySwapBaseOut :: layout where
  "RaySwapBaseOut = [(''LogType'', U8), (''MaximumAmountIn'', U64), (''AmountOut'', U64), (''Direction'', U64),
     (''UserSource'', U64), (''PoolCoin'', U64), (''PoolPc'', U64), (''DeductIn'', U64)]"

lemmas layout_defs = RaydiumV4Layout_def RewardInfo_def RaydiumConcentratedLayout_def MeteoraLayout_def MeteoraPoolsLayout_def OrcaWhirlpool_def FluxBeamPool_def MarketSizeParams_def TokenParams_def PhoenixHeader_def OrderEntry_def PhoenixMarketLayout_def AmmFees_def AmmCurve_def AmmConfig_def LfinitySwapV2Layout_def PumpFunSwap_def RaySwapBaseIn_def RaySwapBaseOut_def

section \<open>Decoding\<close>

text \<open>What a decoder makes of the data: the bytes of each field of the struct, and whether it reported no error.\<close>

type_synonym bin_decoder = "layout \<Rightarrow> byte list \<Rightarrow> (string \<Rightarrow> byte list) \<times> bool"

definition RaydiumV4Layout_Decode :: "bin_decoder \<Rightarrow> byte list \<Rightarrow> (string \<Rightarrow> byte list) \<times> bool" where
  "RaydiumV4Layout_Decode B data = B RaydiumV4Layout data"

definition RaydiumConcentratedLayout_Decode :: "bin_decoder \<Rightarrow> byte list \<Rightarrow> (string \<Rightarrow> byte list) \<times> bool" where
  "RaydiumConcentratedLayout_Decode B data = B RaydiumConcentratedLayout data"

definition MeteoraLayout_Decode :: "bin_decoder \<Rightarrow> byte list \<Rightarrow> (string \<Rightarrow> byte list) \<times> bool" where
  "MeteoraLayout_Decode B data = B MeteoraLayout data"

definition MeteoraPoolsLayout_Decode :: "bin_decoder \<Rightarrow> byte list \<Rightarrow> (string \<Rightarrow> byte list) \<times> bool" where
  "MeteoraPoolsLayout_Decode B data = B MeteoraPoolsLayout data"

definition OrcaWhirlpool_Decode :: "bin_decoder \<Rightarrow> byte list \<Rightarrow> (string \<Rightarrow> byte list) \<times> bool" where
  "OrcaWhirlpool_Decode B data = B OrcaWhirlpool data"

definition FluxBeamPool_Decode :: "bin_decoder \<Rightarrow> byte list \<Rightarrow> (string \<Rightarrow> byte list) \<times> bool" where
  "FluxBeamPool_Decode B data = B FluxBeamPool data"

definition PhoenixMarketLayout_Decode :: "bin_decoder \<Rightarrow> byte list \<Rightarrow> (string \<Rightarrow> byte list) \<times> bool" where
  "PhoenixMarketLayout_Decode B data = B PhoenixMarketLayout data"

definition LfinitySwapV2Layout_Decode :: "bin_decoder \<Rightarrow> byte list \<Rightarrow> (string \<Rightarrow> byte list) \<times> bool" where
  "LfinitySwapV2Layout_Decode B data = B LfinitySwapV2Layout data"

definition PumpFunSwap_Decode :: "bin_decoder \<Rightarrow> byte list \<Rightarrow> (string \<Rightarrow> byte list) \<times> bool" where
  "PumpFunSwap_Decode B data = B PumpFunSwap data"

definition RaySwapBaseIn_Decode :: "bin_decoder \<Rightarrow> byte list \<Rightarrow> (string \<Rightarrow> byte list) \<times> bool" where
  "RaySwapBaseIn_Decode B data = B RaySwapBaseIn data"

definition RaySwapBaseOut_Decode :: "bin_decoder \<Rightarrow> byte list \<Rightarrow> (string \<Rightarrow> byte list) \<times> bool" where
  "RaySwapBaseOut_Decode B data = B RaySwapBaseOut data"

text \<open>The mints identifyPair reads, as the decoders of its branches leave them; the error of FluxBeam is not looked at.\<close>

definition mints :: "string \<Rightarrow> string \<Rightarrow> (string \<Rightarrow> byte list) \<times> bool \<Rightarrow> (pubkey \<times> pubkey) option" where
  "mints a b decoded = (if snd decoded then Some (fst decoded a, fst decoded b) else None)"

definition decoded_layouts :: "bin_decoder \<Rightarrow> layouts" where
  "decoded_layouts B = \<lparr>
     ly_meteora = (\<lambda>data. mints ''TokenXMint'' ''TokenYMint'' (MeteoraLayout_Decode B data)),
     ly_meteora_pools = (\<lambda>data. mints ''TokenAMint'' ''TokenBMint'' (MeteoraPoolsLayout_Decode B data)),
     ly_orca = (\<lambda>data. mints ''TokenMintA'' ''TokenMintB'' (OrcaWhirlpool_Decode B data)),
     ly_raydium_v4 = (\<lambda>data. mints ''BaseMint'' ''QuoteMint'' (RaydiumV4Layout_Decode B data)),
     ly_fluxbeam = (\<lambda>data. case FluxBeamPool_Decode B data of (got, fine) \<Rightarrow> (got ''MintA'', got ''MintB''))\<rparr>"

text \<open>
  The documented behaviour of the library: the fields of a struct are read in order, without padding
  between them. For a struct of fixed width the decoder fails exactly when the data is too short; for
  another one (an interface value is not of fixed width) only what stands before that field is used,
  and only of a decoding that succeeded.
\<close>

definition fields_read :: "bin_decoder \<Rightarrow> layout \<Rightarrow> byte list \<Rightarrow> bool" where
  "fields_read B ly data \<longleftrightarrow> (\<forall>name start len. offset_of ly name = Some (start, len) \<longrightarrow>
     fst (B ly data) name = take len (drop start data))"

definition sequential :: "bin_decoder \<Rightarrow> bool" where
  "sequential B \<longleftrightarrow> (\<forall>ly data. case layout_size ly of
     Some n \<Rightarrow> (if length data < n then \<not> snd (B ly data) else snd (B ly data) \<and> fields_read B ly data)
   | None \<Rightarrow> snd (B ly data) \<longrightarrow> fields_read B ly data)"

lemma sequential_read: "sequential B \<Longrightarrow> snd (B ly data) \<Longrightarrow> fields_read B ly data"
  unfolding sequential_def by (drule spec [of _ ly], drule spec [of _ data]) (auto split: option.splits if_splits)

lemma sequential_length: "sequential B \<Longrightarrow> layout_size ly = Some n \<Longrightarrow> snd (B ly data) \<longleftrightarrow> n \<le> length data"
  unfolding sequential_def by (drule spec [of _ ly], drule spec [of _ data]) (auto split: if_splits)

section \<open>Sizes and offsets\<close>

lemma layout_sizes:
  "layout_size RaydiumV4Layout = Some 731" "layout_size MeteoraLayout = Some 744" "layout_size OrcaWhirlpool = Some 653"
  "layout_size FluxBeamPool = Some 324" "layout_size MeteoraPoolsLayout = None"
  by code_simp+

lemma mint_offsets:
  "offset_of RaydiumV4Layout ''BaseMint'' = Some (400, 32)" "offset_of RaydiumV4Layout ''QuoteMint'' = Some (432, 32)"
  "offset_of MeteoraLayout ''TokenXMint'' = Some (88, 32)" "offset_of MeteoraLayout ''TokenYMint'' = Some (120, 32)"
  "offset_of OrcaWhirlpool ''TokenMintA'' = Some (101, 32)" "offset_of OrcaWhirlpool ''TokenMintB'' = Some (181, 32)"
  "offset_of FluxBeamPool ''MintA'' = Some (131, 32)" "offset_of FluxBeamPool ''MintB'' = Some (163, 32)"
  "offset_of MeteoraPoolsLayout ''TokenAMint'' = Some (40, 32)" "offset_of MeteoraPoolsLayout ''TokenBMint'' = Some (72, 32)"
  by code_simp+

text \<open>The layouts nothing decodes; the one of Raydium's concentrated pools has no place for the eight bytes of a discriminator.\<close>

lemma unused_layout_sizes:
  "layout_size RaydiumConcentratedLayout = Some 1509"
  "layout_size LfinitySwapV2Layout = Some 913" "layout_size PumpFunSwap = Some 105" "layout_size RaySwapBaseIn = Some 57"
  "layout_size RaySwapBaseOut = Some 57" "offset_of RaydiumConcentratedLayout ''TokenMint0'' = Some (65, 32)"
  by code_simp+

section \<open>Pairs of accounts\<close>

definition key_at :: "byte list \<Rightarrow> nat \<Rightarrow> pubkey" where
  "key_at data start = take 32 (drop start data)"

lemma field_at:
  assumes "sequential B" "snd (B ly data)" "offset_of ly a = Some (i, 32)"
  shows "fst (B ly data) a = key_at data i"
  using sequential_read [OF assms(1,2)] assms(3) by (simp add: fields_read_def key_at_def)

lemma mints_read:
  assumes "sequential B" "offset_of ly a = Some (i, 32)" "offset_of ly b = Some (j, 32)"
  shows "mints a b (B ly data) = (if snd (B ly data) then Some (key_at data i, key_at data j) else None)"
  using field_at [OF assms(1) _ assms(2)] field_at [OF assms(1) _ assms(3)] by (simp add: mints_def)

lemma programs_differ:
  "METEORA_DLMM_PROGRAM \<noteq> METEORA_POOLS_PROGRAM" "ORCA_WHIRL_PROGRAM_ID \<notin> {METEORA_DLMM_PROGRAM, METEORA_POOLS_PROGRAM}"
  "RAYDIUM_LIQ_POOL_V4 \<notin> {METEORA_DLMM_PROGRAM, METEORA_POOLS_PROGRAM, ORCA_WHIRL_PROGRAM_ID}"
  "FLUXBEAM_PROGRAM \<notin> {METEORA_DLMM_PROGRAM, METEORA_POOLS_PROGRAM, ORCA_WHIRL_PROGRAM_ID, RAYDIUM_LIQ_POOL_V4}"
  by code_simp+

text \<open>
  The accounts of the exchanges as their programs keep them: the name of the exchange, the length of an
  account (where the layout fixes it), the offsets of the mint taken for the base and of the one taken
  for the token, and the identifier of the base.
\<close>

definition pool_accounts :: "string \<Rightarrow> (string \<times> nat option \<times> nat \<times> nat \<times> string) option" where
  "pool_accounts owner =
     (if owner = RAYDIUM_LIQ_POOL_V4 then Some (''RAYDIUM'', Some 731, 400, 432, ''baseMint'')
      else if owner = ORCA_WHIRL_PROGRAM_ID then Some (''ORCA'', Some 653, 101, 181, ''mintA'')
      else if owner = METEORA_DLMM_PROGRAM then Some (''METEORA'', Some 744, 120, 88, ''tokenY'')
      else if owner = METEORA_POOLS_PROGRAM then Some (''METEORA'', None, 72, 40, ''tokenBMint'')
      else if owner = FLUXBEAM_PROGRAM then Some (''FLUXBEAM'', Some 324, 131, 163, ''mintA'')
      else None)"

definition quote_first :: "string \<times> string \<times> string \<times> string \<Rightarrow> string \<times> string \<times> string \<times> string" where
  "quote_first = (\<lambda>(exchange, base, tok, identifier).
     if base \<notin> dom QuoteTokens \<and> tok \<in> dom QuoteTokens then (exchange, tok, base, ''mintB'')
     else (exchange, base, tok, identifier))"

lemma identifyPair_quote_first: "identifyPair E L owner data token = map_option quote_first (pair_mints E L owner data token)"
  unfolding identifyPair_def quote_first_def by (rule arg_cong [where f = "\<lambda>f. map_option f _"]) (auto simp: fun_eq_iff)

lemma pair_mints_read:
  assumes "sequential B"
  shows "pair_mints E (decoded_layouts B) RAYDIUM_LIQ_POOL_V4 data token = (if length data < 731 then None
      else Some (''RAYDIUM'', key_string E (key_at data 400), key_string E (key_at data 432), ''baseMint''))"
    "pair_mints E (decoded_layouts B) ORCA_WHIRL_PROGRAM_ID data token = (if length data < 653 then None
      else Some (''ORCA'', key_string E (key_at data 101), key_string E (key_at data 181), ''mintA''))"
    "pair_mints E (decoded_layouts B) METEORA_DLMM_PROGRAM data token = (if length data < 744 then None
      else Some (''METEORA'', key_string E (key_at data 120), key_string E (key_at data 88), ''tokenY''))"
    "pair_mints E (decoded_layouts B) METEORA_POOLS_PROGRAM data token \<in>
      {None, Some (''METEORA'', key_string E (key_at data 72), key_string E (key_at data 40), ''tokenBMint'')}"
  using programs_differ mints_read [where data = data, OF assms mint_offsets(1,2)] mints_read [where data = data, OF assms mint_offsets(3,4)]
    mints_read [where data = data, OF assms mint_offsets(5,6)] mints_read [where data = data, OF assms mint_offsets(9,10)]
    sequential_length [where data = data, OF assms layout_sizes(1)] sequential_length [where data = data, OF assms layout_sizes(2)]
    sequential_length [where data = data, OF assms layout_sizes(3)]
  unfolding pair_mints_def decoded_layouts_def Let_def RaydiumV4Layout_Decode_def OrcaWhirlpool_Decode_def
      MeteoraLayout_Decode_def MeteoraPoolsLayout_Decode_def by simp_all

lemma pair_mints_fluxbeam:
  assumes "sequential B"
  shows "pair_mints E (decoded_layouts B) FLUXBEAM_PROGRAM data token \<noteq> None"
    "324 \<le> length data \<Longrightarrow> pair_mints E (decoded_layouts B) FLUXBEAM_PROGRAM data token =
      Some (''FLUXBEAM'', key_string E (key_at data 131), key_string E (key_at data 163), ''mintA'')"
  using programs_differ field_at [where data = data, OF assms _ mint_offsets(7)] field_at [where data = data, OF assms _ mint_offsets(8)]
    sequential_length [where data = data, OF assms layout_sizes(4)]
  by (auto simp: pair_mints_def decoded_layouts_def Let_def FluxBeamPool_Decode_def split: prod.splits)

text \<open>
  C22: With the decoder's documented behaviour, identifyPair makes of an account that is long enough the
  pair of the two keys that the exchange's program keeps at its offsets (400 and 432 for Raydium V4, 101
  and 181 for a Whirlpool, 120 and 88 for a Meteora DLMM pair, 131 and 163 for FluxBeam), the quote token
  first if only the other one is one; an account that is too short is an error, except for FluxBeam, which
  never gives one. A Meteora pool, whose layout has an interface value, is an error or that pair (72 and 40).
\<close>

theorem identifyPair_wire:
  assumes "sequential B" "pool_accounts owner = Some (exchange, width, i, j, identifier)"
  shows "let pair = quote_first (exchange, key_string E (key_at data i), key_string E (key_at data j), identifier);
       found = identifyPair E (decoded_layouts B) owner data token
     in case width of
          None \<Rightarrow> found \<in> {None, Some pair}
        | Some n \<Rightarrow> if n \<le> length data then found = Some pair else (found = None \<longleftrightarrow> owner \<noteq> FLUXBEAM_PROGRAM)"
  using assms(2) programs_differ pair_mints_read [where data = data and E = E and token = token, OF assms(1)]
    pair_mints_fluxbeam [where data = data and E = E and token = token, OF assms(1)]
  by (auto simp: pool_accounts_def identifyPair_quote_first Let_def split: if_splits)

text \<open>A decoder that behaves as documented, and a Raydium account of 752 bytes.\<close>

definition plain_decoder :: bin_decoder where
  "plain_decoder ly data = (\<lambda>name. case offset_of ly name of None \<Rightarrow> [] | Some (start, len) \<Rightarrow> take len (drop start data),
     case layout_size ly of None \<Rightarrow> False | Some n \<Rightarrow> n \<le> length data)"

lemma plain_decoder_sequential: "sequential plain_decoder"
  by (auto simp: sequential_def fields_read_def plain_decoder_def split: option.splits)

lemma identifyPair_wire_witness:
  "identifyPair sample_ext (decoded_layouts plain_decoder) RAYDIUM_LIQ_POOL_V4 (replicate 400 0 @ replicate 32 7 @ replicate 320 9) None =
     Some (quote_first (''RAYDIUM'', key_string sample_ext (replicate 32 7), key_string sample_ext (replicate 32 9), ''baseMint''))"
proof -
  have "pool_accounts RAYDIUM_LIQ_POOL_V4 = Some (''RAYDIUM'', Some 731, 400, 432, ''baseMint'')" by (simp add: pool_accounts_def)
  from identifyPair_wire [OF plain_decoder_sequential this, of sample_ext "replicate 400 0 @ replicate 32 7 @ replicate 320 9" None]
  show ?thesis by (simp add: key_at_def Let_def)
qed

end
