(* ===== verification/TopTokens.thy ===== *)
theory TopTokens
  imports Routes
begin

text \<open>
  The most valuable recent tokens: the query FindTopRecentTokens of internal/db/timescale_repo.go and its
  handler (cmd/api/routes/topTokens.go). The query divides amounts; a division by zero, an overflow or an
  underflow fails the statement if the server evaluates it. Which prices it evaluates beside those in the result is
  its choice, the parameter \<open>evaluates\<close>. The server's clock is in UTC, like the stored times.
\<close>

section \<open>The query\<close>

text \<open>
  The float8 arithmetic of the server: an infinite result of finite operands is an error, and so are a zero
  result of operands that are not zero (an underflow) and a division by zero of anything but NaN.
\<close>

definition pg_mul :: "gonum \<Rightarrow> gonum \<Rightarrow> gonum option" where
  "pg_mul a b = (if f64_mul a b = Fin 0 \<and> a \<noteq> Fin 0 \<and> b \<noteq> Fin 0 then None else pg_range a b (f64_mul a b))"

definition pg_div :: "gonum \<Rightarrow> gonum \<Rightarrow> gonum option" where
  "pg_div a b = (if b = Fin 0 \<and> a \<noteq> NaN then None
     else if f64_div a b \<in> {PosInf, NegInf} \<and> a \<notin> {PosInf, NegInf} then None
     else if f64_div a b = Fin 0 \<and> a \<noteq> Fin 0 \<and> b \<notin> {PosInf, NegInf} then None
     else Some (f64_div a b))"

definition swap_price :: "swap_log \<Rightarrow> gonum option" where
  "swap_price s =
     (if sl_Action s = ''BUY'' then pg_div (sl_AmountOut s) (sl_AmountIn s)
      else if sl_Action s = ''SELL'' then pg_div (sl_AmountIn s) (sl_AmountOut s)
      else Some (Fin 0))"

text \<open>The latest swap of each token (rn = 1) in a list ordered by time.\<close>

fun latest_swaps :: "swap_log list \<Rightarrow> swap_log list" where
  "latest_swaps [] = []"
| "latest_swaps (s # ss) = s # filter (\<lambda>r. sl_Token r \<noteq> sl_Token s) (latest_swaps ss)"

definition recent_swaps :: "database \<Rightarrow> swap_log list" where
  "recent_swaps db = take 2000 (order_desc sl_Timestamp (db_swaps db))"

definition one_hour :: int where
  "one_hour = 60 * 60 * 10 ^ 9"

definition recent_tokens :: "gotime \<Rightarrow> database \<Rightarrow> token_row list" where
  "recent_tokens now db = filter (\<lambda>t. now - one_hour \<le> rt_CreatedTimestamp t) (db_tokens db)"

definition listed :: "gotime \<Rightarrow> database \<Rightarrow> (swap_log \<times> token_row) list" where
  "listed now db = filter (\<lambda>(s, t). sl_Token s = rt_Address t) (List.product (latest_swaps (recent_swaps db)) (recent_tokens now db))"

definition market_cap :: "swap_log \<times> token_row \<Rightarrow> gonum option" where
  "market_cap = (\<lambda>(s, t). case swap_price s of None \<Rightarrow> None | Some price \<Rightarrow> pg_mul price (rt_Supply t))"

definition FindTopRecentTokens :: "(swap_log \<Rightarrow> bool) \<Rightarrow> bool \<Rightarrow> gotime \<Rightarrow> database \<Rightarrow> (string \<times> gonum) list res" where
  "FindTopRecentTokens evaluates up now db =
     (if \<not> up then Inl DbDown
      else if \<exists>s \<in> set (recent_swaps db). evaluates s \<and> swap_price s = None then Inl BadValue
      else if None \<in> market_cap ` set (listed now db) then Inl BadValue
      else sqlx_scan [''token'', ''market_cap''] [''token'', ''market_cap'']
        (Inr (order_desc snd (map (\<lambda>(s, t). (sl_Token s, the (market_cap (s, t)))) (listed now db)))))"

definition TopTokensHandler :: "(swap_log \<Rightarrow> bool) \<Rightarrow> bool \<Rightarrow> gotime \<Rightarrow> database \<Rightarrow> (string \<times> gonum) list answer" where
  "TopTokensHandler evaluates up now db =
     (case FindTopRecentTokens evaluates up now db of Inl e \<Rightarrow> Failed 500 | Inr results \<Rightarrow> Answer results)"

section \<open>Lemmas\<close>

lemma latest_subset: "set (latest_swaps ss) \<subseteq> set ss"
  by (induction ss) auto

lemma latest_distinct: "distinct (map sl_Token (latest_swaps ss))"
proof (induction ss)
  case (Cons s ss)
  then have "distinct (map sl_Token (filter (\<lambda>r. sl_Token r \<noteq> sl_Token s) (latest_swaps ss)))" by (rule distinct_map_filter)
  then show ?case by auto
qed simp

lemma latest_covers: "r \<in> set ss \<Longrightarrow> \<exists>s \<in> set (latest_swaps ss). sl_Token s = sl_Token r"
  by (induction ss) force+

lemma latest_is_latest:
  assumes "sorted_wrt (\<lambda>x y. sl_Timestamp y \<le> sl_Timestamp x) ss" "s \<in> set (latest_swaps ss)" "r \<in> set ss" "sl_Token r = sl_Token s"
  shows "sl_Timestamp r \<le> sl_Timestamp s"
  using assms
proof (induction ss)
  case (Cons a ss)
  show ?case
  proof (cases "s = a")
    case True
    then show ?thesis using Cons.prems by auto
  next
    case False
    then have "s \<in> set (latest_swaps ss)" "sl_Token s \<noteq> sl_Token a" using Cons.prems(2) by auto
    then show ?thesis using Cons by auto
  qed
qed simp

lemma recent_sorted: "sorted_wrt (\<lambda>x y. sl_Timestamp y \<le> sl_Timestamp x) (recent_swaps db)"
  unfolding recent_swaps_def by (rule sorted_wrt_take) (rule order_desc_sorted)

lemma in_listed:
  "(s, t) \<in> set (listed now db) \<longleftrightarrow> s \<in> set (latest_swaps (recent_swaps db)) \<and> t \<in> set (db_tokens db) \<and>
     rt_Address t = sl_Token s \<and> now - one_hour \<le> rt_CreatedTimestamp t"
  by (auto simp: listed_def recent_tokens_def)

lemma listed_distinct:
  assumes "distinct (map rt_Address (db_tokens db))"
  shows "distinct (map (sl_Token \<circ> fst) (listed now db))"
proof -
  have "distinct (latest_swaps (recent_swaps db))" "inj_on sl_Token (set (latest_swaps (recent_swaps db)))"
    using latest_distinct [of "recent_swaps db"] by (simp_all add: distinct_map)
  moreover have "distinct (recent_tokens now db)" "inj_on rt_Address (set (db_tokens db))"
    using assms by (simp_all add: distinct_map recent_tokens_def)
  ultimately have "distinct (listed now db)" "inj_on (sl_Token \<circ> fst) (set (listed now db))"
    by (auto simp: listed_def distinct_product recent_tokens_def inj_on_def)
  then show ?thesis by (simp add: distinct_map)
qed

section \<open>Property\<close>

text \<open>
  C40: FindTopRecentTokens lists exactly the tokens created within the last hour that were swapped among the
  latest two thousand swaps, each once, by non-increasing market value: the price of a latest swap of
  the token times its supply.
\<close>

theorem FindTopRecentTokens_exact:
  assumes "FindTopRecentTokens evaluates up now db = Inr results" "db_ok db"
  shows "sorted_wrt (\<lambda>x y. snd y \<le> snd x) results \<and> distinct (map fst results) \<and>
     (\<forall>t \<in> set (db_tokens db). rt_Address t \<in> fst ` set results \<longleftrightarrow>
        now - one_hour \<le> rt_CreatedTimestamp t \<and> rt_Address t \<in> sl_Token ` set (recent_swaps db)) \<and>
     (\<forall>(token, cap) \<in> set results. \<exists>t \<in> set (db_tokens db). \<exists>s \<in> set (recent_swaps db).
        rt_Address t = token \<and> sl_Token s = token \<and> market_cap (s, t) = Some cap \<and>
        (\<forall>r \<in> set (recent_swaps db). sl_Token r = token \<longrightarrow> sl_Timestamp r \<le> sl_Timestamp s))"
proof -
  let ?rows = "map (\<lambda>(s, t). (sl_Token s, the (market_cap (s, t)))) (listed now db)"
  have res: "results = order_desc snd ?rows" and some: "None \<notin> market_cap ` set (listed now db)"
    using assms(1) by (auto simp: FindTopRecentTokens_def sqlx_scan_def split: if_splits)
  have keys: "map fst ?rows = map (sl_Token \<circ> fst) (listed now db)" by auto
  have "distinct (map rt_Address (db_tokens db))" using assms(2) by (simp add: db_ok_def)
  then have d: "distinct (map fst results)" unfolding res order_desc_distinct keys by (rule listed_distinct)
  have fsts: "fst ` set results = sl_Token ` fst ` set (listed now db)"
    unfolding res order_desc_set by (simp add: image_image case_prod_beta)
  have mem: "rt_Address t \<in> fst ` set results \<longleftrightarrow>
      now - one_hour \<le> rt_CreatedTimestamp t \<and> rt_Address t \<in> sl_Token ` set (recent_swaps db)" if t: "t \<in> set (db_tokens db)" for t
  proof
    assume "rt_Address t \<in> fst ` set results"
    then obtain s u where u: "(s, u) \<in> set (listed now db)" "rt_Address t = sl_Token s" unfolding fsts by force
    have "inj_on rt_Address (set (db_tokens db))" using assms(2) by (simp add: db_ok_def distinct_map)
    then have "u = t" by (rule inj_onD) (use t u in \<open>simp_all add: in_listed\<close>)
    then show "now - one_hour \<le> rt_CreatedTimestamp t \<and> rt_Address t \<in> sl_Token ` set (recent_swaps db)"
      using u latest_subset by (auto simp: in_listed)
  next
    assume r: "now - one_hour \<le> rt_CreatedTimestamp t \<and> rt_Address t \<in> sl_Token ` set (recent_swaps db)"
    then obtain s where "s \<in> set (latest_swaps (recent_swaps db))" "sl_Token s = rt_Address t" using latest_covers by force
    then have "(s, t) \<in> set (listed now db)" using r t by (simp add: in_listed)
    then show "rt_Address t \<in> fst ` set results" unfolding fsts using \<open>sl_Token s = rt_Address t\<close> by force
  qed
  have vals: "\<exists>t \<in> set (db_tokens db). \<exists>s \<in> set (recent_swaps db).
      rt_Address t = fst x \<and> sl_Token s = fst x \<and> market_cap (s, t) = Some (snd x) \<and>
      (\<forall>r \<in> set (recent_swaps db). sl_Token r = fst x \<longrightarrow> sl_Timestamp r \<le> sl_Timestamp s)" if x: "x \<in> set results" for x
  proof -
    obtain s t where l: "(s, t) \<in> set (listed now db)" "x = (sl_Token s, the (market_cap (s, t)))"
      using x unfolding res order_desc_set by auto
    have m: "market_cap (s, t) = Some (snd x)" using some l by (cases "market_cap (s, t)") force+
    have "s \<in> set (latest_swaps (recent_swaps db))" using l(1) by (simp add: in_listed)
    then show ?thesis using l m latest_subset latest_is_latest [OF recent_sorted] by (fastforce simp: in_listed)
  qed
  have "sorted_wrt (\<lambda>x y. snd y \<le> snd x) results" unfolding res by (rule order_desc_sorted)
  then show ?thesis using d mem vals by (simp add: case_prod_beta)
qed

text \<open>One listed token whose latest purchase brought nothing fails the query for all of them.\<close>

lemma zero_amount_fails:
  assumes "(s, t) \<in> set (listed now db)" "sl_Action s = ''BUY''" "sl_AmountIn s = Fin 0" "sl_AmountOut s \<noteq> NaN"
  shows "TopTokensHandler evaluates True now db = Failed 500"
proof -
  have "market_cap (s, t) = None" using assms(2-4) by (simp add: market_cap_def swap_price_def pg_div_def)
  then have "None \<in> market_cap ` set (listed now db)" using assms(1) by force
  then show ?thesis by (simp add: TopTokensHandler_def FindTopRecentTokens_def)
qed

section \<open>Witness\<close>

definition top_db :: database where
  "top_db = empty_db\<lparr>
     db_swaps := [plain_log ''a'' ''BUY'' (Fin 4) (Fin 2) 5, plain_log ''b'' ''SELL'' (Fin 2) (Fin 6) 7],
     db_tokens := [\<lparr>rt_Address = ''mint'', rt_Name = ''n'', rt_Symbol = ''s'', rt_Decimals = 6, rt_Supply = Fin 10, rt_CreatedBlock = 1,
       rt_CreatedTimestamp = 3, rt_Deployer = None, rt_Metadata = None, rt_Network = ''solana''\<rparr>]\<rparr>"

lemma FindTopRecentTokens_exact_witness:
  "FindTopRecentTokens (\<lambda>s. True) True 9 top_db = Inr [(''mint'', Fin 30)] \<and> distinct (map fst [(''mint'', Fin 30 :: gonum)]) \<and>
   (\<exists>t \<in> set (db_tokens top_db). \<exists>s \<in> set (recent_swaps top_db). market_cap (s, t) = Some (Fin 30))"
proof -
  have r: "FindTopRecentTokens (\<lambda>s. True) True 9 top_db = Inr [(''mint'', Fin 30)]" by code_simp
  have "db_ok top_db" by code_simp
  from FindTopRecentTokens_exact [OF r this] r show ?thesis by auto
qed

end
