(* ===== verification/Startup.thy ===== *)
theory Startup
  imports Backfill Tracker
begin

text \<open>
  How the four programs start: the environment and the connections (internal/utils/utils.go), the tables
  they create (internal/db/timescale_repo.go) and the main functions of cmd/api, cmd/txProcessor,
  cmd/listener and cmd/backfill, up to the point where they serve. A main function that ends the
  process with log.Fatalf is \<open>Inl Fatal\<close>; what goes wrong outside (the driver, the server, the node,
  the message broker) is an argument.
\<close>

section \<open>The environment\<close>

type_synonym environment = "string \<rightharpoonup> string"

definition Getenv :: "environment \<Rightarrow> string \<Rightarrow> string" where
  "Getenv env name = (case env name of None \<Rightarrow> [] | Some v \<Rightarrow> v)"

text \<open>
  Loading a file sets the variables that are not set yet. \<open>dotenv\<close> gives the variables of a file, \<open>None\<close>
  when it cannot be read; the error is only logged.
\<close>

definition load_file :: "environment option \<Rightarrow> environment \<Rightarrow> environment" where
  "load_file file env = (case file of None \<Rightarrow> env | Some vars \<Rightarrow> vars ++ env)"

definition LoadEnvironment :: "(string \<Rightarrow> environment option) \<Rightarrow> environment \<Rightarrow> environment" where
  "LoadEnvironment dotenv env =
     (if Getenv env ''ENV'' \<noteq> [] then env
      else
        let APP_ENV = map upper_char (Getenv env ''APP_ENV'') in
        if APP_ENV = ''PRODUCTION'' then load_file (dotenv ''.env'') env
        else if APP_ENV = ''DEVELOPMENT'' then load_file (dotenv ''.env.development'') env
        else env)"

text \<open>Flags of the command line that may be repeated, and a list of known tokens; no program uses them.\<close>

type_synonym array_flags = "string list"

definition ArrayFlags_String :: "array_flags \<Rightarrow> string" where
  "ArrayFlags_String i = ''string representation of flag''"

definition ArrayFlags_Set :: "string \<Rightarrow> array_flags \<Rightarrow> array_flags" where
  "ArrayFlags_Set x i = i @ [x]"

record token_entry =
  te_Name :: string
  te_Symbol :: string
  te_Address :: string
  te_Decimals :: "8 word"
  te_LogoURI :: string
  te_Extensions :: "string \<rightharpoonup> string"

record token_list =
  tl_Tokens :: "string \<rightharpoonup> token_entry"

section \<open>Tables\<close>

text \<open>The columns with their types and constraints, and the primary key.\<close>

record table =
  tb_Name :: string
  tb_Columns :: "(string \<times> string) list"
  tb_Key :: "string list"

type_synonym schema = "string \<rightharpoonup> table"

datatype statement = SetApplicationName string | CreateTable table | CreateHypertable string string

text \<open>
  What the driver and the server do: opening the connection string, the ping, and each statement. CREATE TABLE IF
  NOT EXISTS leaves a table that exists as it is; partitioning does not change its columns.
\<close>

record server =
  sv_open :: "string \<Rightarrow> bool"
  sv_ping :: bool
  sv_exec :: "statement \<Rightarrow> bool"

definition run_statement :: "statement \<Rightarrow> schema \<Rightarrow> schema" where
  "run_statement s sch =
     (case s of
        CreateTable t \<Rightarrow> if tb_Name t \<in> dom sch then sch else sch(tb_Name t \<mapsto> t)
      | _ \<Rightarrow> sch)"

definition ExecContext :: "server \<Rightarrow> statement \<Rightarrow> schema \<Rightarrow> bool \<times> schema" where
  "ExecContext sv s sch = (if sv_exec sv s then (True, run_statement s sch) else (False, sch))"

definition token_table :: table where
  "token_table = \<lparr>tb_Name = ''token'',
     tb_Columns = [(''address'', ''TEXT NOT NULL''), (''name'', ''TEXT NOT NULL''), (''symbol'', ''TEXT NOT NULL''),
       (''decimals'', ''INT NOT NULL''), (''supply'', ''DOUBLE PRECISION NOT NULL DEFAULT 0''),
       (''createdBlock'', ''INT NOT NULL DEFAULT 0''), (''createdTimestamp'', ''TIMESTAMP NOT NULL DEFAULT CURRENT_TIMESTAMP''),
       (''deployer'', ''TEXT''), (''metadata'', ''TEXT''), (''network'', ''TEXT NOT NULL'')],
     tb_Key = [''address'']\<rparr>"

definition pair_table :: table where
  "pair_table = \<lparr>tb_Name = ''pair'',
     tb_Columns = [(''address'', ''TEXT NOT NULL''), (''token'', ''TEXT NOT NULL''), (''quoteToken'', ''TEXT NOT NULL''),
       (''createdBlock'', ''INT NOT NULL DEFAULT 0''), (''createdTimestamp'', ''TIMESTAMP NOT NULL DEFAULT CURRENT_TIMESTAMP''),
       (''exchange'', ''TEXT NOT NULL''), (''network'', ''TEXT NOT NULL'')],
     tb_Key = [''address'']\<rparr>"

definition processed_blocks_table :: table where
  "processed_blocks_table = \<lparr>tb_Name = ''processed_block'',
     tb_Columns = [(''blockNumber'', ''INT NOT NULL DEFAULT 0''), (''solUsdPrice'', ''DOUBLE PRECISION NOT NULL DEFAULT 0'')],
     tb_Key = [''blockNumber'']\<rparr>"

definition swaps_table :: table where
  "swaps_table = \<lparr>tb_Name = ''swap_log'',
     tb_Columns = [(''id'', ''TEXT NOT NULL''), (''wallet'', ''TEXT NOT NULL''), (''source'', ''TEXT NOT NULL''),
       (''blockNumber'', ''INT NOT NULL DEFAULT 0''), (''timestamp'', ''TIMESTAMP NOT NULL''),
       (''amountOut'', ''DOUBLE PRECISION NOT NULL DEFAULT 0''), (''amountIn'', ''DOUBLE PRECISION NOT NULL DEFAULT 0''),
       (''action'', ''TEXT''), (''pair'', ''TEXT NOT NULL''), (''token'', ''TEXT NOT NULL''),
       (''processed'', ''BOOLEAN DEFAULT FALSE NOT NULL'')],
     tb_Key = [''id'', ''pair'', ''action'', ''amountIn'', ''amountOut'', ''blockNumber'', ''timestamp'']\<rparr>"

definition create_or_die :: "server \<Rightarrow> table \<Rightarrow> schema \<Rightarrow> unit go \<times> schema" where
  "create_or_die sv t sch = (case ExecContext sv (CreateTable t) sch of (okay, sch) \<Rightarrow> (if okay then Inr () else Inl Fatal, sch))"

definition CreateTokenTable :: "server \<Rightarrow> schema \<Rightarrow> unit go \<times> schema" where
  "CreateTokenTable sv = create_or_die sv token_table"

definition CreatePairTable :: "server \<Rightarrow> schema \<Rightarrow> unit go \<times> schema" where
  "CreatePairTable sv = create_or_die sv pair_table"

definition CreateProcessedBlocksTable :: "server \<Rightarrow> schema \<Rightarrow> unit go \<times> schema" where
  "CreateProcessedBlocksTable sv = create_or_die sv processed_blocks_table"

text \<open>A failure to partition the table is only logged.\<close>

definition ConvertHyperTable :: "server \<Rightarrow> string \<Rightarrow> schema \<Rightarrow> schema" where
  "ConvertHyperTable sv tableName sch = snd (ExecContext sv (CreateHypertable tableName ''timestamp'') sch)"

definition CreateSwapsTable :: "server \<Rightarrow> schema \<Rightarrow> unit go \<times> schema" where
  "CreateSwapsTable sv sch =
     (case create_or_die sv swaps_table sch of
        (Inl e, sch) \<Rightarrow> (Inl e, sch)
      | (Inr _, sch) \<Rightarrow> (Inr (), ConvertHyperTable sv (tb_Name swaps_table) sch))"

section \<open>Connections\<close>

datatype connect_error = ConnNotSet | ServiceNotSet | OpenFailed | PingFailed | NameFailed

text \<open>The first of the steps that ends the process stops the others.\<close>

fun create_all :: "(schema \<Rightarrow> unit go \<times> schema) list \<Rightarrow> schema \<Rightarrow> unit go \<times> schema" where
  "create_all [] sch = (Inr (), sch)"
| "create_all (c # cs) sch = (case c sch of (Inl e, sch) \<Rightarrow> (Inl e, sch) | (Inr _, sch) \<Rightarrow> create_all cs sch)"

definition GetDBConnection :: "environment \<Rightarrow> server \<Rightarrow> schema \<Rightarrow> connect_error option go \<times> schema" where
  "GetDBConnection env sv sch =
     (let conn = Getenv env ''POSTGRES_CONN_STRING''; serviceName = Getenv env ''POSTGRES_SERVICE_NAME'' in
      if conn = [] then (Inr (Some ConnNotSet), sch)
      else if serviceName = [] then (Inr (Some ServiceNotSet), sch)
      else if \<not> sv_open sv conn then (Inr (Some OpenFailed), sch)
      else if \<not> sv_ping sv then (Inr (Some PingFailed), sch)
      else
        case ExecContext sv (SetApplicationName serviceName) sch of (okay, sch) \<Rightarrow>
          if \<not> okay then (Inr (Some NameFailed), sch)
          else
            case create_all [CreateSwapsTable sv, CreateProcessedBlocksTable sv, CreateTokenTable sv, CreatePairTable sv] sch of
              (Inl e, sch) \<Rightarrow> (Inl e, sch)
            | (Inr _, sch) \<Rightarrow> (Inr None, sch))"

text \<open>The client of the document store, which no program asks for: \<open>connect\<close> and \<open>ping\<close> are the driver's.\<close>

datatype mongo_error = MongoConnect | MongoPing

definition GetMongoConnection :: "environment \<Rightarrow> (string \<Rightarrow> bool) \<Rightarrow> bool \<Rightarrow> (mongo_error + string) go" where
  "GetMongoConnection env connect ping =
     (let uri = Getenv env ''MONGO_CONN_STRING'' in
      if uri = [] then Inl Fatal
      else if \<not> connect uri then Inr (Inl MongoConnect)
      else if \<not> ping then Inr (Inl MongoPing)
      else Inr (Inr uri))"

definition rabbitMQURL :: "environment \<Rightarrow> string" where
  "rabbitMQURL env = ''amqp://'' @ Getenv env ''RABBIT_MQ_USER'' @ '':'' @ Getenv env ''RABBIT_MQ_PASS'' @ ''@'' @
     Getenv env ''RABBIT_MQ_HOST'' @ '':'' @ Getenv env ''RABBIT_MQ_PORT'' @ ''/'' @ Getenv env ''RABBIT_MQ_VHOST''"

text \<open>The endpoint of the node; a node that does not answer GetVersion is only logged.\<close>

definition NewSolanaService :: "environment \<Rightarrow> string" where
  "NewSolanaService env = Getenv env ''SOL_HTTPS''"

section \<open>The programs\<close>

record node =
  nd_Name :: string
  nd_Url :: string

definition NewNode :: "string \<Rightarrow> string \<Rightarrow> node" where
  "NewNode name url = \<lparr>nd_Name = name, nd_Url = url\<rparr>"

definition new_nodes :: "string list \<Rightarrow> node list" where
  "new_nodes nodeUrls = map (\<lambda>(i, url). NewNode (''node '' @ int_text (int i)) url) (enumerate 0 nodeUrls)"

text \<open>What a program meets: the variables, their files, the database server, the broker at each URL, and whether the
  system lets it listen on an address.\<close>

record outside =
  os_env :: environment
  os_dotenv :: "string \<Rightarrow> environment option"
  os_server :: server
  os_dial :: "string \<Rightarrow> bool \<times> bool"
  os_declare :: bool
  os_consume :: bool
  os_listen :: "string \<Rightarrow> bool"

definition with_db :: "outside \<Rightarrow> schema \<Rightarrow> (environment \<Rightarrow> 'a go) \<Rightarrow> 'a go \<times> schema" where
  "with_db os sch program =
     (let env = LoadEnvironment (os_dotenv os) (os_env os) in
      case GetDBConnection env (os_server os) sch of
        (Inl e, sch) \<Rightarrow> (Inl e, sch)
      | (Inr (Some e), sch) \<Rightarrow> (Inl Fatal, sch)
      | (Inr None, sch) \<Rightarrow> (program env, sch))"

definition NewSolanaQueueHandler :: "outside \<Rightarrow> environment \<Rightarrow> string go" where
  "NewSolanaQueueHandler os env =
     (let url = rabbitMQURL env in go_bind (connectToRabbitMQ (os_dial os url)) (\<lambda>_. Inr url))"

text \<open>The API only logs that it cannot listen, and then runs without serving until it is interrupted.\<close>

record api_program =
  ap_Addr :: string
  ap_Serving :: bool
  ap_Endpoint :: string
  ap_Nodes :: "node list"

definition api_nodes :: "environment \<Rightarrow> node list go" where
  "api_nodes env =
     (if Getenv env ''SOL_HTTPS_BACKFILL_NODES'' \<noteq> [] then Inr (new_nodes (str_split (Getenv env ''SOL_HTTPS_BACKFILL_NODES'') '',''))
      else Inl Fatal)"

definition api_main :: "outside \<Rightarrow> schema \<Rightarrow> api_program go \<times> schema" where
  "api_main os sch = with_db os sch (\<lambda>env.
     go_bind (api_nodes env) (\<lambda>nodes. Inr \<lparr>ap_Addr = '':8080'', ap_Serving = os_listen os '':8080'', ap_Endpoint = NewSolanaService env, ap_Nodes = nodes\<rparr>))"

record tx_program =
  xp_Addr :: string
  xp_Node :: string
  xp_Queue :: string
  xp_Pool :: pool

definition solanaTxHandler :: "outside \<Rightarrow> environment \<Rightarrow> tx_program go" where
  "solanaTxHandler os env =
     go_bind (NewSolanaQueueHandler os env) (\<lambda>queue.
       go_bind (ListenToSolanaQueue (os_declare os) (os_consume os)) (\<lambda>pool.
         Inr \<lparr>xp_Addr = '':8081'', xp_Node = NewSolanaService env, xp_Queue = queue, xp_Pool = pool\<rparr>))"

text \<open>Start of the websocket server: unlike the API it ends the process when it cannot listen.\<close>

definition Start :: "outside \<Rightarrow> unit go" where
  "Start os = (if os_listen os '':8081'' then Inr () else Inl Fatal)"

definition tx_main :: "outside \<Rightarrow> schema \<Rightarrow> tx_program go \<times> schema" where
  "tx_main os sch = with_db os sch (\<lambda>env. go_bind (Start os) (\<lambda>_. solanaTxHandler os env))"

record listener_program =
  lp_Address :: string
  lp_Token :: string
  lp_Queue :: string

definition solanaListener :: "outside \<Rightarrow> environment \<Rightarrow> listener_program go" where
  "solanaListener os env =
     (let grpcAddress = Getenv env ''SOL_GRPC'' in
      if grpcAddress = [] then Inl Fatal
      else
        let authToken = Getenv env ''SOL_GRPC_AUTH_TOKEN'' in
        go_bind (NewSolanaQueueHandler os env) (\<lambda>queue.
          Inr \<lparr>lp_Address = grpcAddress, lp_Token = authToken, lp_Queue = queue\<rparr>))"

definition listener_main :: "outside \<Rightarrow> listener_program go" where
  "listener_main os = solanaListener os (LoadEnvironment (os_dotenv os) (os_env os))"

record backfill_program =
  bp_Node :: string
  bp_Queue :: string
  bp_Nodes :: "node list"

definition backfill_main :: "outside \<Rightarrow> schema \<Rightarrow> backfill_program go \<times> schema" where
  "backfill_main os sch = with_db os sch (\<lambda>env.
     go_bind (NewSolanaQueueHandler os env) (\<lambda>queue.
       go_bind (backfill_nodes (Getenv env ''SOL_HTTPS_BACKFILL_NODES'')) (\<lambda>nodeUrls.
         Inr \<lparr>bp_Node = NewSolanaService env, bp_Queue = queue, bp_Nodes = new_nodes nodeUrls\<rparr>)))"

section \<open>Lemmas\<close>

lemma LoadEnvironment_keeps: "env \<subseteq>\<^sub>m LoadEnvironment dotenv env"
  by (auto simp: LoadEnvironment_def load_file_def Let_def map_le_def map_add_def split: option.split)

lemma run_statement_keeps: "sch \<subseteq>\<^sub>m run_statement s sch"
  by (cases s) (auto simp: run_statement_def map_le_def)

lemma ConvertHyperTable_same [simp]: "ConvertHyperTable sv name sch = sch"
  by (simp add: ConvertHyperTable_def ExecContext_def run_statement_def)

lemma CreateSwapsTable_create [simp]: "CreateSwapsTable sv sch = create_or_die sv swaps_table sch"
  by (simp add: CreateSwapsTable_def split: prod.split sum.split)

definition program_tables :: "table list" where
  "program_tables = [swaps_table, processed_blocks_table, token_table, pair_table]"

definition create_tables :: "table list \<Rightarrow> schema \<Rightarrow> schema" where
  "create_tables ts sch = foldl (\<lambda>sch t. run_statement (CreateTable t) sch) sch ts"

lemma create_tables_simps [simp]:
  "create_tables [] sch = sch"
  "create_tables (t # ts) sch = create_tables ts (run_statement (CreateTable t) sch)"
  by (simp_all add: create_tables_def)

lemma create_all_tables:
  "create_all (map (create_or_die sv) ts) sch = (Inr (), sch') \<longleftrightarrow>
     list_all (\<lambda>t. sv_exec sv (CreateTable t)) ts \<and> sch' = create_tables ts sch"
  by (induction ts arbitrary: sch) (auto simp: create_or_die_def ExecContext_def)

lemma create_all_keeps: "sch \<subseteq>\<^sub>m snd (create_all (map (create_or_die sv) ts) sch)"
proof (induction ts arbitrary: sch)
  case (Cons t ts)
  show ?case
    using Cons.IH [of "run_statement (CreateTable t) sch"] run_statement_keeps [of sch "CreateTable t"]
    by (auto simp: create_or_die_def ExecContext_def intro: map_le_trans)
qed simp

lemma steps_of_program_tables:
  "[CreateSwapsTable sv, CreateProcessedBlocksTable sv, CreateTokenTable sv, CreatePairTable sv] = map (create_or_die sv) program_tables"
  by (auto simp: program_tables_def CreateProcessedBlocksTable_def CreateTokenTable_def CreatePairTable_def)

text \<open>What the connection needs.\<close>

definition db_usable :: "environment \<Rightarrow> server \<Rightarrow> bool" where
  "db_usable env sv \<longleftrightarrow> Getenv env ''POSTGRES_CONN_STRING'' \<noteq> [] \<and> Getenv env ''POSTGRES_SERVICE_NAME'' \<noteq> [] \<and>
     sv_open sv (Getenv env ''POSTGRES_CONN_STRING'') \<and> sv_ping sv \<and>
     sv_exec sv (SetApplicationName (Getenv env ''POSTGRES_SERVICE_NAME'')) \<and>
     list_all (\<lambda>t. sv_exec sv (CreateTable t)) program_tables"

lemma GetDBConnection_ok:
  "GetDBConnection env sv sch = (Inr None, sch') \<longleftrightarrow> db_usable env sv \<and> sch' = create_tables program_tables sch"
proof (cases "create_all (map (create_or_die sv) program_tables) sch")
  case (Pair r s)
  have "r = Inr () \<and> s = sch' \<longleftrightarrow> list_all (\<lambda>t. sv_exec sv (CreateTable t)) program_tables \<and> sch' = create_tables program_tables sch"
    using create_all_tables [of sv program_tables sch sch'] Pair by simp
  then show ?thesis using Pair
    by (cases r) (auto simp: GetDBConnection_def steps_of_program_tables db_usable_def Let_def ExecContext_def run_statement_def)
qed

lemma GetDBConnection_keeps: "sch \<subseteq>\<^sub>m snd (GetDBConnection env sv sch)"
  using create_all_keeps [of sch sv program_tables]
  by (auto simp: GetDBConnection_def steps_of_program_tables Let_def ExecContext_def run_statement_def split: prod.split sum.split)

lemma create_all_same:
  "(\<And>t. t \<in> set ts \<Longrightarrow> tb_Name t \<in> dom sch) \<Longrightarrow> snd (create_all (map (create_or_die sv) ts) sch) = sch"
  by (induction ts) (auto simp: create_or_die_def ExecContext_def run_statement_def)

lemma GetDBConnection_rest:
  "(\<And>t. t \<in> set program_tables \<Longrightarrow> tb_Name t \<in> dom sch) \<Longrightarrow> snd (GetDBConnection env sv sch) = sch"
  using create_all_same [of program_tables sch sv]
  by (auto simp: GetDBConnection_def steps_of_program_tables Let_def ExecContext_def run_statement_def split: prod.split sum.split)

lemma with_db_Inr:
  "with_db os sch program = (Inr x, sch') \<longleftrightarrow>
     (let env = LoadEnvironment (os_dotenv os) (os_env os) in
      db_usable env (os_server os) \<and> sch' = create_tables program_tables sch \<and> program env = Inr x)"
proof (cases "GetDBConnection (LoadEnvironment (os_dotenv os) (os_env os)) (os_server os) sch")
  case (Pair r s)
  then show ?thesis
    using GetDBConnection_ok [of "LoadEnvironment (os_dotenv os) (os_env os)" "os_server os" sch s]
      GetDBConnection_ok [of "LoadEnvironment (os_dotenv os) (os_env os)" "os_server os" sch sch']
    by (auto simp: with_db_def Let_def split: sum.split option.split)
qed

lemma create_tables_kept: "sch \<subseteq>\<^sub>m create_tables ts sch"
proof (induction ts arbitrary: sch)
  case (Cons t ts)
  then show ?case using run_statement_keeps [of sch "CreateTable t"] by (auto intro: map_le_trans)
qed simp

lemma create_tables_present: "t \<in> set ts \<Longrightarrow> tb_Name t \<in> dom (create_tables ts sch)"
proof (induction ts arbitrary: sch)
  case (Cons t' ts)
  have "tb_Name t' \<in> dom (run_statement (CreateTable t') sch)" by (auto simp: run_statement_def)
  then have "tb_Name t' \<in> dom (create_tables ts (run_statement (CreateTable t') sch))"
    using map_le_implies_dom_le [OF create_tables_kept] by (rule rev_subsetD)
  then show ?case using Cons by (cases "t = t'") simp_all
qed simp

lemma create_tables_new:
  "distinct (map tb_Name ts) \<Longrightarrow> t \<in> set ts \<Longrightarrow> sch (tb_Name t) = None \<Longrightarrow> create_tables ts sch (tb_Name t) = Some t"
proof (induction ts arbitrary: sch)
  case (Cons t' ts)
  show ?case
  proof (cases "t' = t")
    case True
    have "run_statement (CreateTable t) sch (tb_Name t) = Some t" using Cons.prems(3) by (simp add: run_statement_def domIff)
    then show ?thesis using create_tables_kept [of "run_statement (CreateTable t) sch" ts] True
      by (metis create_tables_simps(2) domI map_le_def)
  next
    case False
    then have "t \<in> set ts" "tb_Name t \<noteq> tb_Name t'" using Cons.prems by (auto simp: image_iff)
    then show ?thesis using Cons by (simp add: run_statement_def)
  qed
qed simp

lemma program_tables_distinct: "distinct (map tb_Name program_tables)"
  by (simp add: program_tables_def swaps_table_def processed_blocks_table_def token_table_def pair_table_def)

section \<open>The programs start\<close>

text \<open>A database that cannot be used ends every program that needs it, and so does a port that is taken the
  transaction processor, but not the API, which then runs without serving.\<close>

lemma with_db_needed:
  "\<not> db_usable (LoadEnvironment (os_dotenv os) (os_env os)) (os_server os) \<Longrightarrow> fst (with_db os sch program) \<noteq> Inr x"
  by (cases "with_db os sch program") (auto simp: with_db_Inr Let_def)

lemma db_needed:
  assumes "\<not> db_usable (LoadEnvironment (os_dotenv os) (os_env os)) (os_server os)"
  shows "fst (api_main os sch) \<noteq> Inr p" "fst (tx_main os sch) \<noteq> Inr x" "fst (backfill_main os sch) \<noteq> Inr b"
  by (simp_all add: api_main_def tx_main_def backfill_main_def with_db_needed [OF assms])

lemma port_taken:
  assumes "\<not> os_listen os '':8081''"
  shows "fst (tx_main os sch) \<noteq> Inr x"
proof
  assume "fst (tx_main os sch) = Inr x"
  then obtain s where "tx_main os sch = (Inr x, s)" by (metis prod.collapse)
  then show False using assms by (auto simp: tx_main_def with_db_Inr Let_def Start_def)
qed

lemma api_without_port:
  assumes "api_main os sch = (Inr p, s)"
  shows "ap_Serving p \<longleftrightarrow> os_listen os '':8080''"
  using assms by (auto simp: api_main_def with_db_Inr Let_def go_bind_ok)

text \<open>The API has a first node, which its handlers ask for transactions.\<close>

lemma length_new_nodes: "length (new_nodes urls) = length urls"
  by (simp add: new_nodes_def)

lemma api_has_node:
  assumes "api_main os sch = (Inr p, s)"
  shows "ap_Nodes p \<noteq> []"
proof -
  obtain urls where "ap_Nodes p = new_nodes (str_split urls '','')"
    using assms by (auto simp: api_main_def with_db_Inr Let_def go_bind_ok api_nodes_def split: if_splits)
  then show ?thesis using length_new_nodes str_split_at_least by (metis length_0_conv)
qed

text \<open>C14: A program that got its connection finds the four tables: each as the code declares it, or as it was
  before. No table is ever changed or dropped, whatever fails on the way, and a later start changes nothing.\<close>

theorem tables_ready:
  assumes "GetDBConnection env sv sch = (Inr None, sch')"
  shows "list_all (\<lambda>t. sch' (tb_Name t) = Some (case sch (tb_Name t) of None \<Rightarrow> t | Some old \<Rightarrow> old))
      [swaps_table, processed_blocks_table, token_table, pair_table] \<and>
    sch \<subseteq>\<^sub>m snd (GetDBConnection env2 sv2 sch) \<and> snd (GetDBConnection env2 sv2 sch') = sch'"
proof (intro conjI)
  have sch': "sch' = create_tables program_tables sch" using assms by (simp add: GetDBConnection_ok)
  have "sch' (tb_Name t) = Some (case sch (tb_Name t) of None \<Rightarrow> t | Some old \<Rightarrow> old)" if "t \<in> set program_tables" for t
  proof (cases "sch (tb_Name t)")
    case None
    then show ?thesis using create_tables_new [OF program_tables_distinct that] by (simp add: sch')
  next
    case (Some old)
    then have "create_tables program_tables sch (tb_Name t) = Some old"
      using create_tables_kept [of sch program_tables] by (metis domI map_le_def)
    then show ?thesis using Some by (simp add: sch')
  qed
  then show "list_all (\<lambda>t. sch' (tb_Name t) = Some (case sch (tb_Name t) of None \<Rightarrow> t | Some old \<Rightarrow> old))
      [swaps_table, processed_blocks_table, token_table, pair_table]"
    by (simp add: program_tables_def)
  show "sch \<subseteq>\<^sub>m snd (GetDBConnection env2 sv2 sch)" by (rule GetDBConnection_keeps)
  show "snd (GetDBConnection env2 sv2 sch') = sch'" using create_tables_present unfolding sch'
    by (intro GetDBConnection_rest) blast
qed

text \<open>A server on which everything succeeds, and a database that has the table of tokens with another column.\<close>

definition working_server :: server where
  "working_server = \<lparr>sv_open = (\<lambda>_. True), sv_ping = True, sv_exec = (\<lambda>_. True)\<rparr>"

definition sample_env :: environment where
  "sample_env = [''POSTGRES_CONN_STRING'' \<mapsto> ''db'', ''POSTGRES_SERVICE_NAME'' \<mapsto> ''api'']"

lemma tables_ready_witness:
  "let old = token_table\<lparr>tb_Key := []\<rparr>; (r, sch') = GetDBConnection sample_env working_server [''token'' \<mapsto> old]
   in r = Inr None \<and> sch' ''token'' = Some old \<and> sch' ''pair'' = Some pair_table \<and>
      snd (GetDBConnection sample_env working_server sch') = sch'"
proof -
  let ?old = "token_table\<lparr>tb_Key := []\<rparr>"
  let ?sch = "create_tables program_tables [''token'' \<mapsto> ?old]"
  have start: "GetDBConnection sample_env working_server [''token'' \<mapsto> ?old] = (Inr None, ?sch)"
    by (simp add: GetDBConnection_ok db_usable_def sample_env_def Getenv_def working_server_def program_tables_def)
  show ?thesis using tables_ready [OF start, of sample_env working_server] start
    by (simp add: pair_table_def token_table_def)
qed

section \<open>The tables and the repository\<close>

text \<open>The columns the repository names are those of the tables, and the key by which it finds a stored swap is the primary key.\<close>

lemma columns_of_tables: "map fst (tb_Columns swaps_table) = swap_columns" "map fst (tb_Columns pair_table) = pair_columns"
  by (simp_all add: swaps_table_def pair_table_def swap_columns_def pair_columns_def)

datatype cell = TextCell string | DoubleCell gonum | TimeCell gotime | NumberCell "64 word" | BoolCell bool

definition swap_cell :: "swap_log \<Rightarrow> string \<Rightarrow> cell option" where
  "swap_cell s = [''id'' \<mapsto> TextCell (sl_ID s), ''wallet'' \<mapsto> TextCell (sl_Wallet s), ''source'' \<mapsto> TextCell (sl_Source s),
     ''blockNumber'' \<mapsto> NumberCell (sl_BlockNumber s), ''timestamp'' \<mapsto> TimeCell (sl_Timestamp s),
     ''amountOut'' \<mapsto> DoubleCell (sl_AmountOut s), ''amountIn'' \<mapsto> DoubleCell (sl_AmountIn s), ''action'' \<mapsto> TextCell (sl_Action s),
     ''pair'' \<mapsto> TextCell (sl_Pair s), ''token'' \<mapsto> TextCell (sl_Token s), ''processed'' \<mapsto> BoolCell (sl_Processed s)]"

lemma swap_cells_are_columns: "dom (swap_cell s) = set (map fst (tb_Columns swaps_table))"
  by (auto simp: swap_cell_def swaps_table_def)

lemma swap_key_is_primary: "swap_key r = swap_key s \<longleftrightarrow> map (swap_cell r) (tb_Key swaps_table) = map (swap_cell s) (tb_Key swaps_table)"
  by (auto simp: swap_key_def swap_cell_def swaps_table_def)

text \<open>The credentials are put into the URL as they are, so different ones can give the same URL.\<close>

lemma rabbitMQURL_ambiguous:
  "rabbitMQURL [''RABBIT_MQ_USER'' \<mapsto> ''u'', ''RABBIT_MQ_PASS'' \<mapsto> ''p@q'', ''RABBIT_MQ_HOST'' \<mapsto> ''h''] =
   rabbitMQURL [''RABBIT_MQ_USER'' \<mapsto> ''u'', ''RABBIT_MQ_PASS'' \<mapsto> ''p'', ''RABBIT_MQ_HOST'' \<mapsto> ''q@h'']"
  by (simp add: rabbitMQURL_def Getenv_def)

end
