(* ===== verification/Router.thy ===== *)
theory Router
  imports TopTokens Startup
begin

text \<open>
  The routes of the two servers: cmd/api/routes/handler.go for the API on :8080 and RegisterRoutes of
  cmd/api/websocket/main.go on :8081, with the handlers behind them. The router library is an
  argument: its search for the pattern of a path. Request identifiers, logging and the recoverer leave
  the answers as they are (a panic of a handler is answered with 500 in the handlers' own models); the
  timeout of two minutes is not modelled.
\<close>

section \<open>Requests and answers\<close>

text \<open>The method, the path, the key in the header X-API-KEY and the values of the query.\<close>

record request =
  rq_Method :: string
  rq_Path :: string
  rq_Key :: string
  rq_Query :: "string \<Rightarrow> string"

datatype reply =
    Plain string | Swagger
  | PairReply "pair \<times> quote_token" | TokenReply "token \<times> pair list" | PriceReply "gonum \<times> string \<times> string"
  | SearchReply "query_response list" | BundledReply "swap_log list \<times> token option" | SwapReply "swap_log option"
  | TradersReply "string list" | TopTokensReply "(string \<times> gonum) list"
  | PnlReply "aggregated_pnl option" | TokenPnlReply token_pnl_page | ActivityReply "swap_log list" | HoldingsReply gonum

datatype endpoint = Health | SwaggerFile | SwaggerPages
  | Search | PairLookup | TokenLookup | PriceLookup | CheckBundled | FindSwaps | TopTraders | TopTokensList
  | AggregatedPnl | TokenPnl | WalletActivity | HoldingsLookup

text \<open>
  The services of the handler: the pricer, the two finders, the repository on its database, the first node
  (the program does not start without one), and what the server's clock, rounding and scheduling decide.
\<close>

record handler =
  ha_price :: "string \<Rightarrow> gonum"
  ha_findToken :: "string \<Rightarrow> (token option \<times> pair list option) res"
  ha_findPair :: "string \<Rightarrow> (pair \<times> quote_token) res"
  ha_up :: bool
  ha_db :: database
  ha_getTx :: "string \<Rightarrow> string list option"
  ha_now :: gotime
  ha_oor :: int
  ha_order :: "swap_log list list \<Rightarrow> swap_log list list"
  ha_evaluates :: "swap_log \<Rightarrow> bool"

definition pnl_services :: "handler \<Rightarrow> pnl_env" where
  "pnl_services h = \<lparr>pe_oor = ha_oor h, pe_price = ha_price h, pe_latest = (\<lambda>pair. FindLatestSwap (ha_up h) pair (ha_db h))\<rparr>"

definition URLParam :: "(string \<rightharpoonup> string) \<Rightarrow> string \<Rightarrow> string" where
  "URLParam params name = (case params name of None \<Rightarrow> [] | Some v \<Rightarrow> v)"

definition HealthCheckHandler :: "string answer" where
  "HealthCheckHandler = Answer ''OK''"

text \<open>The handler of an endpoint, with the parameters of the path and of the query it reads.\<close>

definition run_endpoint :: "handler \<Rightarrow> request \<Rightarrow> (string \<rightharpoonup> string) \<Rightarrow> endpoint \<Rightarrow> reply answer go" where
  "run_endpoint h rq params e =
     (let arg = URLParam params; query = rq_Query rq; up = ha_up h; db = ha_db h in
      case e of
        Health \<Rightarrow> Inr (map_answer Plain HealthCheckHandler)
      | SwaggerFile \<Rightarrow> Inr (Answer Swagger)
      | SwaggerPages \<Rightarrow> Inr (Answer Swagger)
      | Search \<Rightarrow> Inr (map_answer SearchReply (SearchQueryHandler up (query ''q'') db))
      | PairLookup \<Rightarrow> Inr (map_answer PairReply (PairLookupHandler (ha_findPair h) (arg ''pair'')))
      | TokenLookup \<Rightarrow> Inr (map_answer TokenReply (TokenLookupHandler (ha_findToken h) (arg ''token'')))
      | PriceLookup \<Rightarrow> Inr (map_answer PriceReply (PriceLookupHandler (ha_price h) (arg ''symbol'')))
      | CheckBundled \<Rightarrow> Inr (map_answer BundledReply
          (CheckBundledHandler (\<lambda>a. map_sum id fst (ha_findToken h a)) (ha_getTx h) up (arg ''token'') db))
      | FindSwaps \<Rightarrow> Inr (map_answer SwapReply (FindSwapHandler up (arg ''token'') (arg ''amount'') (arg ''timestamp'') db))
      | TopTraders \<Rightarrow> Inr (map_answer TradersReply (TopTradersHandler up (arg ''token'') (query ''limit'') db))
      | TopTokensList \<Rightarrow> Inr (map_answer TopTokensReply (TopTokensHandler (ha_evaluates h) up (ha_now h) db))
      | AggregatedPnl \<Rightarrow> map_sum id (map_answer PnlReply)
          (AggregatedPnlHandler (pnl_services h) (ha_order h) up (ha_now h) (arg ''wallet'') (query ''timeframe'') db)
      | TokenPnl \<Rightarrow> map_sum id (map_answer TokenPnlReply)
          (TokenPnlHandler (pnl_services h) up (ha_now h) (arg ''wallet'') (query ''timeframe'') (query ''page'') db)
      | WalletActivity \<Rightarrow> Inr (map_answer ActivityReply
          (WalletActivityHandler up (arg ''wallet'') (query ''limit'') (query ''offset'') db))
      | HoldingsLookup \<Rightarrow> Inr (map_answer HoldingsReply (HoldingsLookupHandler up (arg ''token'') (arg ''wallet'') db)))"

section \<open>Routes\<close>

type_synonym routes = "(string \<times> endpoint) list"

text \<open>The search of the library: the pattern of a path and the parameters, or none.\<close>

type_synonym search = "string list \<Rightarrow> string \<Rightarrow> (string \<times> (string \<rightharpoonup> string)) option"

text \<open>The router library: the methods it knows, and its search. A request with another method is refused before anything is searched.\<close>

record router =
  ro_knows :: "string \<Rightarrow> bool"
  ro_search :: search

definition routed :: "router \<Rightarrow> request \<Rightarrow> 'a answer go \<Rightarrow> 'a answer go" where
  "routed R rq next' = (if \<not> ro_knows R (rq_Method rq) then Inr (Failed 405) else next')"

definition open_routes :: routes where
  "open_routes = [(''/health'', Health), (''/swagger/swagger.json'', SwaggerFile), (''/swagger/*'', SwaggerPages)]"

definition v1_routes :: routes where
  "v1_routes = [(''/search'', Search),
     (''/pair/{pair}'', PairLookup), (''/token/{token}'', TokenLookup), (''/price/{symbol}'', PriceLookup),
     (''/check-bundled/{token}'', CheckBundled), (''/find-swap/{token}/{amount}/{timestamp}'', FindSwaps),
     (''/top-traders/{token}'', TopTraders), (''/top-tokens'', TopTokensList),
     (''/pnl/{wallet}'', AggregatedPnl), (''/token-pnl/{wallet}'', TokenPnl),
     (''/activity/{wallet}'', WalletActivity), (''/holdings/{wallet}/{token}'', HoldingsLookup)]"

text \<open>Every route is declared for GET.\<close>

definition get_route :: "handler \<Rightarrow> request \<Rightarrow> routes \<Rightarrow> string \<times> (string \<rightharpoonup> string) \<Rightarrow> reply answer go" where
  "get_route h rq routes = (\<lambda>(pattern, params).
     case map_of routes pattern of
       None \<Rightarrow> Inr (Failed 404)
     | Some e \<Rightarrow> if rq_Method rq = ''GET'' then run_endpoint h rq params e else Inr (Failed 405))"

definition with_key :: "request \<Rightarrow> 'a answer go \<Rightarrow> 'a answer go" where
  "with_key rq next' =
     (case APIKeyMiddleware (rq_Key rq) Answer of Answer key \<Rightarrow> next' | Failed n \<Rightarrow> Inr (Failed n) | Silent \<Rightarrow> Inr Silent)"

text \<open>
  Route mounts the second table under /v1: its middleware runs before it is searched for the rest of the path.
\<close>

definition mounted :: "string list" where
  "mounted = [''/v1'', ''/v1/'', ''/v1/*'']"

definition GetHttpHandler :: "router \<Rightarrow> handler \<Rightarrow> request \<Rightarrow> reply answer go" where
  "GetHttpHandler R h rq = routed R rq
     (case ro_search R (map fst open_routes @ mounted) (rq_Path rq) of
        None \<Rightarrow> Inr (Failed 404)
      | Some (pattern, params) \<Rightarrow>
          if pattern \<in> set mounted then
            with_key rq (routed R rq
              (case ro_search R (map fst v1_routes) (CHR ''/'' # URLParam params ''*'') of
                 None \<Rightarrow> Inr (Failed 404)
               | Some found \<Rightarrow> get_route h rq v1_routes found))
          else get_route h rq open_routes (pattern, params))"

text \<open>The websocket server has one route, for every method the router knows; \<open>accept\<close> is the connection's answer.\<close>

definition RegisterRoutes :: "router \<Rightarrow> 'a answer go \<Rightarrow> request \<Rightarrow> 'a answer go" where
  "RegisterRoutes R accept rq = routed R rq
     (case ro_search R [''/v1/ws''] (rq_Path rq) of None \<Rightarrow> Inr (Failed 404) | Some _ \<Rightarrow> with_key rq accept)"

section \<open>Patterns\<close>

text \<open>
  The documented meaning of patterns: between slashes, a name in braces stands for any text without a
  slash and gives it to the parameter, a final star stands for the rest of the path.
\<close>

fun segments :: "string \<Rightarrow> string list" where
  "segments [] = [[]]"
| "segments (c # s) = (case segments s of [] \<Rightarrow> [[c]] | p # ps \<Rightarrow> if c = CHR ''/'' then [] # p # ps else (c # p) # ps)"

fun join_path :: "string list \<Rightarrow> string" where
  "join_path [] = []"
| "join_path [s] = s"
| "join_path (s # ss) = s @ CHR ''/'' # join_path ss"

fun fits :: "string list \<Rightarrow> string list \<Rightarrow> (string \<rightharpoonup> string) option" where
  "fits [] [] = Some Map.empty"
| "fits [] (s # ss) = None"
| "fits (p # ps) [] = None"
| "fits (p # ps) (s # ss) =
     (if p = ''*'' then Some [''*'' \<mapsto> join_path (s # ss)]
      else if p \<noteq> [] \<and> hd p = CHR ''{'' then map_option (\<lambda>m. m(butlast (tl p) \<mapsto> s)) (fits ps ss)
      else if p = s then fits ps ss
      else None)"

definition path_fits :: "string \<Rightarrow> string \<Rightarrow> (string \<rightharpoonup> string) option" where
  "path_fits pattern path = fits (segments pattern) (segments path)"

text \<open>
  The search returns a pattern the path fits, with its parameters; it may fail only when each pattern that fits has an
  empty parameter.
\<close>

definition follows_patterns :: "search \<Rightarrow> bool" where
  "follows_patterns search \<longleftrightarrow> (\<forall>patterns path.
     case search patterns path of
       None \<Rightarrow> \<forall>p \<in> set patterns. \<forall>params. path_fits p path = Some params \<longrightarrow> (\<exists>name. name \<noteq> ''*'' \<and> params name = Some [])
     | Some (p, params) \<Rightarrow> p \<in> set patterns \<and> path_fits p path = Some params)"

section \<open>Lemmas\<close>

lemma segments_nonempty [simp]: "segments s \<noteq> []"
  by (induction s) (auto split: list.split)

lemma join_segments [simp]: "join_path (segments s) = s"
proof (induction s)
  case (Cons c s)
  obtain x xs where s: "segments s = x # xs" by (cases "segments s") auto
  show ?case using Cons s by (cases xs) auto
qed simp

lemma follows_case: "follows_patterns search \<Longrightarrow>
    (case search patterns path of
       None \<Rightarrow> \<forall>p \<in> set patterns. \<forall>params. path_fits p path = Some params \<longrightarrow> (\<exists>name. name \<noteq> ''*'' \<and> params name = Some [])
     | Some (p, params) \<Rightarrow> p \<in> set patterns \<and> path_fits p path = Some params)"
  by (simp add: follows_patterns_def)

lemma follows_Some: "follows_patterns search \<Longrightarrow> search patterns path = Some (p, params) \<Longrightarrow> p \<in> set patterns \<and> path_fits p path = Some params"
  by (drule follows_case [of search patterns path]) simp

lemma follows_None:
  "follows_patterns search \<Longrightarrow> search patterns path = None \<Longrightarrow> p \<in> set patterns \<Longrightarrow> path_fits p path = Some params \<Longrightarrow>
     \<exists>name. name \<noteq> ''*'' \<and> params name = Some []"
  by (drule follows_case [of search patterns path]) simp

lemma with_key_rejects [simp]: "rq_Key rq \<notin> set api_keys \<Longrightarrow> with_key rq next' = Inr (Failed 401)"
  by (simp add: with_key_def APIKeyMiddleware_def)

lemma with_key_passes [simp]: "rq_Key rq \<in> set api_keys \<Longrightarrow> with_key rq next' = next'"
  by (simp add: with_key_def APIKeyMiddleware_def)

text \<open>Every pattern starts with a fixed word.\<close>

definition static :: "string \<Rightarrow> bool" where
  "static p \<longleftrightarrow> p \<noteq> ''*'' \<and> (p = [] \<or> hd p \<noteq> CHR ''{'')"

definition word :: "string \<Rightarrow> string" where
  "word pattern = hd (tl (segments pattern))"

definition shaped :: "string \<Rightarrow> bool" where
  "shaped p \<longleftrightarrow> hd (segments p) = [] \<and> tl (segments p) \<noteq> [] \<and> static (word p)"

lemma fits_static: "fits (p # ps) ss = Some m \<Longrightarrow> static p \<Longrightarrow> \<exists>ss'. ss = p # ss' \<and> fits ps ss' = Some m"
  by (cases ss) (auto simp: static_def split: if_splits)

lemma shaped_fits:
  assumes "shaped p" "path_fits p path = Some params"
  shows "\<exists>ss. segments path = [] # word p # ss"
proof -
  obtain ps where ps: "segments p = [] # word p # ps" "static (word p)"
    using assms(1) by (cases "segments p"; cases "tl (segments p)") (auto simp: shaped_def word_def)
  have "static []" by (simp add: static_def)
  from fits_static [OF assms(2) [unfolded path_fits_def ps(1)] this] obtain ss where
    "segments path = [] # ss" "fits (word p # ps) ss = Some params" by blast
  with fits_static [OF this(2) ps(2)] show ?thesis by blast
qed

lemma routes_shaped: "list_all shaped (map fst open_routes @ map fst v1_routes)"
  by (simp add: open_routes_def v1_routes_def shaped_def word_def static_def)

lemma words: "''v1'' \<notin> set (map word (map fst open_routes))" "distinct (map word (map fst v1_routes))"
  by (simp_all add: open_routes_def v1_routes_def word_def)

lemma v1_distinct: "distinct (map fst v1_routes)"
  using words(2) by (metis distinct_map)

text \<open>What lies under /v1 reaches the mounted table, with the rest of the path.\<close>

lemma mounted_rest:
  assumes "pattern \<in> set mounted" "path_fits pattern (''/v1/'' @ rest) = Some params"
  shows "URLParam params ''*'' = rest"
proof -
  obtain s ss where s: "segments rest = s # ss" by (cases "segments rest") auto
  then have rest: "rest = join_path (s # ss)" using join_segments [of rest] by simp
  consider "pattern = ''/v1''" | "pattern = ''/v1/''" | "pattern = ''/v1/*''" using assms(1) by (auto simp: mounted_def)
  then show ?thesis
  proof cases
    case 2
    then show ?thesis using assms(2) s rest by (cases "s = []"; cases ss) (auto simp: path_fits_def URLParam_def)
  qed (use assms(2) s rest in \<open>auto simp: path_fits_def URLParam_def\<close>)
qed

lemma open_not_v1:
  assumes "pattern \<in> set (map fst open_routes)" "segments path = [] # ''v1'' # ss"
  shows "path_fits pattern path = None"
proof (rule ccontr)
  assume "path_fits pattern path \<noteq> None"
  then obtain params where "path_fits pattern path = Some params" by blast
  moreover have "shaped pattern" using assms(1) routes_shaped by (auto simp: list_all_iff)
  ultimately have "word pattern = ''v1''" using shaped_fits assms(2) by fastforce
  then show False using assms(1) words(1) by force
qed

lemma reaches_mount:
  assumes "follows_patterns search" "segments path = [] # ''v1'' # ss"
    and "m \<in> set mounted" "path_fits m path = Some mparams" "\<forall>name. name \<noteq> ''*'' \<longrightarrow> mparams name \<noteq> Some []"
  shows "\<exists>pattern params. search (map fst open_routes @ mounted) path = Some (pattern, params) \<and> pattern \<in> set mounted \<and>
    path_fits pattern path = Some params"
proof (cases "search (map fst open_routes @ mounted) path")
  case None
  then show ?thesis using follows_None [OF assms(1) None _ assms(4)] assms(3,5) by (metis UnCI set_append)
next
  case (Some found)
  obtain pattern params where found: "found = (pattern, params)" by (rule prod.exhaust)
  note q = follows_Some [OF assms(1) Some [unfolded found]]
  then have "pattern \<notin> set (map fst open_routes)" using open_not_v1 [OF _ assms(2)] by (metis option.discI)
  then show ?thesis using q Some found by (metis UnE set_append)
qed

lemma under_v1:
  assumes "follows_patterns search"
  shows "\<exists>pattern params. search (map fst open_routes @ mounted) (''/v1/'' @ rest) = Some (pattern, params) \<and>
    pattern \<in> set mounted \<and> URLParam params ''*'' = rest"
proof -
  obtain s ss where s: "segments rest = s # ss" by (cases "segments rest") auto
  then have "path_fits ''/v1/*'' (''/v1/'' @ rest) = Some [''*'' \<mapsto> rest]"
    using join_segments [of rest] by (simp add: path_fits_def)
  moreover have "segments (''/v1/'' @ rest) = [] # ''v1'' # s # ss" by (simp add: s)
  moreover have "''/v1/*'' \<in> set mounted" by (simp add: mounted_def)
  moreover have "\<forall>name. name \<noteq> ''*'' \<longrightarrow> [''*'' \<mapsto> rest] name \<noteq> Some []" by auto
  ultimately have "\<exists>pattern params. search (map fst open_routes @ mounted) (''/v1/'' @ rest) = Some (pattern, params) \<and> pattern \<in> set mounted \<and>
      path_fits pattern (''/v1/'' @ rest) = Some params"
    using reaches_mount [OF assms] by blast
  then show ?thesis using mounted_rest by blast
qed

lemma at_v1:
  assumes "follows_patterns search"
  shows "\<exists>pattern params. search (map fst open_routes @ mounted) ''/v1'' = Some (pattern, params) \<and> pattern \<in> set mounted"
proof -
  have "path_fits ''/v1'' ''/v1'' = Some Map.empty" "segments ''/v1'' = [[], ''v1'']" "''/v1'' \<in> set mounted"
    by (simp_all add: path_fits_def mounted_def)
  from reaches_mount [OF assms this(2,3,1)] show ?thesis by auto
qed

text \<open>The words of the table differ.\<close>

lemma v1_unique:
  assumes "p \<in> set (map fst v1_routes)" "path_fits p path = Some params"
    and "p' \<in> set (map fst v1_routes)" "path_fits p' path = Some params'"
  shows "p' = p"
proof -
  have "shaped p" "shaped p'" using assms(1,3) routes_shaped by (auto simp: list_all_iff)
  then obtain ss ss' where "segments path = [] # word p # ss" "segments path = [] # word p' # ss'"
    using shaped_fits assms(2,4) by blast
  then have "word p' = word p" by simp
  then show ?thesis using words(2) assms(1,3) by (metis distinct_map inj_onD)
qed

lemma segments_slash: "segments path = [] # s # ss \<Longrightarrow> \<exists>rest. path = CHR ''/'' # rest"
  by (cases path) (auto split: list.splits if_splits)

section \<open>Properties\<close>

text \<open>The documented behaviour of the router: it knows GET, and searches by the patterns.\<close>

definition router_ok :: "router \<Rightarrow> bool" where
  "router_ok R \<longleftrightarrow> ro_knows R ''GET'' \<and> follows_patterns (ro_search R)"

text \<open>C11: Without a known key no request under /v1 reaches a handler, whatever the services hold, nor is the websocket accepted: a request whose
  method the router knows is answered with 401, also when no route fits its path, any other with 405.\<close>

theorem v1_needs_key:
  assumes "router_ok R" "rq_Key rq \<notin> set api_keys" "rq_Path rq = ''/v1'' \<or> take 4 (rq_Path rq) = ''/v1/''"
  shows "GetHttpHandler R h rq = Inr (Failed (if ro_knows R (rq_Method rq) then 401 else 405)) \<and>
    (rq_Path rq = ''/v1/ws'' \<longrightarrow> RegisterRoutes R accept rq = Inr (Failed (if ro_knows R (rq_Method rq) then 401 else 405)))"
proof
  have follows: "follows_patterns (ro_search R)" using assms(1) by (simp add: router_ok_def)
  have "\<exists>pattern params. ro_search R (map fst open_routes @ mounted) (rq_Path rq) = Some (pattern, params) \<and> pattern \<in> set mounted"
  proof (cases "rq_Path rq = ''/v1''")
    case True
    then show ?thesis using at_v1 [OF follows] by simp
  next
    case False
    then have "rq_Path rq = ''/v1/'' @ drop 4 (rq_Path rq)" using assms(3) append_take_drop_id [of 4 "rq_Path rq"] by metis
    then show ?thesis using under_v1 [OF follows, of "drop 4 (rq_Path rq)"] by metis
  qed
  then show "GetHttpHandler R h rq = Inr (Failed (if ro_knows R (rq_Method rq) then 401 else 405))"
    using assms(2) by (auto simp: GetHttpHandler_def routed_def)
  have "path_fits ''/v1/ws'' ''/v1/ws'' = Some Map.empty" by (simp add: path_fits_def)
  then have "ro_search R [''/v1/ws''] ''/v1/ws'' \<noteq> None" using follows_None [OF follows] by fastforce
  then show "rq_Path rq = ''/v1/ws'' \<longrightarrow> RegisterRoutes R accept rq = Inr (Failed (if ro_knows R (rq_Method rq) then 401 else 405))"
    using assms(2) by (auto simp: RegisterRoutes_def routed_def)
qed

text \<open>A router that takes the first pattern that fits, and a handler with a price.\<close>

fun first_fit :: search where
  "first_fit [] path = None"
| "first_fit (p # ps) path = (case path_fits p path of None \<Rightarrow> first_fit ps path | Some params \<Rightarrow> Some (p, params))"

lemma first_fit_follows: "follows_patterns first_fit"
proof -
  have "case first_fit patterns path of
      None \<Rightarrow> \<forall>p \<in> set patterns. \<forall>params. path_fits p path = Some params \<longrightarrow> (\<exists>name. name \<noteq> ''*'' \<and> params name = Some [])
    | Some (p, params) \<Rightarrow> p \<in> set patterns \<and> path_fits p path = Some params" for patterns path
    by (induction patterns) (auto split: option.splits)
  then show ?thesis by (simp add: follows_patterns_def)
qed

definition plain_router :: router where
  "plain_router = \<lparr>ro_knows = (\<lambda>m. m \<in> {''GET'', ''POST'', ''PUT'', ''DELETE'', ''HEAD''}), ro_search = first_fit\<rparr>"

lemma plain_router_ok: "router_ok plain_router"
  by (simp add: router_ok_def plain_router_def first_fit_follows)

definition sample_handler :: handler where
  "sample_handler = \<lparr>ha_price = (\<lambda>_. Fin 150), ha_findToken = (\<lambda>_. Inr (None, None)), ha_findPair = (\<lambda>_. Inl DbDown),
     ha_up = True, ha_db = empty_db, ha_getTx = (\<lambda>_. None), ha_now = 0, ha_oor = 0, ha_order = id, ha_evaluates = (\<lambda>_. False)\<rparr>"

definition price_request :: "string \<Rightarrow> string \<Rightarrow> request" where
  "price_request method key = \<lparr>rq_Method = method, rq_Path = ''/v1/price/SOL'', rq_Key = key, rq_Query = (\<lambda>_. [])\<rparr>"

lemma v1_needs_key_witness:
  "GetHttpHandler plain_router sample_handler (price_request ''POST'' ''guess'') = Inr (Failed 401) \<and>
   GetHttpHandler plain_router sample_handler (price_request ''PROPFIND'' ''guess'') = Inr (Failed 405)"
proof -
  have "''guess'' \<notin> set api_keys" by (simp add: api_keys_def)
  then show ?thesis
    using v1_needs_key [OF plain_router_ok, of "price_request ''POST'' ''guess''"] v1_needs_key [OF plain_router_ok, of "price_request ''PROPFIND'' ''guess''"]
    by (simp add: price_request_def plain_router_def)
qed

text \<open>C12: With a known key, a GET of a path that fits a pattern of the table, no parameter empty, is answered by the handler of that
  pattern with those parameters.\<close>

theorem v1_answers:
  assumes "router_ok R" "rq_Key rq \<in> set api_keys" "rq_Method rq = ''GET''"
    and "(pattern, e) \<in> set v1_routes" "rq_Path rq = ''/v1'' @ path"
    and "path_fits pattern path = Some params" "\<forall>name. params name \<noteq> Some []"
  shows "GetHttpHandler R h rq = run_endpoint h rq params e"
proof -
  let ?search = "ro_search R"
  have follows: "follows_patterns ?search" and get: "ro_knows R ''GET''" using assms(1) by (simp_all add: router_ok_def)
  have p: "pattern \<in> set (map fst v1_routes)" using assms(4) by force
  have "shaped pattern" using p routes_shaped by (auto simp: list_all_iff)
  from shaped_fits [OF this assms(6)] segments_slash obtain rest where rest: "path = CHR ''/'' # rest" by blast
  obtain mount mparams where top: "?search (map fst open_routes @ mounted) (''/v1'' @ path) = Some (mount, mparams)"
    "mount \<in> set mounted" "URLParam mparams ''*'' = rest"
    using under_v1 [OF follows, of rest] by (auto simp: rest)
  have "?search (map fst v1_routes) path = Some (pattern, params)"
  proof (cases "?search (map fst v1_routes) path")
    case None
    then show ?thesis using follows_None [OF follows None p assms(6)] assms(7) by blast
  next
    case (Some found)
    obtain p' params' where found: "found = (p', params')" by (rule prod.exhaust)
    note q = follows_Some [OF follows Some [unfolded found]]
    then have "p' = pattern" using v1_unique [OF p assms(6)] by blast
    then show ?thesis using q assms(6) Some found by simp
  qed
  then show ?thesis using assms(2,3,4,5) top get v1_distinct by (simp add: GetHttpHandler_def routed_def get_route_def rest)
qed

lemma v1_answers_witness:
  "GetHttpHandler plain_router sample_handler (price_request ''GET'' ''24af1b0df83bc86621ce305203d9d11b5f698e62'') =
     Inr (Answer (PriceReply (Fin 150, ''SOL'', ''USD'')))"
proof -
  let ?rq = "price_request ''GET'' ''24af1b0df83bc86621ce305203d9d11b5f698e62''"
  have "rq_Key ?rq \<in> set api_keys" "(''/price/{symbol}'', PriceLookup) \<in> set v1_routes"
    by (simp_all add: price_request_def api_keys_def v1_routes_def)
  moreover have "path_fits ''/price/{symbol}'' ''/price/SOL'' = Some [''symbol'' \<mapsto> ''SOL'']" by (simp add: path_fits_def)
  ultimately have "GetHttpHandler plain_router sample_handler ?rq = run_endpoint sample_handler ?rq [''symbol'' \<mapsto> ''SOL''] PriceLookup"
    using v1_answers [OF plain_router_ok, of ?rq "''/price/{symbol}''" PriceLookup "''/price/SOL''" "[''symbol'' \<mapsto> ''SOL'']" sample_handler]
    by (simp add: price_request_def)
  then show ?thesis by (simp add: run_endpoint_def URLParam_def PriceLookupHandler_def sample_handler_def)
qed

text \<open>The health check needs no key.\<close>

lemma health_is_open:
  "GetHttpHandler plain_router h \<lparr>rq_Method = ''GET'', rq_Path = ''/health'', rq_Key = key, rq_Query = query\<rparr> = Inr (Answer (Plain ''OK''))"
  by (simp add: GetHttpHandler_def routed_def plain_router_def open_routes_def mounted_def path_fits_def get_route_def run_endpoint_def HealthCheckHandler_def)

end
