(* ===== verification/KeepAlive.thy ===== *)
theory KeepAlive
  imports Listener "HOL-Library.Multiset"
begin

text \<open>
  The connection of the block listener (internal/solana/newBlocks.go): the credentials, the request that
  subscribes, and the goroutines that ping. Every subscription starts such a goroutine; it reads the
  fields of the listener, not its own stream, and ends only when a ping of its own fails.
\<close>

section \<open>Credentials and the request\<close>

definition GetRequestMetadata :: "string \<Rightarrow> string \<rightharpoonup> string" where
  "GetRequestMetadata token = [''x-token'' \<mapsto> token]"

definition RequireTransportSecurity :: bool where
  "RequireTransportSecurity = True"

record tx_filter =
  tf_Vote :: "bool option"
  tf_Failed :: "bool option"
  tf_Signature :: "string option"
  tf_AccountInclude :: "string list"
  tf_AccountExclude :: "string list"
  tf_AccountRequired :: "string list"

datatype commitment = Processed | Confirmed | Finalized

record subscribe_request =
  sq_Transactions :: "(string \<times> tx_filter) list"
  sq_BlocksMeta :: "string list"
  sq_Commitment :: "commitment option"
  sq_Ping :: "32 word option"

definition prepareSubscription :: subscribe_request where
  "prepareSubscription = \<lparr>sq_Transactions = [(''tx_sub'', \<lparr>tf_Vote = Some False, tf_Failed = Some False, tf_Signature = None,
       tf_AccountInclude = [], tf_AccountExclude = [], tf_AccountRequired = []\<rparr>)],
     sq_BlocksMeta = [''block_meta''], sq_Commitment = Some Confirmed, sq_Ping = None\<rparr>"

definition ping_request :: "32 word \<Rightarrow> subscribe_request" where
  "ping_request n = \<lparr>sq_Transactions = [], sq_BlocksMeta = [], sq_Commitment = None, sq_Ping = Some n\<rparr>"

section \<open>Pinging\<close>

text \<open>
  The fields of the listener: the current stream (numbered as they are opened, 0 for nil) and the last
  number of a ping, an int32. \<open>ls_Keepers\<close> are the goroutines that run keepAlive, named by the stream for which they
  were started.
\<close>

record listener =
  ls_Stream :: nat
  ls_pingId :: "32 word"
  ls_Keepers :: "nat list"

definition NewBlockListener :: listener where
  "NewBlockListener = \<lparr>ls_Stream = 0, ls_pingId = 0, ls_Keepers = []\<rparr>"

text \<open>grpcSubscribe after a successful Subscribe and Send.\<close>

definition subscribed :: "listener \<Rightarrow> listener" where
  "subscribed l = l\<lparr>ls_Stream := Suc (ls_Stream l), ls_Keepers := ls_Keepers l @ [Suc (ls_Stream l)]\<rparr>"

text \<open>
  A tick of one goroutine: the ping goes to the current stream, then to the client; a failure of either
  ends the goroutine. The context is never done.
\<close>

definition keepAlive :: "nat \<Rightarrow> bool \<Rightarrow> bool \<Rightarrow> listener \<Rightarrow> listener \<times> (nat \<times> subscribe_request) list" where
  "keepAlive keeper send ping l =
     (if ls_Stream l = 0 then (l, [])
      else
        let l = l\<lparr>ls_pingId := ls_pingId l + 1\<rparr>; sent = [(ls_Stream l, ping_request (ls_pingId l))] in
        if \<not> send then (l\<lparr>ls_Keepers := remove1 keeper (ls_Keepers l)\<rparr>, sent)
        else if \<not> ping then (l\<lparr>ls_Keepers := remove1 keeper (ls_Keepers l)\<rparr>, sent)
        else (l, sent))"

datatype keeping = Subscribed | Tick nat bool bool

definition keep_step :: "listener \<Rightarrow> keeping \<Rightarrow> listener \<times> (nat \<times> subscribe_request) list" where
  "keep_step l e = (case e of Subscribed \<Rightarrow> (subscribed l, []) | Tick keeper send ping \<Rightarrow> keepAlive keeper send ping l)"

fun keep_run :: "listener \<Rightarrow> keeping list \<Rightarrow> listener \<times> (nat \<times> subscribe_request) list" where
  "keep_run l [] = (l, [])"
| "keep_run l (e # es) = (case keep_step l e of (l, sent) \<Rightarrow> case keep_run l es of (l, sent') \<Rightarrow> (l, sent @ sent'))"

text \<open>Ten seconds without a failure: every goroutine ticks once, in any order.\<close>

definition quiet_interval :: "nat list \<Rightarrow> keeping list" where
  "quiet_interval keepers = map (\<lambda>k. Tick k True True) keepers"

section \<open>Lemmas\<close>

text \<open>The goroutines are those started for distinct streams, none later than the current one.\<close>

definition keepers_ok :: "listener \<Rightarrow> bool" where
  "keepers_ok l \<longleftrightarrow> sorted (ls_Keepers l) \<and> distinct (ls_Keepers l) \<and> set (ls_Keepers l) \<subseteq> {1..ls_Stream l}"

lemma keep_step_ok: "keepers_ok l \<Longrightarrow> keepers_ok (fst (keep_step l e))"
  by (cases e) (auto simp: keepers_ok_def keep_step_def subscribed_def keepAlive_def Let_def sorted_append sorted_remove1
      dest: notin_set_remove1 split: if_splits)

lemma keep_run_ok: "keepers_ok l \<Longrightarrow> keepers_ok (fst (keep_run l es))"
proof (induction es arbitrary: l)
  case (Cons e es)
  show ?case using Cons.IH [OF keep_step_ok [OF Cons.prems, of e]] by (auto split: prod.split)
qed simp

lemma keep_run_append:
  "keep_run l (es @ es') = (case keep_run l es of (l, sent) \<Rightarrow> case keep_run l es' of (l, sent') \<Rightarrow> (l, sent @ sent'))"
  by (induction es arbitrary: l) (simp_all split: prod.split)

text \<open>Ticks that succeed change only the number of the last ping.\<close>

lemma quiet_run:
  "ls_Stream l \<noteq> 0 \<Longrightarrow> keep_run l (quiet_interval ks) =
     (l\<lparr>ls_pingId := ls_pingId l + of_nat (length ks)\<rparr>,
      map (\<lambda>i. (ls_Stream l, ping_request (ls_pingId l + 1 + of_nat i))) [0..<length ks])"
proof (induction ks arbitrary: l)
  case (Cons k ks)
  have "keep_step l (Tick k True True) = (l\<lparr>ls_pingId := ls_pingId l + 1\<rparr>, [(ls_Stream l, ping_request (ls_pingId l + 1))])"
    using Cons.prems by (simp add: keep_step_def keepAlive_def)
  then show ?case
    using Cons.IH [of "l\<lparr>ls_pingId := ls_pingId l + 1\<rparr>"] Cons.prems
    by (simp add: quiet_interval_def upt_conv_Cons map_Suc_upt [symmetric] ac_simps del: upt_Suc)
qed (simp add: quiet_interval_def)

text \<open>In a run only goroutines that are running tick.\<close>

fun valid_run :: "listener \<Rightarrow> keeping list \<Rightarrow> bool" where
  "valid_run l [] = True"
| "valid_run l (e # es) =
     ((case e of Subscribed \<Rightarrow> True | Tick keeper _ _ \<Rightarrow> keeper \<in> set (ls_Keepers l)) \<and> valid_run (fst (keep_step l e)) es)"

definition subscriptions :: "keeping list \<Rightarrow> nat" where
  "subscriptions es = length (filter (\<lambda>e. e = Subscribed) es)"

definition ping_failed :: "nat \<Rightarrow> keeping list \<Rightarrow> bool" where
  "ping_failed k es = list_ex (\<lambda>e. case e of Subscribed \<Rightarrow> False | Tick k' send ping \<Rightarrow> k' = k \<and> \<not> (send \<and> ping)) es"

lemma ping_failed_simps [simp]:
  "\<not> ping_failed k []"
  "ping_failed k (Subscribed # es) = ping_failed k es"
  "ping_failed k (Tick k' send ping # es) = (k' = k \<and> \<not> (send \<and> ping) \<or> ping_failed k es)"
  by (simp_all add: ping_failed_def)

lemma subscriptions_simps [simp]:
  "subscriptions [] = 0" "subscriptions (Subscribed # es) = Suc (subscriptions es)" "subscriptions (Tick k s p # es) = subscriptions es"
  by (simp_all add: subscriptions_def)

lemma surviving_keepers:
  assumes "keepers_ok l" "valid_run l es"
  shows "ls_Stream (fst (keep_run l es)) = ls_Stream l + subscriptions es \<and>
     ls_Keepers (fst (keep_run l es)) =
       filter (\<lambda>k. \<not> ping_failed k es) (ls_Keepers l @ [Suc (ls_Stream l)..<Suc (ls_Stream l + subscriptions es)])"
  using assms
proof (induction es arbitrary: l)
  case (Cons e es)
  have ok: "keepers_ok (fst (keep_step l e))" by (rule keep_step_ok [OF Cons.prems(1)])
  have run: "fst (keep_run l (e # es)) = fst (keep_run (fst (keep_step l e)) es)" by (simp split: prod.split)
  note IH = Cons.IH [OF ok]
  show ?case
  proof (cases e)
    case Subscribed
    have "[Suc (ls_Stream l)..<Suc (Suc (ls_Stream l + subscriptions es))] =
        Suc (ls_Stream l) # [Suc (Suc (ls_Stream l))..<Suc (Suc (ls_Stream l + subscriptions es))]"
      by (rule upt_conv_Cons) simp
    then show ?thesis using IH Cons.prems(2) unfolding run by (simp add: Subscribed keep_step_def subscribed_def del: upt_Suc)
  next
    case (Tick k send ping)
    have k: "k \<in> set (ls_Keepers l)" using Cons.prems(2) by (simp add: Tick)
    then have stream: "ls_Stream l \<noteq> 0" "k \<le> ls_Stream l" using Cons.prems(1) by (auto simp: keepers_ok_def)
    have step: "ls_Stream (fst (keep_step l e)) = ls_Stream l"
      "ls_Keepers (fst (keep_step l e)) = (if send \<and> ping then ls_Keepers l else filter (\<lambda>j. j \<noteq> k) (ls_Keepers l))"
      using stream(1) Cons.prems(1) distinct_remove1_removeAll [of "ls_Keepers l" k]
      by (auto simp: Tick keep_step_def keepAlive_def Let_def keepers_ok_def removeAll_filter_not_eq)
        (auto intro!: filter_cong)
    have upt: "filter (\<lambda>j. \<not> ping_failed j es) [Suc (ls_Stream l)..<Suc (ls_Stream l + subscriptions es)] =
        filter (\<lambda>j. \<not> ping_failed j (e # es)) [Suc (ls_Stream l)..<Suc (ls_Stream l + subscriptions es)]"
      using stream(2) by (intro filter_cong) (auto simp: Tick)
    have "filter (\<lambda>j. \<not> ping_failed j es) (ls_Keepers (fst (keep_step l e))) = filter (\<lambda>j. \<not> ping_failed j (e # es)) (ls_Keepers l)"
      unfolding step(2) unfolding Tick by (cases "send \<and> ping") (auto intro: filter_cong)
    then show ?thesis using IH Cons.prems(2) upt unfolding run by (simp add: Tick step(1) [unfolded Tick] del: upt_Suc)
  qed
qed simp

text \<open>C34: A goroutine that pings ends exactly when a ping of its own fails, never because its stream broke off. In every run, the goroutines
  that are left are those of all the streams ever opened whose ticks succeeded, and in a quiet interval
  each of them sends a ping to the current stream, numbered from their common counter.\<close>

theorem keepers_pile_up:
  assumes "valid_run NewBlockListener es" "keep_run NewBlockListener es = (l, sent)"
    and "mset ks = mset (ls_Keepers l)" "keep_run l (quiet_interval ks) = (l', pings)"
  shows "ls_Keepers l = filter (\<lambda>k. \<not> ping_failed k es) [1..<Suc (subscriptions es)] \<and> ls_Keepers l' = ls_Keepers l \<and>
    pings = map (\<lambda>i. (subscriptions es, ping_request (ls_pingId l + 1 + of_nat i))) [0..<length (ls_Keepers l)]"
proof -
  have "keepers_ok NewBlockListener" by (simp add: keepers_ok_def NewBlockListener_def)
  from surviving_keepers [OF this assms(1)] have l: "ls_Stream l = subscriptions es"
    "ls_Keepers l = filter (\<lambda>k. \<not> ping_failed k es) [1..<Suc (subscriptions es)]"
    using assms(2) by (simp_all add: NewBlockListener_def del: upt_Suc)
  have ks: "length ks = length (ls_Keepers l)" using assms(3) by (metis size_mset)
  show ?thesis
  proof (cases "ls_Stream l = 0")
    case True
    then have "ls_Keepers l = []" using l by simp
    then show ?thesis using ks assms(4) l(2) by (simp add: quiet_interval_def)
  next
    case False
    have "l' = l\<lparr>ls_pingId := ls_pingId l + of_nat (length ks)\<rparr>"
      "pings = map (\<lambda>i. (subscriptions es, ping_request (ls_pingId l + 1 + of_nat i))) [0..<length (ls_Keepers l)]"
      using assms(4) l(1) ks quiet_run [OF False, of ks] by simp_all
    then show ?thesis using l(2) by simp
  qed
qed

text \<open>Three streams. The first goroutine goes on ticking; a tick of the second falls between its stream and the
  third. Two goroutines ping the third stream.\<close>

definition sample_run :: "keeping list" where
  "sample_run = [Subscribed, Tick 1 True True, Subscribed, Tick 1 True True, Tick 2 True True, Tick 2 False True, Subscribed]"

lemma keepers_pile_up_witness:
  "let l = \<lparr>ls_Stream = 3, ls_pingId = 4, ls_Keepers = [1, 3]\<rparr>
   in fst (keep_run NewBlockListener sample_run) = l \<and>
      snd (keep_run l (quiet_interval [3, 1])) = [(3, ping_request 5), (3, ping_request 6)]"
proof -
  let ?l = "\<lparr>ls_Stream = 3, ls_pingId = 4, ls_Keepers = [1, 3]\<rparr>"
  obtain sent where start: "keep_run NewBlockListener sample_run = (?l, sent)"
    by (simp add: sample_run_def NewBlockListener_def keep_step_def subscribed_def keepAlive_def Let_def)
  have valid: "valid_run NewBlockListener sample_run" by code_simp
  have three: "subscriptions sample_run = 3" by code_simp
  obtain l' pings where run: "keep_run ?l (quiet_interval [3, 1]) = (l', pings)" by (rule prod.exhaust)
  show ?thesis using keepers_pile_up [OF valid start _ run] run start three by (simp add: upt_rec)
qed

text \<open>A failed ping ends its goroutine; the invariant holds in every run.\<close>

lemma failed_ping_ends: "ls_Stream l \<noteq> 0 \<Longrightarrow> \<not> (send \<and> ping) \<Longrightarrow>
    ls_Keepers (fst (keepAlive k send ping l)) = remove1 k (ls_Keepers l)"
  by (auto simp: keepAlive_def Let_def)

lemma keepers_reachable_ok: "keepers_ok (fst (keep_run NewBlockListener es))"
  by (rule keep_run_ok) (simp add: keepers_ok_def NewBlockListener_def)

end
