(* ===== verification/Spec2Isabelle.thy ===== *)
theory Spec2Isabelle
  imports ExecOrder TransferAmounts Finder DexOther Tracker Pipeline Followers Redelivery CodecChain CodecMetaplex CodecApi Layouts Router KeepAlive
begin

text \<open>
  Blocsy indexes the swaps of the Solana chain. A listener receives transactions from a stream and
  puts them on a message queue; workers take them off, parse the transfers of each, turn them into
  swaps, store these and broadcast them to websocket clients; a backfill fetches blocks the store
  is missing; an HTTP API answers from the store. This development models the Go code of these
  parts as functions and step relations and proves what makes them correct, or shows where they are
  not.

  \<^bold>\<open>Conventions\<close> (Prelude, GoNumber, GoText, SolTypes). A result \<open>'a go\<close> is \<open>Inl\<close> a fault (a run-time
  panic or a fatal exit, each a constructor) or \<open>Inr\<close> the value; a Go error that is returned is
  an ordinary value (a sum, an option or a flag). Structs are records and keep their field names
  behind a prefix; slices are lists, indexed through \<open>idx\<close> and cut through \<open>slice\<close>, which fault out
  of range; maps are partial functions; int is the integer type (its 64-bit wrap-around is written
  out where values can reach it, with \<open>int64\<close>), uint8 and uint64 are words. A float is a \<open>gonum\<close>:
  a finite rational or an infinity or NaN; every float64 and big.Float operation rounds to its
  precision (53 and 64 bits) by \<open>rnd\<close>, half to even; \<open>f64_round\<close> adds the range of a float64, with subnormal
  numbers and overflow. The sign of zero is not kept. GoText holds the number formats of the standard library: decimal parsing, the
  shortest text that reads back ('f' and 'g' with -1), ten significant digits, Atoi and ParseInt.

  \<^bold>\<open>Parameters.\<close> \<open>ext\<close> are the third-party decoders (base58, borsh, the key type); \<open>pg\<close> the limits
  of the database server (parameters of a statement, acceptable texts); \<open>chain\<close> the answers of the RPC
  client; \<open>surroundings\<close>, \<open>circumstances\<close>, \<open>dials\<close>, \<open>broker\<close>, \<open>finder_env\<close> and \<open>arrival\<close> what one run
  of the code meets: whether a connection is up at each statement, what a node replies, what the
  broker accepts, the clock, the order in which goroutines deliver; \<open>evaluates\<close> which
  prices the server computes beside those it needs; \<open>oor\<close> the implementation-specific
  conversion of a float that is out of the range of int64; \<open>ws_json\<close> the encoder of the websocket's
  messages; \<open>bin_decoder\<close> the decoder of account layouts; \<open>router\<close> the methods the router
  knows and its search for the pattern of a path (\<open>router_ok\<close>); \<open>outside\<close> what a program meets when it starts (variables, their files, the database server,
  the broker, the ports). Theorems hold for all of them unless a hypothesis restricts them; each such
  hypothesis is met by the concrete functions of the witnesses.

  \<^bold>\<open>Parts and theories.\<close>
  \<^item> Constants: internal/solana/constants.go, as maps and predicates. Instructions: the binary decoders
    (tokenProgram.go, systemProgram.go, metaplexProgram.go). ChainUtils: the predicates of utils.go.
  \<^item> TxParser: txParser.go. ParseTransaction folds \<open>parse_step\<close> over the outer instructions, each with
    its inner ones; findUserAccount, findParentProgram and processInstruction keep their branches.
    The lemmas give totality on \<open>wf_tx\<close> (indexes in range, data that decode). ExecOrder flattens the
    execution into one list of located instructions: results in execution order, parent programs,
    kinds. TransferAmounts: the wire formats, with the optional keys that the decoder misreads, and that the
    amount texts determine the raw amounts.
  \<^item> Dex, PumpFunToken, SwapHandler: the handlers of dex/*.go and swapHandler.go. The locale
    \<open>dex_handler\<close> is what the swap handler needs of a handler (it returns, and advances by a positive
    number); it is interpreted for every handler of the program table (the two-leg ones through \<open>two_leg_handler\<close>). The abstract specifications are the
    table \<open>dex_layout\<close> of account positions (refined by processTransfer) and \<open>built_logs\<close> with \<open>wallet_net\<close>
    (refined by HandleSwaps). DexOther: the handlers nothing calls, with the termination of their
    scans. LogTree: GetLogs as the inverse of printing call trees, and the searches in them.
  \<^item> Repo: db/timescale_repo.go and the tables: \<open>database\<close> is the rows of the four tables, an operation
    returns the error of the driver and the new database. \<open>db_reach\<close> are its reachable states. The
    locale \<open>swap_store\<close> is the contract the workers rely on. Metadata: service.go. Finder: the cache,
    the token and pair finders, and their queues as the step relation \<open>processor_step\<close>; the locale
    \<open>token_repo\<close> is the repository the finder is given.
  \<^item> TxHandler: txHandler.go, whose outcome lists the swaps, the broadcast messages and the calls it
    leaves running on the table of tokens; \<open>supply_changes\<close> and \<open>created_tokens\<close> say what these do. Queue:
    queue.go, one delivery as \<open>deliver\<close> (the calls of its transactions run by \<open>run_goroutines\<close> on schedules before and
    after the insertion), the workers as a counter; the locale
    \<open>block_codec\<close> is what the two ends of the queue assume of the encoder. Redelivery: what a second delivery does to the tokens. Websocket: the
    clients and broadcasts as \<open>ws_step\<close>, with the reachable states \<open>ws_reach\<close>. Backfill: node.go and backfill.go.
  \<^item> Json, Codec: the generated encoders and decoders of the messages (sol_easyjson.go) over JSON values.
    JsonCodec states their contract as the locale \<open>json_codec\<close> (what is encoded is read back, also in slices
    and optional fields), interpreted for every generated pair: CodecSwaps (transfers, swaps, logs of the
    exchanges), CodecChain (instruction data, blocks, the answers of nodes), CodecMetaplex (metadata) and
    CodecApi (main_easyjson.go: tokens, pairs, prices). GoTime is the calendar and the RFC 3339 text of times,
    with its round trip, which the tokens and pairs need.
  \<^item> Listener: newBlocks.go and the conversions of utils.go; \<open>listen_step\<close> is one update of the stream.
    KeepAlive: its credentials, the request that subscribes and the goroutines that ping.
    Pipeline composes Listener, Codec, Queue, TxHandler and Repo; Followers adds Websocket: what a connected client
    receives of a transaction over a run of the server.
  \<^item> Pnl, Routes, TopTokens, Tracker: pnl_utils.go, the HTTP handlers, the query of the most valuable
    recent tokens with its handler, the price tracker.
  \<^item> Layouts: the account layouts of dex-models.go as field lists with their widths, and the offsets that
    follow; they instantiate the layouts that identifyPair is given, whose result is the table \<open>pool_accounts\<close>.
  \<^item> Startup: the environment (utils.go), the connection and the tables, and the main functions of the four
    programs up to the point where they serve (the websocket server ends its process when its port is taken, the API
    only logs it); the abstract specification of the tables is \<open>db_usable\<close> and \<open>create_tables\<close>.
    Router: handler.go and RegisterRoutes, with the key in front of the second table, methods the router does not
    know refused before it, and every handler behind its pattern.

  \<^bold>\<open>Groups of properties.\<close> Safety: no part panics on well-formed input (parser, handlers, transaction
  handler, profit); no request passes without a key. Function: what each returns, on every branch, and
  what a stream transaction means for a connected client. Invariants: execution order, keys of
  the tables, the tables themselves, clients of the websocket, tokens under way in the finder. Refinement: the table of the
  exchanges and the swap specification. Round trips: instruction data, event data, token metadata, tokens,
  queue messages. Liveness: a block that can be processed is stored and acknowledged, from the
  stream to the database. Errors: the places where the code loses a swap, a block, a pair or a worker, counts
  a supply twice, misreads a key, or keeps goroutines it no longer needs.

  \<^bold>\<open>Fuel and bounds.\<close> Loops are structural or have a measure; there is no fuel except for the five
  attempts of reconnect, which is the bound of the code. The digit search of the shortest decimal
  text tries up to 54 digits beyond the leading one, which \<open>shortest_enough\<close> and \<open>pos_text_g_props\<close>
  show to be enough for every float64 in the normal range. Round trips of floats hold in that
  range (\<open>float_ok\<close>), those of integers in 64 bits (\<open>int_ok\<close>).

  \<^bold>\<open>Not modelled.\<close> Signals, shutdown, timeouts and heartbeats; logging; the random GenerateAPIKey, which nothing
  calls; the third-party middleware of the router (request identifiers, real addresses, recovery); the text of
  JSON, of which the library's delimiters and escapes are taken to be right (it replaces bytes that are not UTF-8,
  which the round trips of texts leave aside), and the failure of the
  encoder on NaN in an answer of the API; the program that generated the codec (easyjson-bootstrap) and the
  one-line methods that call a generated function with a fresh lexer or writer; wrappers that only call a
  client library (Close, setPrefetch, GetSlot); data races, other than as interleavings of whole steps.
\<close>

end
